theory Spec2Isabelle
  imports Complex_Main "HOL-Library.Code_Target_Nat"
begin

section \<open>The simulation core of App.tsx\<close>

text \<open>
  A shallow embedding of the generation, recovery and render functions of
  \<^verbatim>\<open>src/App.tsx\<close>.

  \<^item> JavaScript numbers are modelled exactly: array indices, counters and ages as
    \<open>nat\<close>, colour channels as \<open>int\<close> (every colour the program makes comes out of
    \<^verbatim>\<open>Math.floor\<close>, \<^verbatim>\<open>Math.round\<close> or the constants 0 and 255), all other
    numbers (settings, timestamps, opacities, random draws) as \<open>rat\<close>. Arithmetic is
    exact: the rounding of double precision is not modelled.
  \<^item> \<^verbatim>\<open>Math.random()\<close> is a parameter: a sequence of draws and a position in it.
  \<^item> A \<^verbatim>\<open>TypeError\<close> (reading a property of \<^verbatim>\<open>undefined\<close>) and a
    \<^verbatim>\<open>RangeError\<close> (an invalid array length) are values of type \<open>error\<close>;
    a function that can throw returns \<open>error + 'a\<close>, the error alone when it throws.
  \<^item> React state (\<^verbatim>\<open>useState\<close>) and refs (\<^verbatim>\<open>useRef\<close>) are fields of one
    record that a tick takes and returns.
  \<^item> A grid is a list of rows. The functions take its height from the number of rows
    and its width from the first row, as the source does.
\<close>

subsection \<open>Errors, loops, numbers\<close>

datatype error = TypeError | RangeError | OutsideRow | NotFinite

text \<open>
  \<open>OutsideRow\<close> is not a JavaScript exception: it marks an assignment
  \<^verbatim>\<open>newGrid[x][y] = v\<close> beyond the end of a row of booleans, which in the source
  lengthens the row and leaves holes that a list cannot hold. It needs a ragged grid or a
  random draw outside \<open>[0, 1)\<close>. \<open>NotFinite\<close> is none either: it marks a fade progress
  that is \<^verbatim>\<open>NaN\<close> or \<^verbatim>\<open>-Infinity\<close>, which a rational cannot hold. It needs a fade
  time of zero while a fade is running.
\<close>

text \<open>A \<^verbatim>\<open>for\<close> loop whose body may throw: the first error ends the loop.\<close>

fun foldE :: "('a \<Rightarrow> 's \<Rightarrow> error + 's) \<Rightarrow> 'a list \<Rightarrow> 's \<Rightarrow> error + 's" where
  "foldE f [] st = Inr st"
| "foldE f (x # xs) st = (case f x st of Inl e \<Rightarrow> Inl e | Inr st' \<Rightarrow> foldE f xs st')"

text \<open>\<^verbatim>\<open>Math.round\<close> rounds half up.\<close>

definition Math_round :: "rat \<Rightarrow> int" where
  "Math_round q = \<lfloor>q + 1 / 2\<rfloor>"

text \<open>
  \<^verbatim>\<open>a % n\<close> for an integer \<open>a\<close> and a length \<open>n\<close>: the remainder has the sign of
  \<open>a\<close>, and \<^verbatim>\<open>a % 0\<close> is \<^verbatim>\<open>NaN\<close> (\<open>None\<close>).
\<close>

definition js_rem :: "int \<Rightarrow> nat \<Rightarrow> int option" where
  "js_rem a n = (if n = 0 then None else Some (sgn a * (\<bar>a\<bar> mod int n)))"

subsection \<open>The random source\<close>

type_synonym rng = "(nat \<Rightarrow> rat) \<times> nat"

definition Math_random :: "rng \<Rightarrow> rat \<times> rng" where
  "Math_random rg = (fst rg (snd rg), (fst rg, Suc (snd rg)))"

text \<open>\<^verbatim>\<open>Math.random()\<close> returns a number in \<open>[0, 1)\<close>.\<close>

definition unit_draws :: "rng \<Rightarrow> bool" where
  "unit_draws rg = (\<forall>k. 0 \<le> fst rg k \<and> fst rg k < 1)"

text \<open>\<^verbatim>\<open>Array(n).fill(null).map(() => f())\<close>: \<open>n\<close> calls of \<open>f\<close>, in order.\<close>

fun mapRandom :: "(rng \<Rightarrow> 'a \<times> rng) \<Rightarrow> nat \<Rightarrow> rng \<Rightarrow> 'a list \<times> rng" where
  "mapRandom f 0 rg = ([], rg)"
| "mapRandom f (Suc n) rg =
     (case f rg of (v, rg1) \<Rightarrow> (case mapRandom f n rg1 of (vs, rg2) \<Rightarrow> (v # vs, rg2)))"

subsection \<open>Types\<close>

record GameSettings =
  cell_size :: rat
  simulation_speed :: rat
  try_revive_stuck_sim :: bool
  hard_reset_on_stuck :: bool
  max_revival_attempts :: rat
  grid_population_percentage :: rat
  fade_amount :: rat
  stable_display_time :: rat
  edge_wrapping :: bool
  cell_padding :: rat
  bottom_margin :: rat
  cell_corner_radius :: rat
  neighbor_opacity_enabled :: bool
  neighbor_opacity_increment :: rat
  color_mode :: bool
  random_color_chance :: rat
  max_saturation_age :: rat
  saturation_factor :: rat
  random_color_pure :: bool

record CellColor =
  r :: int
  g :: int
  b :: int

record ColoredCell =
  alive :: bool
  color :: "CellColor option"
  age :: "nat option"

type_synonym GridState = "bool list list"
type_synonym ColoredGridState = "ColoredCell list list"

text \<open>
  The colours \<^verbatim>\<open>background_color\<close> and \<^verbatim>\<open>foreground_color\<close> are hex strings in
  the source; \<^verbatim>\<open>renderGrid\<close> parses the foreground into three channels, which is
  what the embedding keeps (\<open>0x1d, 0xb9, 0x54\<close> for the default \<^verbatim>\<open>#1db954\<close>).
\<close>

definition DEFAULT_SETTINGS :: GameSettings where
  "DEFAULT_SETTINGS = \<lparr>
     cell_size = 25,
     simulation_speed = 2000,
     try_revive_stuck_sim = True,
     hard_reset_on_stuck = False,
     max_revival_attempts = 5,
     grid_population_percentage = 3 / 10,
     fade_amount = 1,
     stable_display_time = 0,
     edge_wrapping = True,
     cell_padding = 4,
     bottom_margin = 0,
     cell_corner_radius = 8,
     neighbor_opacity_enabled = True,
     neighbor_opacity_increment = 15 / 100,
     color_mode = True,
     random_color_chance = 5 / 100,
     max_saturation_age = 15,
     saturation_factor = 3 / 10,
     random_color_pure = False \<rparr>"

definition DEFAULT_FOREGROUND :: CellColor where
  "DEFAULT_FOREGROUND = \<lparr> r = 29, g = 185, b = 84 \<rparr>"

subsection \<open>fibonacci\<close>

definition fibonacci :: "nat \<Rightarrow> nat" where
  "fibonacci n =
     (if n \<le> 0 then 1
      else if n = 1 then 1
      else snd (fold (\<lambda>i (a, b). (b, a + b)) [2..<Suc n] (1, 1)))"

subsection \<open>Colours\<close>

definition generateRandomColor :: "rng \<Rightarrow> CellColor \<times> rng" where
  "generateRandomColor rg =
     (case Math_random rg of (u1, rg1) \<Rightarrow>
      case Math_random rg1 of (u2, rg2) \<Rightarrow>
      case Math_random rg2 of (u3, rg3) \<Rightarrow>
        (\<lparr> r = \<lfloor>u1 * 256\<rfloor>, g = \<lfloor>u2 * 256\<rfloor>, b = \<lfloor>u3 * 256\<rfloor> \<rparr>, rg3))"

text \<open>
  \<^verbatim>\<open>channels[Math.floor(Math.random() * 3)]\<close>: for a draw in \<open>[0, 1)\<close> the index is
  0, 1 or 2.
\<close>

definition generateTweakedColor :: "CellColor \<Rightarrow> rng \<Rightarrow> CellColor \<times> rng" where
  "generateTweakedColor baseColor rg =
     (case Math_random rg of (u1, rg1) \<Rightarrow>
      case Math_random rg1 of (u2, rg2) \<Rightarrow>
        (let randomChannel = \<lfloor>u1 * 3\<rfloor>;
             extremeValue = (if u2 < 1 / 2 then 0 else 255)
         in (if randomChannel = 0 then baseColor\<lparr> r := extremeValue \<rparr>
             else if randomChannel = 1 then baseColor\<lparr> g := extremeValue \<rparr>
             else baseColor\<lparr> b := extremeValue \<rparr>, rg2)))"

definition averageColors :: "CellColor list \<Rightarrow> CellColor" where
  "averageColors colors =
     (if length colors = 0 then \<lparr> r = 255, g = 255, b = 255 \<rparr>
      else
        let sum = fold (\<lambda>c acc. \<lparr> r = r acc + r c, g = g acc + g c, b = b acc + b c \<rparr>)
                    colors \<lparr> r = 0, g = 0, b = 0 \<rparr>
        in \<lparr> r = Math_round (of_int (r sum) / of_nat (length colors)),
             g = Math_round (of_int (g sum) / of_nat (length colors)),
             b = Math_round (of_int (b sum) / of_nat (length colors)) \<rparr>)"

text \<open>
  \<^verbatim>\<open>max_saturation_age\<close> ranges over 1 to 50. At 0 the source's quotient
  \<^verbatim>\<open>Math.min(age, maxAge) / maxAge\<close> is \<^verbatim>\<open>NaN\<close>, which an \<open>int\<close> channel cannot
  hold: what is proved below about channel values assumes \<open>0 < max_saturation_age\<close>.
\<close>

definition saturationScale :: "GameSettings \<Rightarrow> nat \<Rightarrow> rat" where
  "saturationScale s ag =
     (let maxAge = max_saturation_age s;
          ageBoost = min (of_nat ag) maxAge / maxAge
      in 1 + (ageBoost * saturation_factor s))"

definition enhanceChannel :: "rat \<Rightarrow> rat \<Rightarrow> int \<Rightarrow> int" where
  "enhanceChannel center saturationFactor channel =
     (let distance = of_int channel - center;
          enhanced = center + (distance * saturationFactor)
      in Math_round (max 0 (min 255 enhanced)))"

definition enhanceColorSaturation :: "GameSettings \<Rightarrow> CellColor \<Rightarrow> nat \<Rightarrow> CellColor" where
  "enhanceColorSaturation s c ag =
     (let saturationFactor = saturationScale s ag;
          center = of_int (r c + g c + b c) / 3
      in \<lparr> r = enhanceChannel center saturationFactor (r c),
           g = enhanceChannel center saturationFactor (g c),
           b = enhanceChannel center saturationFactor (b c) \<rparr>)"

text \<open>
  \<^verbatim>\<open>ages[index] || 1\<close>: an age of 0 weighs 1. The lists have the same length
  here, so \<^verbatim>\<open>reduce\<close> with its index is a loop over the pairs.
\<close>

definition averageColorsWeighted :: "CellColor list \<Rightarrow> nat list \<Rightarrow> CellColor" where
  "averageColorsWeighted colors ages =
     (if length colors = 0 then \<lparr> r = 255, g = 255, b = 255 \<rparr>
      else if length colors \<noteq> length ages then averageColors colors
      else
        case fold (\<lambda>(c, a) (totalWeight, acc).
                     let weight = (if a = 0 then 1 else a)
                     in (totalWeight + weight,
                         \<lparr> r = r acc + r c * int weight,
                           g = g acc + g c * int weight,
                           b = b acc + b c * int weight \<rparr>))
                  (zip colors ages) (0, \<lparr> r = 0, g = 0, b = 0 \<rparr>)
        of (totalWeight, weightedSum) \<Rightarrow>
          \<lparr> r = Math_round (of_int (r weightedSum) / of_nat totalWeight),
            g = Math_round (of_int (g weightedSum) / of_nat totalWeight),
            b = Math_round (of_int (b weightedSum) / of_nat totalWeight) \<rparr>)"

subsection \<open>Neighbours\<close>

text \<open>
  The coordinates \<^verbatim>\<open>newX, newY\<close> that one turn of the two loops of
  \<^verbatim>\<open>countNeighbors\<close> and \<^verbatim>\<open>countNeighborsColored\<close> reads, or \<open>None\<close> where the
  turn ends with \<^verbatim>\<open>continue\<close>. A coordinate is \<open>None\<close> when it is \<^verbatim>\<open>NaN\<close>.
\<close>

definition neighborCoords ::
  "GameSettings \<Rightarrow> nat \<Rightarrow> nat \<Rightarrow> nat \<Rightarrow> nat \<Rightarrow> int \<Rightarrow> int \<Rightarrow> (int option \<times> int option) option" where
  "neighborCoords s height width x y i j =
     (if i = 0 \<and> j = 0 then None
      else
        let newX = int x + i; newY = int y + j in
        if edge_wrapping s then
          Some (js_rem (newX + int height) height, js_rem (newY + int width) width)
        else if newX < 0 \<or> newX \<ge> int height \<or> newY < 0 \<or> newY \<ge> int width then None
        else Some (Some newX, Some newY))"

text \<open>
  \<^verbatim>\<open>grid[newX][newY]\<close> as a condition. The row index is inside the grid wherever
  this is used (\<open>x \<ge> 0\<close> and the grid is not empty); a column outside the row reads
  \<^verbatim>\<open>undefined\<close>, which is falsy.
\<close>

definition cellAt :: "GridState \<Rightarrow> int option \<Rightarrow> int option \<Rightarrow> bool" where
  "cellAt gr ix iy =
     (case (ix, iy) of
        (Some i, Some j) \<Rightarrow>
          0 \<le> i \<and> nat i < length gr \<and> 0 \<le> j \<and> nat j < length (gr ! nat i) \<and> gr ! nat i ! nat j
      | _ \<Rightarrow> False)"

text \<open>
  \<^verbatim>\<open>const cell = grid[newX][newY]\<close> followed by \<^verbatim>\<open>cell.alive\<close>: outside the grid
  the cell is \<^verbatim>\<open>undefined\<close> and reading its property throws.
\<close>

definition coloredCellAt :: "ColoredGridState \<Rightarrow> int option \<Rightarrow> int option \<Rightarrow> error + ColoredCell" where
  "coloredCellAt gr ix iy =
     (case (ix, iy) of
        (Some i, Some j) \<Rightarrow>
          if 0 \<le> i \<and> nat i < length gr \<and> 0 \<le> j \<and> nat j < length (gr ! nat i)
          then Inr (gr ! nat i ! nat j) else Inl TypeError
      | _ \<Rightarrow> Inl TypeError)"

definition countNeighbors :: "GameSettings \<Rightarrow> GridState \<Rightarrow> nat \<Rightarrow> nat \<Rightarrow> error + nat" where
  "countNeighbors s gr x y =
     (case gr of
        [] \<Rightarrow> Inl TypeError
      | row0 # _ \<Rightarrow>
          let height = length gr; width = length row0 in
          Inr (fold (\<lambda>i. fold (\<lambda>j count.
                 case neighborCoords s height width x y i j of
                   None \<Rightarrow> count
                 | Some (newX, newY) \<Rightarrow> if cellAt gr newX newY then count + 1 else count)
               [-1, 0, 1]) [-1, 0, 1] 0))"

definition countNeighborsColored ::
  "GameSettings \<Rightarrow> ColoredGridState \<Rightarrow> nat \<Rightarrow> nat \<Rightarrow> error + (nat \<times> CellColor list \<times> nat list)" where
  "countNeighborsColored s gr x y =
     (case gr of
        [] \<Rightarrow> Inl TypeError
      | row0 # _ \<Rightarrow>
          let height = length gr; width = length row0 in
          foldE (\<lambda>i. foldE (\<lambda>j (count, colors, ages).
                 case neighborCoords s height width x y i j of
                   None \<Rightarrow> Inr (count, colors, ages)
                 | Some (newX, newY) \<Rightarrow>
                     (case coloredCellAt gr newX newY of
                        Inl e \<Rightarrow> Inl e
                      | Inr cell \<Rightarrow>
                          (case color cell of
                             Some c \<Rightarrow>
                               if alive cell
                               then Inr (count + 1, colors @ [c],
                                         ages @ [case age cell of
                                                   None \<Rightarrow> 1
                                                 | Some a \<Rightarrow> if a = 0 then 1 else a])
                               else Inr (count, colors, ages)
                           | None \<Rightarrow> Inr (count, colors, ages))))
               [-1, 0, 1]) [-1, 0, 1] (0, [], []))"

subsection \<open>Creating grids\<close>

text \<open>
  \<^verbatim>\<open>Array(n)\<close> throws a \<^verbatim>\<open>RangeError\<close> unless \<open>n\<close> is an integer from 0 to
  \<open>2\<^sup>3\<^sup>2 - 1\<close>. A width or height is \<open>Some n\<close> when it is the non-negative integer
  \<open>n\<close> and \<open>None\<close> otherwise (\<^verbatim>\<open>NaN\<close>, \<^verbatim>\<open>Infinity\<close>).
\<close>

definition arrayLength :: "nat option \<Rightarrow> error + nat" where
  "arrayLength n =
     (case n of
        None \<Rightarrow> Inl RangeError
      | Some k \<Rightarrow> if k < 2 ^ 32 then Inr k else Inl RangeError)"

definition createRandomGrid ::
  "GameSettings \<Rightarrow> nat option \<Rightarrow> nat option \<Rightarrow> rng \<Rightarrow> error + (GridState \<times> rng)" where
  "createRandomGrid s width height rg0 =
     (case arrayLength height of
        Inl e \<Rightarrow> Inl e
      | Inr h \<Rightarrow>
          if h = 0 then Inr ([], rg0)
          else
            (case arrayLength width of
               Inl e \<Rightarrow> Inl e
             | Inr w \<Rightarrow>
                 Inr (mapRandom (mapRandom (\<lambda>rg. case Math_random rg of
                        (u, rg1) \<Rightarrow> (u < grid_population_percentage s, rg1)) w) h rg0)))"

definition createRandomColoredGrid ::
  "GameSettings \<Rightarrow> nat option \<Rightarrow> nat option \<Rightarrow> rng \<Rightarrow> error + (ColoredGridState \<times> rng)" where
  "createRandomColoredGrid s width height rg0 =
     (case arrayLength height of
        Inl e \<Rightarrow> Inl e
      | Inr h \<Rightarrow>
          if h = 0 then Inr ([], rg0)
          else
            (case arrayLength width of
               Inl e \<Rightarrow> Inl e
             | Inr w \<Rightarrow>
                 Inr (mapRandom (mapRandom (\<lambda>rg. case Math_random rg of
                        (u, rg1) \<Rightarrow>
                          if u < grid_population_percentage s
                          then (case generateRandomColor rg1 of
                                  (c, rg2) \<Rightarrow> (\<lparr> alive = True, color = Some c, age = Some 1 \<rparr>, rg2))
                          else (\<lparr> alive = False, color = None, age = None \<rparr>, rg1)) w) h rg0)))"

subsection \<open>One generation\<close>

definition nextGeneration :: "GameSettings \<Rightarrow> GridState \<Rightarrow> error + GridState" where
  "nextGeneration s currentGrid =
     (case currentGrid of
        [] \<Rightarrow> Inl TypeError
      | row0 # _ \<Rightarrow>
          let height = length currentGrid; width = length row0 in
          foldE (\<lambda>x. foldE (\<lambda>y newGrid.
                 case countNeighbors s currentGrid x y of
                   Inl e \<Rightarrow> Inl e
                 | Inr neighbors \<Rightarrow>
                     let isAlive = cellAt currentGrid (Some (int x)) (Some (int y)) in
                     if isAlive \<and> (neighbors = 2 \<or> neighbors = 3)
                     then Inr (newGrid[x := (newGrid ! x)[y := True]])
                     else if \<not> isAlive \<and> neighbors = 3
                     then Inr (newGrid[x := (newGrid ! x)[y := True]])
                     else Inr newGrid)
               [0..<width]) [0..<height]
            (replicate height (replicate width False)))"

text \<open>The colour of a newborn cell, from the colours and ages of its live neighbours.\<close>

definition newbornColor ::
  "GameSettings \<Rightarrow> CellColor list \<Rightarrow> nat list \<Rightarrow> rng \<Rightarrow> CellColor \<times> rng" where
  "newbornColor s colors ages rg =
     (case Math_random rg of
        (u, rg1) \<Rightarrow>
          let useRandomColor = (u < random_color_chance s) in
          if \<not> useRandomColor then (averageColorsWeighted colors ages, rg1)
          else if random_color_pure s then generateRandomColor rg1
          else generateTweakedColor (averageColorsWeighted colors ages) rg1)"

definition nextGenerationColored ::
  "GameSettings \<Rightarrow> ColoredGridState \<Rightarrow> rng \<Rightarrow> error + (ColoredGridState \<times> rng)" where
  "nextGenerationColored s currentGrid rg0 =
     (case currentGrid of
        [] \<Rightarrow> Inl TypeError
      | row0 # _ \<Rightarrow>
          let height = length currentGrid; width = length row0 in
          foldE (\<lambda>x. foldE (\<lambda>y (newGrid, rg).
                 case countNeighborsColored s currentGrid x y of
                   Inl e \<Rightarrow> Inl e
                 | Inr (count, colors, ages) \<Rightarrow>
                     (case coloredCellAt currentGrid (Some (int x)) (Some (int y)) of
                        Inl e \<Rightarrow> Inl e
                      | Inr cell \<Rightarrow>
                          let isAlive = alive cell;
                              currentAge = (case age cell of
                                              None \<Rightarrow> 1
                                            | Some a \<Rightarrow> if a = 0 then 1 else a)
                          in
                          if isAlive \<and> (count = 2 \<or> count = 3)
                          then Inr (newGrid[x := (newGrid ! x)[y :=
                                 \<lparr> alive = True,
                                   color = (case color cell of
                                              None \<Rightarrow> None
                                            | Some currentColor \<Rightarrow>
                                                Some (enhanceColorSaturation s currentColor currentAge)),
                                   age = Some (currentAge + 1) \<rparr>]], rg)
                          else if \<not> isAlive \<and> count = 3
                          then (case newbornColor s colors ages rg of
                                  (cellColor, rg1) \<Rightarrow>
                                    Inr (newGrid[x := (newGrid ! x)[y :=
                                      \<lparr> alive = True, color = Some cellColor, age = Some 1 \<rparr>]], rg1))
                          else Inr (newGrid, rg)))
               [0..<width]) [0..<height]
            (replicate height (replicate width \<lparr> alive = False, color = None, age = None \<rparr>), rg0))"

subsection \<open>Fingerprints and the stuck detector\<close>

definition gridToString :: "GridState \<Rightarrow> string" where
  "gridToString gr = concat (map (map (\<lambda>cell. if cell then CHR ''1'' else CHR ''0'')) gr)"

definition coloredGridToString :: "ColoredGridState \<Rightarrow> string" where
  "coloredGridToString gr =
     concat (map (map (\<lambda>cell. if alive cell then CHR ''1'' else CHR ''0'')) gr)"

text \<open>
  \<^verbatim>\<open>isSimulationStuck\<close> takes a grid of either kind and casts it by
  \<^verbatim>\<open>settings.color_mode\<close>. The casts are unchecked: read as a coloured cell, a boolean
  has no property \<^verbatim>\<open>alive\<close> (\<^verbatim>\<open>undefined\<close>, falsy); read as a boolean, a cell object
  is truthy.
\<close>

datatype anyGrid = Plain GridState | Colored ColoredGridState

definition isColored :: "anyGrid \<Rightarrow> bool" where
  "isColored gr = (case gr of Plain _ \<Rightarrow> False | Colored _ \<Rightarrow> True)"

definition asColoredString :: "anyGrid \<Rightarrow> string" where
  "asColoredString gr =
     (case gr of
        Colored cg \<Rightarrow> coloredGridToString cg
      | Plain pg \<Rightarrow> concat (map (map (\<lambda>cell. CHR ''0'')) pg))"

definition asPlainString :: "anyGrid \<Rightarrow> string" where
  "asPlainString gr =
     (case gr of
        Plain pg \<Rightarrow> gridToString pg
      | Colored cg \<Rightarrow> concat (map (map (\<lambda>cell. CHR ''1'')) cg))"

definition someAlive :: "anyGrid \<Rightarrow> bool" where
  "someAlive gr =
     (case gr of
        Colored cg \<Rightarrow> list_ex (list_ex alive) cg
      | Plain pg \<Rightarrow> False)"

definition someTruthy :: "anyGrid \<Rightarrow> bool" where
  "someTruthy gr =
     (case gr of
        Plain pg \<Rightarrow> list_ex (list_ex (\<lambda>cell. cell)) pg
      | Colored cg \<Rightarrow> list_ex (list_ex (\<lambda>cell. True)) cg)"

text \<open>The second component is \<^verbatim>\<open>stateHistoryRef.current\<close> after the call.\<close>

definition isSimulationStuck :: "GameSettings \<Rightarrow> anyGrid \<Rightarrow> string list \<Rightarrow> bool \<times> string list" where
  "isSimulationStuck s gr history =
     (let gridString = (if color_mode s then asColoredString gr else asPlainString gr);
          hasLiveCells = (if color_mode s then someAlive gr else someTruthy gr)
      in if \<not> hasLiveCells then (True, history)
         else if gridString \<in> set history then (True, history)
         else
           let pushed = history @ [gridString]
           in (False, if length pushed > 10 then tl pushed else pushed))"

subsection \<open>Perturbation\<close>

definition flipRandomCells :: "GridState \<Rightarrow> nat \<Rightarrow> rng \<Rightarrow> error + (GridState \<times> rng)" where
  "flipRandomCells gr count rg0 =
     (case gr of
        [] \<Rightarrow> Inl TypeError
      | row0 # _ \<Rightarrow>
          let height = length gr; width = length row0 in
          foldE (\<lambda>i (newGrid, rg).
                 case Math_random rg of (u1, rg1) \<Rightarrow>
                 case Math_random rg1 of (u2, rg2) \<Rightarrow>
                   let x = \<lfloor>u1 * of_nat height\<rfloor>; y = \<lfloor>u2 * of_nat width\<rfloor> in
                   if x < 0 \<or> nat x \<ge> length newGrid then Inl TypeError
                   else if y < 0 \<or> nat y \<ge> length (newGrid ! nat x) then Inl OutsideRow
                   else Inr (newGrid[nat x := (newGrid ! nat x)[nat y := \<not> newGrid ! nat x ! nat y]],
                             rg2))
            [0..<count] (gr, rg0))"

definition flipRandomCellsColored ::
  "ColoredGridState \<Rightarrow> nat \<Rightarrow> rng \<Rightarrow> error + (ColoredGridState \<times> rng)" where
  "flipRandomCellsColored gr count rg0 =
     (case gr of
        [] \<Rightarrow> Inl TypeError
      | row0 # _ \<Rightarrow>
          let height = length gr; width = length row0 in
          foldE (\<lambda>i (newGrid, rg).
                 case Math_random rg of (u1, rg1) \<Rightarrow>
                 case Math_random rg1 of (u2, rg2) \<Rightarrow>
                   let x = \<lfloor>u1 * of_nat height\<rfloor>; y = \<lfloor>u2 * of_nat width\<rfloor> in
                   if x < 0 \<or> nat x \<ge> length newGrid \<or> y < 0 \<or> nat y \<ge> length (newGrid ! nat x)
                   then Inl TypeError
                   else
                     let currentCell = newGrid ! nat x ! nat y in
                     if \<not> alive currentCell
                     then (case generateRandomColor rg2 of
                             (c, rg3) \<Rightarrow>
                               Inr (newGrid[nat x := (newGrid ! nat x)[nat y :=
                                      \<lparr> alive = True, color = Some c, age = Some 1 \<rparr>]], rg3))
                     else Inr (newGrid[nat x := (newGrid ! nat x)[nat y :=
                                 \<lparr> alive = False, color = None, age = None \<rparr>]], rg2))
            [0..<count] (gr, rg0))"

subsection \<open>Rendering\<close>

text \<open>
  \<^verbatim>\<open>renderGrid\<close> clears the canvas and then, cell by cell, sets the fill style
  \<^verbatim>\<open>rgba(r, g, b, alpha)\<close> and draws a rounded rectangle of the cell size at
  \<^verbatim>\<open>(pixelX, pixelY)\<close>, if \<^verbatim>\<open>alpha > 0\<close>. Its result here is the list of these
  drawings, in order.
\<close>

record fillRect =
  pixelX :: rat
  pixelY :: rat
  fillColor :: CellColor
  fillAlpha :: rat

text \<open>
  Opacity and colour of one cell of a coloured grid: the cell's own colour when it is
  alive, else the unweighted average of its live neighbours when neighbour opacity is on.
  \<^verbatim>\<open>renderGrid\<close> has this computation three times (current and target cell while
  fading, current cell otherwise); they differ in the values \<open>initial\<close> that remain when
  neither case applies. \<open>cell\<close> is \<open>None\<close> for \<^verbatim>\<open>undefined\<close>, which only the
  target cell, read with \<^verbatim>\<open>nextCell?.alive\<close>, can be.
\<close>

definition coloredShade ::
  "GameSettings \<Rightarrow> ColoredGridState \<Rightarrow> ColoredCell option \<Rightarrow> nat \<Rightarrow> nat \<Rightarrow> rat \<times> CellColor \<Rightarrow>
     error + (rat \<times> CellColor)" where
  "coloredShade s gr cell x y initial =
     (case (case cell of None \<Rightarrow> None | Some c \<Rightarrow> if alive c then color c else None) of
        Some cellColor \<Rightarrow> Inr (1, cellColor)
      | None \<Rightarrow>
          if neighbor_opacity_enabled s
          then (case countNeighborsColored s gr x y of
                  Inl e \<Rightarrow> Inl e
                | Inr (count, colors, ages) \<Rightarrow>
                    if count > 0
                    then Inr (min (of_nat count * neighbor_opacity_increment s) (8 / 10),
                              averageColors colors)
                    else Inr initial)
          else Inr initial)"

definition plainShade :: "GameSettings \<Rightarrow> GridState \<Rightarrow> bool \<Rightarrow> nat \<Rightarrow> nat \<Rightarrow> error + rat" where
  "plainShade s gr cellAlive x y =
     (if cellAlive then Inr 1
      else if neighbor_opacity_enabled s
      then (case countNeighbors s gr x y of
              Inl e \<Rightarrow> Inl e
            | Inr neighborCount \<Rightarrow>
                if neighborCount > 0
                then Inr (min (of_nat neighborCount * neighbor_opacity_increment s) (8 / 10))
                else Inr 0)
      else Inr 0)"

text \<open>
  \<^verbatim>\<open>nextGrid ? nextGrid[x][y] : undefined\<close>: a missing row throws, a missing
  column reads \<^verbatim>\<open>undefined\<close>.
\<close>

definition nextCellAt :: "'a list list option \<Rightarrow> nat \<Rightarrow> nat \<Rightarrow> error + 'a option" where
  "nextCellAt nextGrid x y =
     (case nextGrid of
        None \<Rightarrow> Inr None
      | Some ng \<Rightarrow>
          if x < length ng
          then Inr (if y < length (ng ! x) then Some (ng ! x ! y) else None)
          else Inl TypeError)"

definition blendChannel :: "int \<Rightarrow> int \<Rightarrow> rat \<Rightarrow> int" where
  "blendChannel currentChannel targetChannel fadeProgress =
     Math_round (of_int currentChannel * (1 - fadeProgress) + of_int targetChannel * fadeProgress)"

text \<open>One turn of the inner loop of \<^verbatim>\<open>renderGrid\<close> in colour mode.\<close>

definition renderCellColored ::
  "GameSettings \<Rightarrow> CellColor \<Rightarrow> bool \<Rightarrow> ColoredGridState \<Rightarrow> ColoredGridState option \<Rightarrow> rat \<Rightarrow>
     nat \<Rightarrow> nat \<Rightarrow> fillRect list \<Rightarrow> error + fillRect list" where
  "renderCellColored s foreground fading currentGrid nextGrid fadeProgress x y drawn =
     (let pX = of_nat y * (cell_size s + cell_padding s);
          pY = of_nat x * (cell_size s + cell_padding s)
      in
      case coloredCellAt currentGrid (Some (int x)) (Some (int y)) of
        Inl e \<Rightarrow> Inl e
      | Inr currentCell \<Rightarrow>
      case nextCellAt nextGrid x y of
        Inl e \<Rightarrow> Inl e
      | Inr nextCell \<Rightarrow>
      case (if fade_amount s > 0 \<and> nextGrid \<noteq> None \<and> length (the nextGrid) > 0 \<and> fading
            then
              (case coloredShade s currentGrid (Some currentCell) x y (0, \<lparr> r = 0, g = 0, b = 0 \<rparr>) of
                 Inl e \<Rightarrow> Inl e
               | Inr (currentOpacity, currentColor) \<Rightarrow>
               case coloredShade s (the nextGrid) nextCell x y (0, \<lparr> r = 0, g = 0, b = 0 \<rparr>) of
                 Inl e \<Rightarrow> Inl e
               | Inr (targetOpacity, targetColor) \<Rightarrow>
                   Inr (currentOpacity * (1 - fadeProgress) + targetOpacity * fadeProgress,
                        \<lparr> r = blendChannel (r currentColor) (r targetColor) fadeProgress,
                          g = blendChannel (g currentColor) (g targetColor) fadeProgress,
                          b = blendChannel (b currentColor) (b targetColor) fadeProgress \<rparr>))
            else coloredShade s currentGrid (Some currentCell) x y (0, foreground))
      of
        Inl e \<Rightarrow> Inl e
      | Inr (alpha, rgb) \<Rightarrow>
          if alpha > 0
          then Inr (drawn @ [\<lparr> pixelX = pX, pixelY = pY, fillColor = rgb, fillAlpha = alpha \<rparr>])
          else Inr drawn)"

text \<open>The same in standard mode: the colour is always the foreground colour.\<close>

definition renderCellPlain ::
  "GameSettings \<Rightarrow> CellColor \<Rightarrow> bool \<Rightarrow> GridState \<Rightarrow> GridState option \<Rightarrow> rat \<Rightarrow>
     nat \<Rightarrow> nat \<Rightarrow> fillRect list \<Rightarrow> error + fillRect list" where
  "renderCellPlain s foreground fading currentGrid nextGrid fadeProgress x y drawn =
     (let pX = of_nat y * (cell_size s + cell_padding s);
          pY = of_nat x * (cell_size s + cell_padding s);
          currentAlive = cellAt currentGrid (Some (int x)) (Some (int y))
      in
      case nextCellAt nextGrid x y of
        Inl e \<Rightarrow> Inl e
      | Inr nextAlive \<Rightarrow>
      case (if fade_amount s > 0 \<and> nextGrid \<noteq> None \<and> length (the nextGrid) > 0 \<and> fading
            then
              (case plainShade s currentGrid currentAlive x y of
                 Inl e \<Rightarrow> Inl e
               | Inr currentOpacity \<Rightarrow>
               case plainShade s (the nextGrid) (nextAlive = Some True) x y of
                 Inl e \<Rightarrow> Inl e
               | Inr targetOpacity \<Rightarrow>
                   Inr (currentOpacity * (1 - fadeProgress) + targetOpacity * fadeProgress))
            else plainShade s currentGrid currentAlive x y)
      of
        Inl e \<Rightarrow> Inl e
      | Inr alpha \<Rightarrow>
          if alpha > 0
          then Inr (drawn @ [\<lparr> pixelX = pX, pixelY = pY, fillColor = foreground, fillAlpha = alpha \<rparr>])
          else Inr drawn)"

text \<open>
  \<^verbatim>\<open>renderGrid\<close> tests \<^verbatim>\<open>settings.color_mode\<close> for every cell and casts both grids
  accordingly; its callers pass coloured grids exactly when the mode is on. The embedding
  has one function for each branch. \<open>fading\<close> is the state \<^verbatim>\<open>isFading\<close>, \<open>foreground\<close>
  the parsed \<^verbatim>\<open>foreground_color\<close>; a call without \<^verbatim>\<open>nextGrid\<close> passes \<open>None\<close>
  and the default progress 1.
\<close>

definition renderGridColored ::
  "GameSettings \<Rightarrow> CellColor \<Rightarrow> bool \<Rightarrow> ColoredGridState \<Rightarrow> ColoredGridState option \<Rightarrow> rat \<Rightarrow>
     error + fillRect list" where
  "renderGridColored s foreground fading currentGrid nextGrid fadeProgress =
     (case currentGrid of
        [] \<Rightarrow> Inl TypeError
      | row0 # _ \<Rightarrow>
          let gridHeight = length currentGrid; gridWidth = length row0 in
          foldE (\<lambda>x. foldE (renderCellColored s foreground fading currentGrid nextGrid fadeProgress x)
                        [0..<gridWidth])
            [0..<gridHeight] [])"

definition renderGridPlain ::
  "GameSettings \<Rightarrow> CellColor \<Rightarrow> bool \<Rightarrow> GridState \<Rightarrow> GridState option \<Rightarrow> rat \<Rightarrow>
     error + fillRect list" where
  "renderGridPlain s foreground fading currentGrid nextGrid fadeProgress =
     (case currentGrid of
        [] \<Rightarrow> Inl TypeError
      | row0 # _ \<Rightarrow>
          let gridHeight = length currentGrid; gridWidth = length row0 in
          foldE (\<lambda>x. foldE (renderCellPlain s foreground fading currentGrid nextGrid fadeProgress x)
                        [0..<gridWidth])
            [0..<gridHeight] [])"

subsection \<open>The tick handler\<close>

text \<open>
  What the tick reads from its host: the pause flag of Wallpaper Engine, the viewport,
  whether the canvas and its 2D context exist, and the parsed foreground colour.
\<close>

record host =
  wallpaperPaused :: bool
  innerWidth :: rat
  innerHeight :: rat
  canvasPresent :: bool
  contextPresent :: bool
  foregroundColor :: CellColor

text \<open>
  The React state (\<open>grid\<close> to \<open>isFading\<close>) and the refs of the component, with the
  random source. Within one tick the source reads the React state of the last render, so
  the tick below reads these five fields from the state it was given; the refs change as
  it goes.
\<close>

record simulation =
  grid :: GridState
  coloredGrid :: ColoredGridState
  targetGrid :: GridState
  targetColoredGrid :: ColoredGridState
  isFading :: bool
  lastUpdateRef :: rat
  stateHistoryRef :: "string list"
  stuckCounterRef :: nat
  fadeStartTimeRef :: rat
  fibonacciIndexRef :: nat
  randomSource :: rng

text \<open>
  \<^verbatim>\<open>Math.max(1, Math.floor(a / d))\<close> as an array length: with \<open>d = 0\<close> the quotient is
  \<^verbatim>\<open>-Infinity\<close> for negative \<open>a\<close> (the maximum is 1) and \<^verbatim>\<open>Infinity\<close> or
  \<^verbatim>\<open>NaN\<close> otherwise.
\<close>

definition gridExtent :: "rat \<Rightarrow> rat \<Rightarrow> nat option" where
  "gridExtent a d =
     (if d = 0 then (if a < 0 then Some 1 else None)
      else Some (nat (max 1 \<lfloor>a / d\<rfloor>)))"

text \<open>The pair is \<^verbatim>\<open>{ width, height }\<close>.\<close>

definition calculateGridDimensions :: "GameSettings \<Rightarrow> host \<Rightarrow> nat option \<times> nat option" where
  "calculateGridDimensions s hst =
     (let availableHeight = innerHeight hst - bottom_margin s;
          width = gridExtent (innerWidth hst) (cell_size s + cell_padding s);
          height = gridExtent availableHeight (cell_size s + cell_padding s)
      in (width, height))"

text \<open>
  The reset that the recovery logic performs in four places of each mode, ending with
  \<^verbatim>\<open>return\<close>.
\<close>

definition resetPlain :: "GameSettings \<Rightarrow> host \<Rightarrow> simulation \<Rightarrow> rat \<Rightarrow> error + simulation" where
  "resetPlain s hst st timestamp =
     (let newDims = calculateGridDimensions s hst in
      case createRandomGrid s (fst newDims) (snd newDims) (randomSource st) of
        Inl e \<Rightarrow> Inl e
      | Inr (newGrid, rg) \<Rightarrow>
          Inr (st\<lparr> stuckCounterRef := 0, stateHistoryRef := [], fibonacciIndexRef := 0,
                   randomSource := rg, grid := newGrid, targetGrid := [], isFading := False,
                   lastUpdateRef := timestamp \<rparr>))"

definition resetColored :: "GameSettings \<Rightarrow> host \<Rightarrow> simulation \<Rightarrow> rat \<Rightarrow> error + simulation" where
  "resetColored s hst st timestamp =
     (let newDims = calculateGridDimensions s hst in
      case createRandomColoredGrid s (fst newDims) (snd newDims) (randomSource st) of
        Inl e \<Rightarrow> Inl e
      | Inr (newGrid, rg) \<Rightarrow>
          Inr (st\<lparr> stuckCounterRef := 0, stateHistoryRef := [], fibonacciIndexRef := 0,
                   randomSource := rg, coloredGrid := newGrid, targetColoredGrid := [],
                   isFading := False, lastUpdateRef := timestamp \<rparr>))"

text \<open>
  How a block of the tick ends: with \<^verbatim>\<open>return\<close>, or by running on to the code
  after it.
\<close>

datatype flow = Return simulation | Continue simulation

definition returning :: "error + simulation \<Rightarrow> error + flow" where
  "returning res = (case res of Inl e \<Rightarrow> Inl e | Inr st \<Rightarrow> Inr (Return st))"

text \<open>The standard-mode branch of the generation step, lines 720 to 791.\<close>

definition advancePlain :: "GameSettings \<Rightarrow> host \<Rightarrow> simulation \<Rightarrow> rat \<Rightarrow> error + flow" where
  "advancePlain s hst st timestamp =
     (case nextGeneration s (grid st) of
        Inl e \<Rightarrow> Inl e
      | Inr nextGrid \<Rightarrow>
      case isSimulationStuck s (Plain nextGrid) (stateHistoryRef st) of
        (stuck, history) \<Rightarrow>
          let st1 = st\<lparr> stateHistoryRef := history \<rparr> in
          if stuck then
            let isEmpty = \<not> list_ex (list_ex (\<lambda>cell. cell)) nextGrid in
            if hard_reset_on_stuck s then returning (resetPlain s hst st1 timestamp)
            else if isEmpty then returning (resetPlain s hst st1 timestamp)
            else if \<not> try_revive_stuck_sim s then Inr (Continue (st1\<lparr> targetGrid := nextGrid \<rparr>))
            else
              let st2 = st1\<lparr> stuckCounterRef := stuckCounterRef st1 + 1 \<rparr> in
              if of_nat (stuckCounterRef st2) > max_revival_attempts s
              then returning (resetPlain s hst st2 timestamp)
              else
                let cellsToFlip = fibonacci (fibonacciIndexRef st2);
                    totalCells = length (grid st) * length (hd (grid st))
                in
                if (of_nat cellsToFlip :: rat) > of_nat totalCells / 3
                then returning (resetPlain s hst st2 timestamp)
                else
                  (case flipRandomCells nextGrid cellsToFlip (randomSource st2) of
                     Inl e \<Rightarrow> Inl e
                   | Inr (flippedGrid, rg) \<Rightarrow>
                       Inr (Continue (st2\<lparr> randomSource := rg,
                                           fibonacciIndexRef := fibonacciIndexRef st2 + 1,
                                           targetGrid := flippedGrid \<rparr>)))
          else Inr (Continue (st1\<lparr> stuckCounterRef := 0, fibonacciIndexRef := 0,
                                   targetGrid := nextGrid \<rparr>)))"

text \<open>The colour-mode branch, lines 647 to 718.\<close>

definition advanceColored :: "GameSettings \<Rightarrow> host \<Rightarrow> simulation \<Rightarrow> rat \<Rightarrow> error + flow" where
  "advanceColored s hst st timestamp =
     (case nextGenerationColored s (coloredGrid st) (randomSource st) of
        Inl e \<Rightarrow> Inl e
      | Inr (nextGrid, rg0) \<Rightarrow>
      case isSimulationStuck s (Colored nextGrid) (stateHistoryRef st) of
        (stuck, history) \<Rightarrow>
          let st1 = st\<lparr> stateHistoryRef := history, randomSource := rg0 \<rparr> in
          if stuck then
            let isEmpty = \<not> list_ex (list_ex alive) nextGrid in
            if hard_reset_on_stuck s then returning (resetColored s hst st1 timestamp)
            else if isEmpty then returning (resetColored s hst st1 timestamp)
            else if \<not> try_revive_stuck_sim s
            then Inr (Continue (st1\<lparr> targetColoredGrid := nextGrid \<rparr>))
            else
              let st2 = st1\<lparr> stuckCounterRef := stuckCounterRef st1 + 1 \<rparr> in
              if of_nat (stuckCounterRef st2) > max_revival_attempts s
              then returning (resetColored s hst st2 timestamp)
              else
                let cellsToFlip = fibonacci (fibonacciIndexRef st2);
                    totalCells = length (coloredGrid st) * length (hd (coloredGrid st))
                in
                if (of_nat cellsToFlip :: rat) > of_nat totalCells / 3
                then returning (resetColored s hst st2 timestamp)
                else
                  (case flipRandomCellsColored nextGrid cellsToFlip (randomSource st2) of
                     Inl e \<Rightarrow> Inl e
                   | Inr (flippedGrid, rg) \<Rightarrow>
                       Inr (Continue (st2\<lparr> randomSource := rg,
                                           fibonacciIndexRef := fibonacciIndexRef st2 + 1,
                                           targetColoredGrid := flippedGrid \<rparr>)))
          else Inr (Continue (st1\<lparr> stuckCounterRef := 0, fibonacciIndexRef := 0,
                                   targetColoredGrid := nextGrid \<rparr>)))"

text \<open>
  The block \<^verbatim>\<open>if (!isFading && timestamp - lastUpdateRef.current >= totalCycleTime)\<close>,
  lines 645 to 808. Without a fade the new grid is committed at once, from the target
  grid of the last render (\<open>st\<close>), not from the one just set.
\<close>

definition advance :: "GameSettings \<Rightarrow> host \<Rightarrow> simulation \<Rightarrow> rat \<Rightarrow> error + flow" where
  "advance s hst st timestamp =
     (let fadeTime = simulation_speed s * fade_amount s in
      case (if color_mode s then advanceColored s hst st timestamp
            else advancePlain s hst st timestamp) of
        Inl e \<Rightarrow> Inl e
      | Inr (Return st') \<Rightarrow> Inr (Return st')
      | Inr (Continue st1) \<Rightarrow>
          if fade_amount s > 0 \<and> fadeTime > 0
          then Inr (Continue (st1\<lparr> isFading := True, fadeStartTimeRef := timestamp,
                                    lastUpdateRef := timestamp \<rparr>))
          else if color_mode s
          then
            (if length (targetColoredGrid st) > 0
             then Inr (Continue (st1\<lparr> coloredGrid := targetColoredGrid st,
                                       targetColoredGrid := [], lastUpdateRef := timestamp \<rparr>))
             else
               (case nextGenerationColored s (coloredGrid st) (randomSource st1) of
                  Inl e \<Rightarrow> Inl e
                | Inr (committed, rg) \<Rightarrow>
                    Inr (Continue (st1\<lparr> randomSource := rg, coloredGrid := committed,
                                        targetColoredGrid := [], lastUpdateRef := timestamp \<rparr>))))
          else
            (if length (targetGrid st) > 0
             then Inr (Continue (st1\<lparr> grid := targetGrid st, targetGrid := [],
                                       lastUpdateRef := timestamp \<rparr>))
             else
               (case nextGeneration s (grid st) of
                  Inl e \<Rightarrow> Inl e
                | Inr committed \<Rightarrow>
                    Inr (Continue (st1\<lparr> grid := committed, targetGrid := [],
                                        lastUpdateRef := timestamp \<rparr>)))))"

text \<open>
  \<^verbatim>\<open>Math.min(fadeElapsed / fadeTime, 1)\<close>. With \<open>fadeTime = 0\<close> the quotient is
  \<^verbatim>\<open>Infinity\<close> for a positive \<open>fadeElapsed\<close> (the minimum is 1), and \<^verbatim>\<open>NaN\<close> or
  \<^verbatim>\<open>-Infinity\<close> otherwise (\<open>None\<close>).
\<close>

definition fadeProgressOf :: "rat \<Rightarrow> rat \<Rightarrow> rat option" where
  "fadeProgressOf fadeElapsed fadeTime =
     (if fadeTime = 0 then (if fadeElapsed > 0 then Some 1 else None)
      else Some (min (fadeElapsed / fadeTime) 1))"

text \<open>
  The rest of the tick, lines 810 to 836: draw, and commit the target when the fade is
  over. \<open>st\<close> is the state of the last render, \<open>st1\<close> the state as updated so far.
\<close>

definition present ::
  "GameSettings \<Rightarrow> host \<Rightarrow> simulation \<Rightarrow> simulation \<Rightarrow> rat \<Rightarrow> error + (simulation \<times> fillRect list option)" where
  "present s hst st st1 timestamp =
     (let fadeTime = simulation_speed s * fade_amount s in
      if isFading st then
        (case fadeProgressOf (timestamp - fadeStartTimeRef st1) fadeTime of
           None \<Rightarrow> Inl NotFinite
         | Some fadeProgress \<Rightarrow>
             (case (if color_mode s
                    then renderGridColored s (foregroundColor hst) (isFading st) (coloredGrid st)
                           (Some (targetColoredGrid st)) fadeProgress
                    else renderGridPlain s (foregroundColor hst) (isFading st) (grid st)
                           (Some (targetGrid st)) fadeProgress) of
                Inl e \<Rightarrow> Inl e
              | Inr drawn \<Rightarrow>
                  if fadeProgress \<ge> 1
                  then
                    (if color_mode s
                     then Inr (st1\<lparr> coloredGrid := targetColoredGrid st, targetColoredGrid := [],
                                     isFading := False \<rparr>, Some drawn)
                     else Inr (st1\<lparr> grid := targetGrid st, targetGrid := [],
                                     isFading := False \<rparr>, Some drawn))
                  else Inr (st1, Some drawn)))
      else
        (case (if color_mode s
               then renderGridColored s (foregroundColor hst) (isFading st) (coloredGrid st) None 1
               else renderGridPlain s (foregroundColor hst) (isFading st) (grid st) None 1) of
           Inl e \<Rightarrow> Inl e
         | Inr drawn \<Rightarrow> Inr (st1, Some drawn)))"

text \<open>
  One call of \<^verbatim>\<open>gameLoop(timestamp)\<close>: the state after it and what it drew, if it
  drew. Every path of the source but the resets also asks for the next animation frame,
  which is not part of the state.
\<close>

definition gameLoop ::
  "GameSettings \<Rightarrow> host \<Rightarrow> simulation \<Rightarrow> rat \<Rightarrow> error + (simulation \<times> fillRect list option)" where
  "gameLoop s hst st timestamp =
     (if wallpaperPaused hst then Inr (st, None)
      else if \<not> canvasPresent hst \<or>
              (if color_mode s then length (coloredGrid st) = 0 else length (grid st) = 0)
      then Inr (st, None)
      else if \<not> contextPresent hst then Inr (st, None)
      else
        let fadeTime = simulation_speed s * fade_amount s;
            stableTime = stable_display_time s;
            totalCycleTime = fadeTime + stableTime
        in
        case (if \<not> isFading st \<and> timestamp - lastUpdateRef st \<ge> totalCycleTime
              then advance s hst st timestamp
              else Inr (Continue st)) of
          Inl e \<Rightarrow> Inl e
        | Inr (Return st') \<Rightarrow> Inr (st', None)
        | Inr (Continue st1) \<Rightarrow> present s hst st st1 timestamp)"

subsection \<open>Vocabulary of the properties\<close>

text \<open>A grid of \<open>height\<close> rows that all have \<open>width\<close> cells.\<close>

definition rect :: "'a list list \<Rightarrow> nat \<Rightarrow> nat \<Rightarrow> bool" where
  "rect gr height width = (length gr = height \<and> (\<forall>row \<in> set gr. length row = width))"

text \<open>
  The number of live cells among the eight neighbours of \<open>(x, y)\<close>, as the
  specification words it: coordinates modulo height and width under wrapping, neighbours
  outside the grid not counted otherwise. \<open>live\<close> says which cells are alive.
\<close>

definition neighborhood :: "(int \<times> int) list" where
  "neighborhood = [(-1, -1), (-1, 0), (-1, 1), (0, -1), (0, 1), (1, -1), (1, 0), (1, 1)]"

definition liveNeighbors ::
  "bool \<Rightarrow> nat \<Rightarrow> nat \<Rightarrow> (nat \<Rightarrow> nat \<Rightarrow> bool) \<Rightarrow> nat \<Rightarrow> nat \<Rightarrow> nat" where
  "liveNeighbors wrap height width live x y =
     sum_list (map (\<lambda>(i, j).
        if wrap
        then of_bool (live (nat ((int x + i) mod int height)) (nat ((int y + j) mod int width)))
        else of_bool (0 \<le> int x + i \<and> int x + i < int height \<and>
                      0 \<le> int y + j \<and> int y + j < int width \<and>
                      live (nat (int x + i)) (nat (int y + j))))
       neighborhood)"

text \<open>The birth and survival rule.\<close>

definition lifeRule :: "bool \<Rightarrow> nat \<Rightarrow> bool" where
  "lifeRule isAlive n = ((isAlive \<and> (n = 2 \<or> n = 3)) \<or> (\<not> isAlive \<and> n = 3))"

text \<open>The cell invariant: colour and age are present exactly when the cell is alive.\<close>

definition cellInvariant :: "ColoredCell \<Rightarrow> bool" where
  "cellInvariant c = ((color c \<noteq> None) = alive c \<and> (age c \<noteq> None) = alive c)"

definition gridInvariant :: "ColoredGridState \<Rightarrow> bool" where
  "gridInvariant gr = (\<forall>row \<in> set gr. \<forall>c \<in> set row. cellInvariant c)"

text \<open>Every live cell carries a colour.\<close>

definition liveCellsColored :: "ColoredGridState \<Rightarrow> bool" where
  "liveCellsColored gr = (\<forall>row \<in> set gr. \<forall>c \<in> set row. alive c \<longrightarrow> color c \<noteq> None)"

text \<open>The live cells of a grid of booleans and of a coloured grid, by position.\<close>

definition liveAt :: "GridState \<Rightarrow> nat \<Rightarrow> nat \<Rightarrow> bool" where
  "liveAt gr x y = gr ! x ! y"

definition aliveAt :: "ColoredGridState \<Rightarrow> nat \<Rightarrow> nat \<Rightarrow> bool" where
  "aliveAt gr x y = alive (gr ! x ! y)"

text \<open>The cells that \<^verbatim>\<open>countNeighborsColored\<close> counts: alive and with a colour.\<close>

definition coloredAliveAt :: "ColoredGridState \<Rightarrow> nat \<Rightarrow> nat \<Rightarrow> bool" where
  "coloredAliveAt gr x y = (alive (gr ! x ! y) \<and> color (gr ! x ! y) \<noteq> None)"

text \<open>
  The fingerprint of a grid, row by row, and whether it has a live cell. A grid is of the
  mode of the settings when it is coloured exactly if \<^verbatim>\<open>color_mode\<close> is on.
\<close>

definition fingerprint :: "anyGrid \<Rightarrow> string" where
  "fingerprint gr =
     (case gr of Plain pg \<Rightarrow> gridToString pg | Colored cg \<Rightarrow> coloredGridToString cg)"

definition hasLive :: "anyGrid \<Rightarrow> bool" where
  "hasLive gr =
     (case gr of
        Plain pg \<Rightarrow> (\<exists>row \<in> set pg. \<exists>cell \<in> set row. cell)
      | Colored cg \<Rightarrow> (\<exists>row \<in> set cg. \<exists>cell \<in> set row. alive cell))"

definition ofMode :: "GameSettings \<Rightarrow> anyGrid \<Rightarrow> bool" where
  "ofMode s gr = (isColored gr = color_mode s)"

text \<open>
  A run of the detector: \<^verbatim>\<open>isSimulationStuck\<close> called on the grids of a list in order,
  from the empty history. The result is the history after the run and the record of the
  run: the fingerprints that the calls pushed, oldest first, also those that have left the
  history since.
\<close>

definition recordCall ::
  "GameSettings \<Rightarrow> anyGrid \<Rightarrow> string list \<times> string list \<Rightarrow> string list \<times> string list" where
  "recordCall s gr run =
     (case isSimulationStuck s gr (fst run) of
        (stuck, history) \<Rightarrow> (history, if stuck then snd run else snd run @ [fingerprint gr]))"

definition detectorRun :: "GameSettings \<Rightarrow> anyGrid list \<Rightarrow> string list \<times> string list" where
  "detectorRun s grids = fold (recordCall s) grids ([], [])"

text \<open>The last \<open>n\<close> entries of a list.\<close>

definition lastN :: "nat \<Rightarrow> 'a list \<Rightarrow> 'a list" where
  "lastN n xs = drop (length xs - n) xs"

text \<open>
  A tick that computes a generation: it is not paused, canvas and context exist, the grid
  of the mode is not empty, no fade is running and the cycle time has passed.
\<close>

definition advancing :: "GameSettings \<Rightarrow> host \<Rightarrow> simulation \<Rightarrow> rat \<Rightarrow> bool" where
  "advancing s hst st timestamp =
     (\<not> wallpaperPaused hst \<and> canvasPresent hst \<and> contextPresent hst \<and>
      (if color_mode s then coloredGrid st \<noteq> [] else grid st \<noteq> []) \<and>
      \<not> isFading st \<and>
      timestamp - lastUpdateRef st \<ge> simulation_speed s * fade_amount s + stable_display_time s)"

text \<open>The viewport gives a grid of \<open>h\<close> rows and \<open>w\<close> columns, both array lengths.\<close>

definition viewportGrid :: "GameSettings \<Rightarrow> host \<Rightarrow> nat \<Rightarrow> nat \<Rightarrow> bool" where
  "viewportGrid s hst h w =
     (calculateGridDimensions s hst = (Some w, Some h) \<and> w < 2 ^ 32 \<and> h < 2 ^ 32)"

text \<open>
  The recovery that the specification prescribes for a proposed grid, in its order: an
  empty grid is reset; a grid that is not stuck is accepted; with
  \<^verbatim>\<open>hard_reset_on_stuck\<close> a stuck grid is reset; without \<^verbatim>\<open>try_revive_stuck_sim\<close> it
  is accepted; else the counter is incremented, and beyond \<^verbatim>\<open>max_revival_attempts\<close>, or
  when the Fibonacci number exceeds a third of the cells, the grid is reset, and
  otherwise that many cells are flipped.
\<close>

datatype recovery = Accept | Reset | Perturb nat

definition recoveryOf :: "GameSettings \<Rightarrow> bool \<Rightarrow> bool \<Rightarrow> nat \<Rightarrow> nat \<Rightarrow> nat \<Rightarrow> recovery" where
  "recoveryOf s isEmpty stuck stuckCounter fibonacciIndex totalCells =
     (if isEmpty then Reset
      else if \<not> stuck then Accept
      else if hard_reset_on_stuck s then Reset
      else if \<not> try_revive_stuck_sim s then Accept
      else if of_nat (stuckCounter + 1) > max_revival_attempts s then Reset
      else if (of_nat (fibonacci fibonacciIndex) :: rat) > of_nat totalCells / 3 then Reset
      else Perturb (fibonacci fibonacciIndex))"

text \<open>
  The recovery prescribed for the grid that a tick proposes, in standard and in colour
  mode: from the flags and counters of the state before the tick.
\<close>

definition plainRecovery :: "GameSettings \<Rightarrow> simulation \<Rightarrow> GridState \<Rightarrow> recovery" where
  "plainRecovery s st nextGrid =
     recoveryOf s (\<not> hasLive (Plain nextGrid))
       (fst (isSimulationStuck s (Plain nextGrid) (stateHistoryRef st)))
       (stuckCounterRef st) (fibonacciIndexRef st)
       (length (grid st) * length (hd (grid st)))"

definition coloredRecovery :: "GameSettings \<Rightarrow> simulation \<Rightarrow> ColoredGridState \<Rightarrow> recovery" where
  "coloredRecovery s st nextGrid =
     recoveryOf s (\<not> hasLive (Colored nextGrid))
       (fst (isSimulationStuck s (Colored nextGrid) (stateHistoryRef st)))
       (stuckCounterRef st) (fibonacciIndexRef st)
       (length (coloredGrid st) * length (hd (coloredGrid st)))"

text \<open>A fade follows the generation step.\<close>

definition fadeFollows :: "GameSettings \<Rightarrow> bool" where
  "fadeFollows s = (fade_amount s > 0 \<and> simulation_speed s * fade_amount s > 0)"

subsection \<open>Auxiliary notions of the proofs\<close>

text \<open>What one turn \<open>(i, j)\<close> of the neighbour loops adds to the count.\<close>

definition contribution ::
  "bool \<Rightarrow> nat \<Rightarrow> nat \<Rightarrow> (nat \<Rightarrow> nat \<Rightarrow> bool) \<Rightarrow> nat \<Rightarrow> nat \<Rightarrow> int \<Rightarrow> int \<Rightarrow> nat" where
  "contribution wrap height width live x y i j =
     (if i = 0 \<and> j = 0 then 0
      else if wrap
        then of_bool (live (nat ((int x + i) mod int height)) (nat ((int y + j) mod int width)))
        else of_bool (0 \<le> int x + i \<and> int x + i < int height \<and>
                      0 \<le> int y + j \<and> int y + j < int width \<and>
                      live (nat (int x + i)) (nat (int y + j))))"

text \<open>
  The invariant of a pair of loops that fills a grid: the cells in \<open>D\<close> have been
  visited and satisfy \<open>Q\<close>, the others are as in \<open>g0\<close>.
\<close>

definition filled ::
  "nat \<Rightarrow> nat \<Rightarrow> (nat \<Rightarrow> nat \<Rightarrow> 'c \<Rightarrow> bool) \<Rightarrow> 'c list list \<Rightarrow> (nat \<times> nat) set \<Rightarrow> 'c list list \<Rightarrow> bool" where
  "filled h w Q g0 D gr =
     (rect gr h w \<and> (\<forall>x<h. \<forall>y<w. if (x, y) \<in> D then Q x y (gr ! x ! y) else gr ! x ! y = g0 ! x ! y))"

text \<open>
  What \<^verbatim>\<open>nextGenerationColored\<close> makes of the cell \<open>(x, y)\<close> of \<open>gr\<close>. It counts the
  neighbours that are alive and carry a colour.
\<close>

definition stepped ::
  "GameSettings \<Rightarrow> nat \<Rightarrow> nat \<Rightarrow> ColoredGridState \<Rightarrow> nat \<Rightarrow> nat \<Rightarrow> ColoredCell \<Rightarrow> bool" where
  "stepped s h w gr x y c =
     (alive c = lifeRule (alive (gr ! x ! y))
                  (liveNeighbors (edge_wrapping s) h w
                     (\<lambda>a b. alive (gr ! a ! b) \<and> color (gr ! a ! b) \<noteq> None) x y) \<and>
      (age c \<noteq> None) = alive c \<and>
      (color c \<noteq> None) = (alive c \<and> (alive (gr ! x ! y) \<longrightarrow> color (gr ! x ! y) \<noteq> None)))"

text \<open>The weight of an age in \<^verbatim>\<open>averageColorsWeighted\<close>.\<close>

definition weightOf :: "nat \<Rightarrow> nat" where
  "weightOf a = (if a = 0 then 1 else a)"

subsection \<open>Inputs of the examples\<close>

text \<open>Standard mode with the default settings.\<close>

definition standardSettings :: GameSettings where
  "standardSettings = DEFAULT_SETTINGS\<lparr> color_mode := False \<rparr>"

text \<open>Eleven different grids of one row, each with a live cell.\<close>

definition elevenGrids :: "anyGrid list" where
  "elevenGrids =
     map (\<lambda>row. Plain [row])
       [[True, False, False, False], [False, True, False, False], [True, True, False, False],
        [False, False, True, False], [True, False, True, False], [False, True, True, False],
        [True, True, True, False], [False, False, False, True], [True, False, False, True],
        [False, True, False, True], [True, True, False, True]]"

text \<open>A viewport of one cell, and of two by two cells, with canvas and context.\<close>

definition oneCellHost :: host where
  "oneCellHost = \<lparr> wallpaperPaused = False, innerWidth = 29, innerHeight = 29,
                   canvasPresent = True, contextPresent = True,
                   foregroundColor = DEFAULT_FOREGROUND \<rparr>"

definition fourCellHost :: host where
  "fourCellHost = oneCellHost\<lparr> innerWidth := 58, innerHeight := 58 \<rparr>"

text \<open>A random source whose every draw is one half.\<close>

definition halves :: rng where
  "halves = (\<lambda>k. 1 / 2, 0)"

text \<open>A single live cell in standard mode, at rest.\<close>

definition oneCellSimulation :: simulation where
  "oneCellSimulation =
     \<lparr> grid = [[True]], coloredGrid = [], targetGrid = [], targetColoredGrid = [],
       isFading = False, lastUpdateRef = 0, stateHistoryRef = [], stuckCounterRef = 0,
       fadeStartTimeRef = 0, fibonacciIndexRef = 0, randomSource = halves \<rparr>"

text \<open>
  Without wrapping, a block of two by two cells is a still life. Here it is in standard
  mode, already in the history.
\<close>

definition clippedSettings :: GameSettings where
  "clippedSettings = standardSettings\<lparr> edge_wrapping := False \<rparr>"

definition blockSimulation :: simulation where
  "blockSimulation =
     \<lparr> grid = [[True, True], [True, True]], coloredGrid = [], targetGrid = [],
       targetColoredGrid = [], isFading = False, lastUpdateRef = 0,
       stateHistoryRef = [''1111''], stuckCounterRef = 0, fadeStartTimeRef = 0,
       fibonacciIndexRef = 0, randomSource = halves \<rparr>"

text \<open>The same two simulations in colour mode.\<close>

definition greenCell :: ColoredCell where
  "greenCell = \<lparr> alive = True, color = Some DEFAULT_FOREGROUND, age = Some 1 \<rparr>"

definition oneCellColoredSimulation :: simulation where
  "oneCellColoredSimulation =
     \<lparr> grid = [], coloredGrid = [[greenCell]], targetGrid = [], targetColoredGrid = [],
       isFading = False, lastUpdateRef = 0, stateHistoryRef = [], stuckCounterRef = 0,
       fadeStartTimeRef = 0, fibonacciIndexRef = 0, randomSource = halves \<rparr>"

definition clippedColorSettings :: GameSettings where
  "clippedColorSettings = DEFAULT_SETTINGS\<lparr> edge_wrapping := False \<rparr>"

definition coloredBlockSimulation :: simulation where
  "coloredBlockSimulation =
     \<lparr> grid = [], coloredGrid = [[greenCell, greenCell], [greenCell, greenCell]],
       targetGrid = [], targetColoredGrid = [], isFading = False, lastUpdateRef = 0,
       stateHistoryRef = [''1111''], stuckCounterRef = 0, fadeStartTimeRef = 0,
       fibonacciIndexRef = 0, randomSource = halves \<rparr>"

section \<open>Properties\<close>

subsection \<open>Loops\<close>

lemma foldE_invariant:
  assumes "Inv pre st"
    and "\<And>p x st. Inv p st \<Longrightarrow> x \<in> set xs \<Longrightarrow> \<exists>st'. f x st = Inr st' \<and> Inv (p @ [x]) st'"
  shows "\<exists>st'. foldE f xs st = Inr st' \<and> Inv (pre @ xs) st'"
  using assms
proof (induction xs arbitrary: pre st)
  case Nil
  then show ?case by simp
next
  case (Cons x xs)
  from Cons.prems obtain st1 where s1: "f x st = Inr st1" "Inv (pre @ [x]) st1"
    by (meson list.set_intros(1))
  have "\<exists>st'. foldE f xs st1 = Inr st' \<and> Inv ((pre @ [x]) @ xs) st'"
    by (rule Cons.IH [OF s1(2)]) (use Cons.prems(2) in auto)
  with s1(1) show ?case by simp
qed

lemma js_rem_nonneg: "0 \<le> a \<Longrightarrow> 0 < n \<Longrightarrow> js_rem a n = Some (a mod int n)"
  by (cases "a = 0") (simp_all add: js_rem_def)

lemma cellAt_rect:
  "rect gr h w \<Longrightarrow> 0 \<le> i \<Longrightarrow> i < int h \<Longrightarrow> 0 \<le> j \<Longrightarrow> j < int w \<Longrightarrow>
     cellAt gr (Some i) (Some j) = gr ! nat i ! nat j"
  by (auto simp: cellAt_def rect_def)

lemma coloredCellAt_rect:
  "rect gr h w \<Longrightarrow> 0 \<le> i \<Longrightarrow> i < int h \<Longrightarrow> 0 \<le> j \<Longrightarrow> j < int w \<Longrightarrow>
     coloredCellAt gr (Some i) (Some j) = Inr (gr ! nat i ! nat j)"
  by (auto simp: coloredCellAt_def rect_def)

lemma liveNeighbors_contribution:
  "liveNeighbors wrap h w live x y =
     (\<Sum>i\<leftarrow>[-1, 0, 1]. \<Sum>j\<leftarrow>[-1, 0, 1]. contribution wrap h w live x y i j)"
  by (simp add: liveNeighbors_def neighborhood_def contribution_def)

lemma neighborCoords_cases:
  assumes "0 < h" "0 < w" "- 1 \<le> i" "- 1 \<le> j"
  shows "neighborCoords s h w x y i j =
     (if i = 0 \<and> j = 0 then None
      else if edge_wrapping s
        then Some (Some ((int x + i) mod int h), Some ((int y + j) mod int w))
      else if int x + i < 0 \<or> int x + i \<ge> int h \<or> int y + j < 0 \<or> int y + j \<ge> int w
        then None
      else Some (Some (int x + i), Some (int y + j)))"
  using assms by (simp add: neighborCoords_def Let_def js_rem_nonneg)

lemma countNeighbors_step:
  assumes "rect gr h w" "0 < h" "0 < w" "- 1 \<le> i" "- 1 \<le> j"
  shows "(case neighborCoords s h w x y i j of
            None \<Rightarrow> count
          | Some (newX, newY) \<Rightarrow> if cellAt gr newX newY then count + 1 else count)
         = count + contribution (edge_wrapping s) h w (\<lambda>a b. gr ! a ! b) x y i j"
  using assms
  by (auto simp add: neighborCoords_cases contribution_def cellAt_rect)

lemma countNeighbors_rect:
  assumes "rect gr h w" "0 < h" "0 < w"
  shows "countNeighbors s gr x y = Inr (liveNeighbors (edge_wrapping s) h w (\<lambda>a b. gr ! a ! b) x y)"
proof -
  from assms obtain row0 rest where gr: "gr = row0 # rest" "length row0 = w" "length gr = h"
    by (cases gr) (auto simp: rect_def)
  show ?thesis
    unfolding countNeighbors_def liveNeighbors_contribution
    using gr assms
    by (simp add: countNeighbors_step[OF assms] del: One_nat_def)
qed


lemma countNeighborsColored_step:
  assumes "rect gr h w" "0 < h" "0 < w" "- 1 \<le> i" "- 1 \<le> j"
  shows "\<exists>cs' as'.
     (case neighborCoords s h w x y i j of
        None \<Rightarrow> Inr (count, cs, as)
      | Some (newX, newY) \<Rightarrow>
          (case coloredCellAt gr newX newY of
             Inl e \<Rightarrow> Inl e
           | Inr cell \<Rightarrow>
               (case color cell of
                  Some c \<Rightarrow>
                    if alive cell
                    then Inr (count + 1, cs @ [c],
                              as @ [case age cell of None \<Rightarrow> 1 | Some a \<Rightarrow> if a = 0 then 1 else a])
                    else Inr (count, cs, as)
                | None \<Rightarrow> Inr (count, cs, as))))
     = Inr (count + contribution (edge_wrapping s) h w
                      (\<lambda>a b. alive (gr ! a ! b) \<and> color (gr ! a ! b) \<noteq> None) x y i j, cs', as')"
  using assms
  by (auto simp add: neighborCoords_cases contribution_def coloredCellAt_rect split: option.splits)

lemma countNeighborsColored_rect:
  assumes "rect gr h w" "0 < h" "0 < w"
  shows "\<exists>cs as. countNeighborsColored s gr x y =
     Inr (liveNeighbors (edge_wrapping s) h w
            (\<lambda>a b. alive (gr ! a ! b) \<and> color (gr ! a ! b) \<noteq> None) x y, cs, as)"
proof -
  let ?live = "\<lambda>a b. alive (gr ! a ! b) \<and> color (gr ! a ! b) \<noteq> None"
  let ?con = "contribution (edge_wrapping s) h w ?live x y"
  let ?body = "\<lambda>i j (count, colors, ages).
                 case neighborCoords s h w x y i j of
                   None \<Rightarrow> Inr (count, colors, ages)
                 | Some (newX, newY) \<Rightarrow>
                     (case coloredCellAt gr newX newY of
                        Inl e \<Rightarrow> Inl e
                      | Inr cell \<Rightarrow>
                          (case color cell of
                             Some c \<Rightarrow>
                               if alive cell
                               then Inr (count + 1, colors @ [c],
                                         ages @ [case age cell of
                                                   None \<Rightarrow> 1
                                                 | Some a \<Rightarrow> if a = 0 then 1 else a])
                               else Inr (count, colors, ages)
                           | None \<Rightarrow> Inr (count, colors, ages)))"
  from assms obtain row0 rest where gr: "gr = row0 # rest" "length row0 = w" "length gr = h"
    by (cases gr) (auto simp: rect_def)
  have inner: "\<exists>st'. foldE (?body i) [-1, 0, 1] st = Inr st' \<and>
                 fst st' = fst st + (\<Sum>j\<leftarrow>[-1, 0, 1]. ?con i j)"
    if i: "- 1 \<le> i" for i st
  proof -
    have "\<exists>st'. foldE (?body i) [-1, 0, 1] st = Inr st' \<and>
            fst st' = fst st + (\<Sum>j\<leftarrow>[] @ [-1, 0, 1]. ?con i j)"
    proof (rule foldE_invariant [where Inv = "\<lambda>p t. fst t = fst st + (\<Sum>j\<leftarrow>p. ?con i j)"])
      show "fst st = fst st + (\<Sum>j\<leftarrow>[]. ?con i j)" by simp
    next
      fix p and j :: int and t :: "nat \<times> CellColor list \<times> nat list"
      assume inv: "fst t = fst st + (\<Sum>j\<leftarrow>p. ?con i j)" and j: "j \<in> set [-1, 0, 1]"
      obtain count cs as where t: "t = (count, cs, as)" by (cases t)
      from j have j1: "- 1 \<le> j" by auto
      from countNeighborsColored_step [OF assms i j1, where s = s and x = x and y = y
          and count = count and cs = cs and as = as]
      obtain cs' as' where "?body i j t = Inr (count + ?con i j, cs', as')"
        unfolding t by auto
      with inv t show "\<exists>st'. ?body i j t = Inr st' \<and> fst st' = fst st + (\<Sum>j\<leftarrow>p @ [j]. ?con i j)"
        by simp
    qed
    then show ?thesis by simp
  qed
  have "\<exists>st'. foldE (\<lambda>i. foldE (?body i) [-1, 0, 1]) [-1, 0, 1] (0, [], []) = Inr st' \<and>
          fst st' = (\<Sum>i\<leftarrow>[] @ [-1, 0, 1]. \<Sum>j\<leftarrow>[-1, 0, 1]. ?con i j)"
  proof (rule foldE_invariant [where Inv = "\<lambda>p t. fst t = (\<Sum>i\<leftarrow>p. \<Sum>j\<leftarrow>[-1, 0, 1]. ?con i j)"])
    show "fst (0::nat, [], []) = (\<Sum>i\<leftarrow>[]. \<Sum>j\<leftarrow>[-1, 0, 1]. ?con i j)" by simp
  next
    fix p and i :: int and t :: "nat \<times> CellColor list \<times> nat list"
    assume inv: "fst t = (\<Sum>i\<leftarrow>p. \<Sum>j\<leftarrow>[-1, 0, 1]. ?con i j)" and i: "i \<in> set [-1, 0, 1]"
    from i have "- 1 \<le> i" by auto
    from inner [OF this, of t] inv
    show "\<exists>st'. foldE (?body i) [-1, 0, 1] t = Inr st' \<and>
            fst st' = (\<Sum>i\<leftarrow>p @ [i]. \<Sum>j\<leftarrow>[-1, 0, 1]. ?con i j)"
      by auto
  qed
  then obtain st' where st': "foldE (\<lambda>i. foldE (?body i) [-1, 0, 1]) [-1, 0, 1] (0, [], []) = Inr st'"
      "fst st' = liveNeighbors (edge_wrapping s) h w ?live x y"
    unfolding liveNeighbors_contribution by auto
  obtain n cs as where "st' = (n, cs, as)" by (cases st')
  with st' show ?thesis
    unfolding countNeighborsColored_def using gr by (auto simp: Let_def)
qed

lemma rect_update: "rect gr h w \<Longrightarrow> x < h \<Longrightarrow> rect (gr[x := (gr ! x)[y := c]]) h w"
  by (auto simp: rect_def set_conv_nth nth_list_update)

lemma nth_grid_update:
  "rect gr h w \<Longrightarrow> x < h \<Longrightarrow> y < w \<Longrightarrow> x' < h \<Longrightarrow> y' < w \<Longrightarrow>
     gr[x := (gr ! x)[y := c]] ! x' ! y' = (if x' = x \<and> y' = y then c else gr ! x' ! y')"
  by (auto simp: rect_def nth_list_update)

lemma filled_write:
  "filled h w Q g0 D gr \<Longrightarrow> x < h \<Longrightarrow> y < w \<Longrightarrow> Q x y c \<Longrightarrow>
     filled h w Q g0 (insert (x, y) D) (gr[x := (gr ! x)[y := c]])"
  unfolding filled_def
  by (auto simp: rect_update nth_grid_update)

lemma filled_keep:
  assumes "filled h w Q g0 D gr" "x < h" "y < w" "Q x y (g0 ! x ! y)"
  shows "filled h w Q g0 (insert (x, y) D) gr"
proof -
  from assms have "Q x y (gr ! x ! y)"
    unfolding filled_def by (cases "(x, y) \<in> D") (metis (full_types))+
  with assms(1) show ?thesis
    unfolding filled_def by auto
qed

lemma grid_loop:
  assumes g0: "rect g0 h w" "G st0 = g0"
    and step: "\<And>x y st. x < h \<Longrightarrow> y < w \<Longrightarrow> rect (G st) h w \<Longrightarrow>
        \<exists>st'. f x y st = Inr st' \<and>
          ((G st' = G st \<and> Q x y (g0 ! x ! y)) \<or>
           (\<exists>c. Q x y c \<and> G st' = (G st)[x := (G st ! x)[y := c]]))"
  shows "\<exists>st'. foldE (\<lambda>x. foldE (f x) [0..<w]) [0..<h] st0 = Inr st' \<and>
           rect (G st') h w \<and> (\<forall>x<h. \<forall>y<w. Q x y (G st' ! x ! y))"
proof -
  let ?D = "\<lambda>rows. {(x, y). x \<in> set rows}"
  have inner: "\<exists>st'. foldE (f x) [0..<w] st = Inr st' \<and> filled h w Q g0 (?D (p @ [x])) (G st')"
    if inv: "filled h w Q g0 (?D p) (G st)" and x: "x < h" for p x st
  proof -
    let ?E = "\<lambda>q. {(x', y'). x' \<in> set p \<or> (x' = x \<and> y' \<in> set q)}"
    let ?I = "\<lambda>q t. filled h w Q g0 (?E q) (G t)"
    have "\<exists>st'. foldE (f x) [0..<w] st = Inr st' \<and> ?I ([] @ [0..<w]) st'"
    proof (rule foldE_invariant [where Inv = ?I])
      show "?I [] st" using inv by simp
    next
      fix q y t
      assume I: "?I q t" and "y \<in> set [0..<w]"
      then have y: "y < w" by simp
      from I have "rect (G t) h w" by (simp add: filled_def)
      from step [OF x y this] obtain t' where t': "f x y t = Inr t'"
        and alt: "(G t' = G t \<and> Q x y (g0 ! x ! y)) \<or>
           (\<exists>c. Q x y c \<and> G t' = (G t)[x := (G t ! x)[y := c]])"
        by blast
      have eq: "?E (q @ [y]) = insert (x, y) (?E q)"
        by auto
      from alt have "?I (q @ [y]) t'"
        unfolding eq using filled_write [OF I x y] filled_keep [OF I x y] by auto
      with t' show "\<exists>st'. f x y t = Inr st' \<and> ?I (q @ [y]) st'" by blast
    qed
    then obtain st' where r: "foldE (f x) [0..<w] st = Inr st'"
      "filled h w Q g0 (?E [0..<w]) (G st')" by auto
    from r(2) have "filled h w Q g0 (?D (p @ [x])) (G st')"
      unfolding filled_def by simp
    with r(1) show ?thesis by blast
  qed
  have "\<exists>st'. foldE (\<lambda>x. foldE (f x) [0..<w]) [0..<h] st0 = Inr st' \<and>
          filled h w Q g0 (?D ([] @ [0..<h])) (G st')"
  proof (rule foldE_invariant [where Inv = "\<lambda>p t. filled h w Q g0 (?D p) (G t)"])
    show "filled h w Q g0 (?D []) (G st0)" using g0 by (simp add: filled_def)
  next
    fix p x t
    assume "filled h w Q g0 (?D p) (G t)" "x \<in> set [0..<h]"
    then show "\<exists>st'. foldE (f x) [0..<w] t = Inr st' \<and> filled h w Q g0 (?D (p @ [x])) (G st')"
      using inner by simp
  qed
  then show ?thesis unfolding filled_def by auto
qed


lemma rect_replicate: "rect (replicate h (replicate w c)) h w"
  by (simp add: rect_def)

lemma nextGeneration_rect:
  assumes "rect gr h w" "0 < h" "0 < w"
  shows "\<exists>g'. nextGeneration s gr = Inr g' \<and> rect g' h w \<and>
           (\<forall>x<h. \<forall>y<w. g' ! x ! y =
              lifeRule (gr ! x ! y) (liveNeighbors (edge_wrapping s) h w (\<lambda>a b. gr ! a ! b) x y))"
proof -
  let ?n = "liveNeighbors (edge_wrapping s) h w (\<lambda>a b. gr ! a ! b)"
  let ?Q = "\<lambda>x y c. c = lifeRule (gr ! x ! y) (?n x y)"
  let ?g0 = "replicate h (replicate w False)"
  let ?f = "\<lambda>x y newGrid.
                 case countNeighbors s gr x y of
                   Inl e \<Rightarrow> Inl e
                 | Inr neighbors \<Rightarrow>
                     let isAlive = cellAt gr (Some (int x)) (Some (int y)) in
                     if isAlive \<and> (neighbors = 2 \<or> neighbors = 3)
                     then Inr (newGrid[x := (newGrid ! x)[y := True]])
                     else if \<not> isAlive \<and> neighbors = 3
                     then Inr (newGrid[x := (newGrid ! x)[y := True]])
                     else Inr newGrid"
  from assms obtain row0 rest where gr: "gr = row0 # rest" "length row0 = w" "length gr = h"
    by (cases gr) (auto simp: rect_def)
  have "\<exists>st'. foldE (\<lambda>x. foldE (?f x) [0..<w]) [0..<h] ?g0 = Inr st' \<and>
           rect (id st') h w \<and> (\<forall>x<h. \<forall>y<w. ?Q x y (id st' ! x ! y))"
  proof (rule grid_loop [where ?g0.0 = ?g0])
    show "rect ?g0 h w" by (rule rect_replicate)
    show "id ?g0 = ?g0" by simp
  next
    fix x y and st :: GridState
    assume x: "x < h" and y: "y < w" and "rect (id st) h w"
    have c: "cellAt gr (Some (int x)) (Some (int y)) = gr ! x ! y"
      using cellAt_rect [OF assms(1), of "int x" "int y"] x y by simp
    show "\<exists>st'. ?f x y st = Inr st' \<and>
          ((id st' = id st \<and> ?Q x y (?g0 ! x ! y)) \<or>
           (\<exists>c. ?Q x y c \<and> id st' = (id st)[x := (id st ! x)[y := c]]))"
    proof (cases "lifeRule (gr ! x ! y) (?n x y)")
      case True
      then have "?f x y st = Inr (st[x := (st ! x)[y := True]])"
        by (auto simp: countNeighbors_rect [OF assms] c lifeRule_def)
      with True show ?thesis by auto
    next
      case False
      then have "?f x y st = Inr st"
        by (auto simp: countNeighbors_rect [OF assms] c lifeRule_def)
      with False x y show ?thesis by auto
    qed
  qed
  then show ?thesis
    unfolding nextGeneration_def using gr by (auto simp: Let_def)
qed

lemma nextGenerationColored_rect:
  assumes "rect gr h w" "0 < h" "0 < w"
  shows "\<exists>g' rg'. nextGenerationColored s gr rg = Inr (g', rg') \<and> rect g' h w \<and>
           (\<forall>x<h. \<forall>y<w. stepped s h w gr x y (g' ! x ! y))"
proof -
  let ?dead = "\<lparr> alive = False, color = None, age = None \<rparr>"
  let ?g0 = "replicate h (replicate w ?dead)"
  let ?f = "\<lambda>x y (newGrid, rg).
                 case countNeighborsColored s gr x y of
                   Inl e \<Rightarrow> Inl e
                 | Inr (count, colors, ages) \<Rightarrow>
                     (case coloredCellAt gr (Some (int x)) (Some (int y)) of
                        Inl e \<Rightarrow> Inl e
                      | Inr cell \<Rightarrow>
                          let isAlive = alive cell;
                              currentAge = (case age cell of
                                              None \<Rightarrow> 1
                                            | Some a \<Rightarrow> if a = 0 then 1 else a)
                          in
                          if isAlive \<and> (count = 2 \<or> count = 3)
                          then Inr (newGrid[x := (newGrid ! x)[y :=
                                 \<lparr> alive = True,
                                   color = (case color cell of
                                              None \<Rightarrow> None
                                            | Some currentColor \<Rightarrow>
                                                Some (enhanceColorSaturation s currentColor currentAge)),
                                   age = Some (currentAge + 1) \<rparr>]], rg)
                          else if \<not> isAlive \<and> count = 3
                          then (case newbornColor s colors ages rg of
                                  (cellColor, rg1) \<Rightarrow>
                                    Inr (newGrid[x := (newGrid ! x)[y :=
                                      \<lparr> alive = True, color = Some cellColor, age = Some 1 \<rparr>]], rg1))
                          else Inr (newGrid, rg))"
  from assms obtain row0 rest where gr: "gr = row0 # rest" "length row0 = w" "length gr = h"
    by (cases gr) (auto simp: rect_def)
  have "\<exists>st'. foldE (\<lambda>x. foldE (?f x) [0..<w]) [0..<h] (?g0, rg) = Inr st' \<and>
           rect (fst st') h w \<and> (\<forall>x<h. \<forall>y<w. stepped s h w gr x y (fst st' ! x ! y))"
  proof (rule grid_loop [where ?g0.0 = ?g0])
    show "rect ?g0 h w" by (rule rect_replicate)
    show "fst (?g0, rg) = ?g0" by simp
  next
    fix x y and st :: "ColoredGridState \<times> rng"
    assume x: "x < h" and y: "y < w" and "rect (fst st) h w"
    obtain ng rg1 where st: "st = (ng, rg1)" by (cases st)
    have c: "coloredCellAt gr (Some (int x)) (Some (int y)) = Inr (gr ! x ! y)"
      using coloredCellAt_rect [OF assms(1), of "int x" "int y"] x y by simp
    from countNeighborsColored_rect [OF assms, of s x y] obtain cs as where
      n: "countNeighborsColored s gr x y =
            Inr (liveNeighbors (edge_wrapping s) h w
                  (\<lambda>a b. alive (gr ! a ! b) \<and> color (gr ! a ! b) \<noteq> None) x y, cs, as)"
      by blast
    show "\<exists>st'. ?f x y st = Inr st' \<and>
          ((fst st' = fst st \<and> stepped s h w gr x y (?g0 ! x ! y)) \<or>
           (\<exists>c. stepped s h w gr x y c \<and> fst st' = (fst st)[x := (fst st ! x)[y := c]]))"
    proof -
      let ?cell = "gr ! x ! y"
      let ?k = "liveNeighbors (edge_wrapping s) h w
                  (\<lambda>a b. alive (gr ! a ! b) \<and> color (gr ! a ! b) \<noteq> None) x y"
      consider (survive) "alive ?cell" "?k = 2 \<or> ?k = 3"
        | (born) "\<not> alive ?cell" "?k = 3"
        | (dead) "\<not> lifeRule (alive ?cell) ?k"
        by (auto simp: lifeRule_def)
      then show ?thesis
      proof cases
        case survive
        let ?c = "\<lparr> alive = True,
                     color = (case color ?cell of
                                None \<Rightarrow> None
                              | Some currentColor \<Rightarrow>
                                  Some (enhanceColorSaturation s currentColor
                                     (case age ?cell of None \<Rightarrow> 1 | Some a \<Rightarrow> if a = 0 then 1 else a))),
                     age = Some ((case age ?cell of None \<Rightarrow> 1 | Some a \<Rightarrow> if a = 0 then 1 else a) + 1) \<rparr>"
        from survive have "?f x y st = Inr (ng[x := (ng ! x)[y := ?c]], rg1)"
          unfolding st by (simp add: n c Let_def)
        moreover from survive have "stepped s h w gr x y ?c"
          by (auto simp: stepped_def lifeRule_def split: option.splits)
        ultimately show ?thesis unfolding st by auto
      next
        case born
        obtain cc rg2 where nb: "newbornColor s cs as rg1 = (cc, rg2)"
          by (cases "newbornColor s cs as rg1")
        let ?c = "\<lparr> alive = True, color = Some cc, age = Some 1 \<rparr>"
        from born have "?f x y st = Inr (ng[x := (ng ! x)[y := ?c]], rg2)"
          unfolding st by (simp add: n c Let_def nb)
        moreover from born have "stepped s h w gr x y ?c"
          by (auto simp: stepped_def lifeRule_def)
        ultimately show ?thesis unfolding st by auto
      next
        case dead
        then have "?f x y st = Inr st"
          unfolding st by (auto simp add: n c Let_def lifeRule_def)
        moreover from dead x y have "stepped s h w gr x y (?g0 ! x ! y)"
          by (simp add: stepped_def)
        ultimately show ?thesis by auto
      qed
    qed
  qed
  then show ?thesis
    unfolding nextGenerationColored_def using gr by (auto simp: Let_def)
qed

subsection \<open>Random draws, perturbation and creation\<close>

lemma floor_unit_index:
  assumes "0 \<le> u" "u < 1" "0 < n"
  shows "0 \<le> \<lfloor>u * of_nat n\<rfloor>" "nat \<lfloor>u * of_nat n\<rfloor> < n"
proof -
  show nonneg: "0 \<le> \<lfloor>u * of_nat n\<rfloor>" using assms by simp
  have "u * of_nat n < of_nat n" using assms by simp
  then have "\<lfloor>u * of_nat n\<rfloor> < int n" by (simp add: floor_less_iff)
  with nonneg show "nat \<lfloor>u * of_nat n\<rfloor> < n" by linarith
qed

lemma unit_draws_Math_random:
  "unit_draws rg \<Longrightarrow> Math_random rg = (u, rg') \<Longrightarrow> 0 \<le> u \<and> u < 1 \<and> unit_draws rg'"
  by (auto simp: unit_draws_def Math_random_def)

lemma unit_draws_generateRandomColor:
  "unit_draws rg \<Longrightarrow> generateRandomColor rg = (c, rg') \<Longrightarrow> unit_draws rg'"
  by (auto simp: unit_draws_def Math_random_def generateRandomColor_def)

lemma gridInvariant_nth:
  "rect gr h w \<Longrightarrow> gridInvariant gr = (\<forall>x<h. \<forall>y<w. cellInvariant (gr ! x ! y))"
  unfolding gridInvariant_def rect_def
  by (metis in_set_conv_nth)

lemma flipRandomCells_rect:
  assumes "rect gr h w" "0 < h" "0 < w" "unit_draws rg"
  shows "\<exists>g' rg'. flipRandomCells gr n rg = Inr (g', rg') \<and> rect g' h w"
proof -
  let ?f = "\<lambda>(i::nat) (newGrid, rg).
                 case Math_random rg of (u1, rg1) \<Rightarrow>
                 case Math_random rg1 of (u2, rg2) \<Rightarrow>
                   let x = \<lfloor>u1 * of_nat h\<rfloor>; y = \<lfloor>u2 * of_nat w\<rfloor> in
                   if x < 0 \<or> nat x \<ge> length newGrid then Inl TypeError
                   else if y < 0 \<or> nat y \<ge> length (newGrid ! nat x) then Inl OutsideRow
                   else Inr (newGrid[nat x := (newGrid ! nat x)[nat y := \<not> newGrid ! nat x ! nat y]],
                             rg2)"
  let ?I = "\<lambda>(p::nat list) (t::GridState \<times> rng). rect (fst t) h w \<and> unit_draws (snd t)"
  from assms obtain row0 rest where gr: "gr = row0 # rest" "length row0 = w" "length gr = h"
    by (cases gr) (auto simp: rect_def)
  have "\<exists>st'. foldE ?f [0..<n] (gr, rg) = Inr st' \<and> ?I ([] @ [0..<n]) st'"
  proof (rule foldE_invariant [where Inv = ?I])
    show "?I [] (gr, rg)" using assms by simp
  next
    fix p :: "nat list" and i :: nat and t :: "GridState \<times> rng"
    assume I: "?I p t"
    obtain ng rg0 where t: "t = (ng, rg0)" by (cases t)
    obtain u1 rg1 where r1: "Math_random rg0 = (u1, rg1)" by (cases "Math_random rg0")
    obtain u2 rg2 where r2: "Math_random rg1 = (u2, rg2)" by (cases "Math_random rg1")
    from I t have ng: "rect ng h w" and d0: "unit_draws rg0" by auto
    from unit_draws_Math_random [OF d0 r1] have u1: "0 \<le> u1" "u1 < 1" and d1: "unit_draws rg1" by auto
    from unit_draws_Math_random [OF d1 r2] have u2: "0 \<le> u2" "u2 < 1" and d2: "unit_draws rg2" by auto
    note x = floor_unit_index [OF u1 assms(2)]
    note y = floor_unit_index [OF u2 assms(3)]
    from ng x have lx: "length (ng ! nat \<lfloor>u1 * of_nat h\<rfloor>) = w" by (auto simp: rect_def)
    have "?f i t = Inr (ng[nat \<lfloor>u1 * of_nat h\<rfloor> := (ng ! nat \<lfloor>u1 * of_nat h\<rfloor>)
              [nat \<lfloor>u2 * of_nat w\<rfloor> := \<not> ng ! nat \<lfloor>u1 * of_nat h\<rfloor> ! nat \<lfloor>u2 * of_nat w\<rfloor>]], rg2)"
      using x y lx ng unfolding t by (simp add: r1 r2 Let_def rect_def)
    moreover have "rect (ng[nat \<lfloor>u1 * of_nat h\<rfloor> := (ng ! nat \<lfloor>u1 * of_nat h\<rfloor>)
              [nat \<lfloor>u2 * of_nat w\<rfloor> := \<not> ng ! nat \<lfloor>u1 * of_nat h\<rfloor> ! nat \<lfloor>u2 * of_nat w\<rfloor>]]) h w"
      using ng x(2) by (rule rect_update)
    ultimately show "\<exists>st'. ?f i t = Inr st' \<and> ?I (p @ [i]) st'" using d2 by simp
  qed
  then show ?thesis
    unfolding flipRandomCells_def using gr by (auto simp: Let_def)
qed

lemma flipRandomCellsColored_rect:
  assumes "rect gr h w" "0 < h" "0 < w" "unit_draws rg"
  shows "\<exists>g' rg'. flipRandomCellsColored gr n rg = Inr (g', rg') \<and> rect g' h w \<and>
           (gridInvariant gr \<longrightarrow> gridInvariant g')"
proof -
  let ?f = "\<lambda>(i::nat) (newGrid, rg).
                 case Math_random rg of (u1, rg1) \<Rightarrow>
                 case Math_random rg1 of (u2, rg2) \<Rightarrow>
                   let x = \<lfloor>u1 * of_nat h\<rfloor>; y = \<lfloor>u2 * of_nat w\<rfloor> in
                   if x < 0 \<or> nat x \<ge> length newGrid \<or> y < 0 \<or> nat y \<ge> length (newGrid ! nat x)
                   then Inl TypeError
                   else
                     let currentCell = newGrid ! nat x ! nat y in
                     if \<not> alive currentCell
                     then (case generateRandomColor rg2 of
                             (c, rg3) \<Rightarrow>
                               Inr (newGrid[nat x := (newGrid ! nat x)[nat y :=
                                      \<lparr> alive = True, color = Some c, age = Some 1 \<rparr>]], rg3))
                     else Inr (newGrid[nat x := (newGrid ! nat x)[nat y :=
                                 \<lparr> alive = False, color = None, age = None \<rparr>]], rg2)"
  let ?I = "\<lambda>(p::nat list) (t::ColoredGridState \<times> rng).
              rect (fst t) h w \<and> unit_draws (snd t) \<and> (gridInvariant gr \<longrightarrow> gridInvariant (fst t))"
  from assms obtain row0 rest where gr: "gr = row0 # rest" "length row0 = w" "length gr = h"
    by (cases gr) (auto simp: rect_def)
  have "\<exists>st'. foldE ?f [0..<n] (gr, rg) = Inr st' \<and> ?I ([] @ [0..<n]) st'"
  proof (rule foldE_invariant [where Inv = ?I])
    show "?I [] (gr, rg)" using assms by simp
  next
    fix p :: "nat list" and i :: nat and t :: "ColoredGridState \<times> rng"
    assume I: "?I p t"
    obtain ng rg0 where t: "t = (ng, rg0)" by (cases t)
    obtain u1 rg1 where r1: "Math_random rg0 = (u1, rg1)" by (cases "Math_random rg0")
    obtain u2 rg2 where r2: "Math_random rg1 = (u2, rg2)" by (cases "Math_random rg1")
    obtain c rg3 where r3: "generateRandomColor rg2 = (c, rg3)" by (cases "generateRandomColor rg2")
    from I t have ng: "rect ng h w" and d0: "unit_draws rg0"
      and inv: "gridInvariant gr \<longrightarrow> gridInvariant ng" by auto
    from unit_draws_Math_random [OF d0 r1] have u1: "0 \<le> u1" "u1 < 1" and d1: "unit_draws rg1" by auto
    from unit_draws_Math_random [OF d1 r2] have u2: "0 \<le> u2" "u2 < 1" and d2: "unit_draws rg2" by auto
    from unit_draws_generateRandomColor [OF d2 r3] have d3: "unit_draws rg3" .
    let ?x = "nat \<lfloor>u1 * of_nat h\<rfloor>" and ?y = "nat \<lfloor>u2 * of_nat w\<rfloor>"
    note x = floor_unit_index [OF u1 assms(2)]
    note y = floor_unit_index [OF u2 assms(3)]
    from ng x have lx: "length (ng ! ?x) = w" "length ng = h" by (auto simp: rect_def)
    let ?c = "if \<not> alive (ng ! ?x ! ?y) then \<lparr> alive = True, color = Some c, age = Some 1 \<rparr>
              else \<lparr> alive = False, color = None, age = None \<rparr>"
    let ?rg = "if \<not> alive (ng ! ?x ! ?y) then rg3 else rg2"
    have step: "?f i t = Inr (ng[?x := (ng ! ?x)[?y := ?c]], ?rg)"
      using x y lx unfolding t by (simp add: r1 r2 r3 Let_def)
    have r: "rect (ng[?x := (ng ! ?x)[?y := ?c]]) h w"
      using ng x(2) by (rule rect_update)
    have "gridInvariant (ng[?x := (ng ! ?x)[?y := ?c]])" if "gridInvariant ng"
      using that x(2) y(2) unfolding gridInvariant_nth [OF r] gridInvariant_nth [OF ng]
      by (auto simp: nth_grid_update [OF ng] cellInvariant_def)
    with inv step r d2 d3 show "\<exists>st'. ?f i t = Inr st' \<and> ?I (p @ [i]) st'" by auto
  qed
  then show ?thesis
    unfolding flipRandomCellsColored_def using gr by (auto simp: Let_def)
qed

lemma mapRandom_Suc:
  "mapRandom f (Suc n) rg =
     (fst (f rg) # fst (mapRandom f n (snd (f rg))), snd (mapRandom f n (snd (f rg))))"
  by (simp split: prod.splits)

lemma mapRandom_length: "length (fst (mapRandom f n rg)) = n"
  by (induction n arbitrary: rg) (simp_all add: mapRandom_Suc del: mapRandom.simps(2))

lemma mapRandom_all:
  assumes "\<And>rg v rg'. f rg = (v, rg') \<Longrightarrow> P v"
  shows "\<forall>v \<in> set (fst (mapRandom f n rg)). P v"
proof (induction n arbitrary: rg)
  case 0
  then show ?case by simp
next
  case (Suc n)
  have "P (fst (f rg))" using assms [of rg] by (cases "f rg") simp
  with Suc show ?case by (simp add: mapRandom_Suc del: mapRandom.simps(2))
qed

lemma createRandomColoredGrid_invariant:
  assumes "w < 2 ^ 32" "h < 2 ^ 32"
  shows "\<exists>g' rg'. createRandomColoredGrid s (Some w) (Some h) rg = Inr (g', rg') \<and>
           rect g' h w \<and> gridInvariant g'"
proof (cases "h = 0")
  case True
  then show ?thesis
    by (simp add: createRandomColoredGrid_def arrayLength_def rect_def gridInvariant_def)
next
  case False
  let ?cell = "\<lambda>rg. case Math_random rg of
                        (u, rg1) \<Rightarrow>
                          if u < grid_population_percentage s
                          then (case generateRandomColor rg1 of
                                  (c, rg2) \<Rightarrow> (\<lparr> alive = True, color = Some c, age = Some 1 \<rparr>, rg2))
                          else (\<lparr> alive = False, color = None, age = None \<rparr>, rg1)"
  have cell: "cellInvariant v" if "?cell rg = (v, rg')" for rg v rg'
    using that by (auto simp: cellInvariant_def split: prod.splits if_splits)
  have row: "length v = w \<and> (\<forall>c \<in> set v. cellInvariant c)" if "mapRandom ?cell w rg = (v, rg')" for rg v rg'
    using mapRandom_length [of ?cell w rg] mapRandom_all [of ?cell cellInvariant w rg] cell that
    by auto
  have rows: "\<forall>v \<in> set (fst (mapRandom (mapRandom ?cell w) h rg)).
                 length v = w \<and> (\<forall>c \<in> set v. cellInvariant c)"
    by (rule mapRandom_all) (use row in blast)
  obtain g' rg' where m: "mapRandom (mapRandom ?cell w) h rg = (g', rg')"
    by (cases "mapRandom (mapRandom ?cell w) h rg")
  with rows mapRandom_length [of "mapRandom ?cell w" h rg]
  have "rect g' h w \<and> gridInvariant g'"
    by (auto simp: rect_def gridInvariant_def)
  with m False assms show ?thesis
    by (simp add: createRandomColoredGrid_def arrayLength_def)
qed

lemma nextGenerationColored_invariant:
  assumes "rect gr h w" "0 < h" "0 < w" "gridInvariant gr"
  shows "\<exists>g' rg'. nextGenerationColored s gr rg = Inr (g', rg') \<and> rect g' h w \<and> gridInvariant g'"
proof -
  from nextGenerationColored_rect [OF assms(1-3), of s rg] obtain g' rg' where
    n: "nextGenerationColored s gr rg = Inr (g', rg')" "rect g' h w"
       "\<forall>x<h. \<forall>y<w. stepped s h w gr x y (g' ! x ! y)" by blast
  from assms(4) have "\<forall>x<h. \<forall>y<w. cellInvariant (gr ! x ! y)"
    using gridInvariant_nth [OF assms(1)] by simp
  with n(3) have "\<forall>x<h. \<forall>y<w. cellInvariant (g' ! x ! y)"
    by (auto simp: stepped_def cellInvariant_def)
  then have "gridInvariant g'" using gridInvariant_nth [OF n(2)] by simp
  with n show ?thesis by blast
qed

subsection \<open>Counting and creation, continued\<close>

lemma liveNeighbors_cong:
  assumes "0 < h" "0 < w" "\<And>p q. p < h \<Longrightarrow> q < w \<Longrightarrow> live p q = live' p q"
  shows "liveNeighbors wrap h w live x y = liveNeighbors wrap h w live' x y"
proof -
  have m: "nat (k mod int h) < h" "nat (k mod int w) < w" for k
    using assms(1,2) by (simp_all add: nat_less_iff)
  have "contribution wrap h w live x y i j = contribution wrap h w live' x y i j" for i j
    unfolding contribution_def using assms(3) m
    by (auto simp: nat_less_iff)
  then show ?thesis by (simp add: liveNeighbors_contribution)
qed

lemma liveCellsColored_nth:
  "rect gr h w \<Longrightarrow> liveCellsColored gr \<Longrightarrow> p < h \<Longrightarrow> q < w \<Longrightarrow>
     coloredAliveAt gr p q = aliveAt gr p q"
  unfolding liveCellsColored_def rect_def coloredAliveAt_def aliveAt_def
  by (metis nth_mem)

lemma createRandomColoredGrid_produces:
  assumes "createRandomColoredGrid s width height rg = Inr (g1, rg1)"
  shows "gridInvariant g1"
proof -
  from assms obtain h where h: "arrayLength height = Inr h"
    by (auto simp: createRandomColoredGrid_def split: sum.splits)
  show ?thesis
  proof (cases "h = 0")
    case True
    with assms h show ?thesis
      by (simp add: createRandomColoredGrid_def gridInvariant_def)
  next
    case False
    with assms h obtain w where w: "arrayLength width = Inr w"
      by (auto simp: createRandomColoredGrid_def split: sum.splits)
    from h w have lt: "w < 2 ^ 32" "h < 2 ^ 32" and eq: "width = Some w" "height = Some h"
      by (auto simp: arrayLength_def split: option.splits if_splits)
    from createRandomColoredGrid_invariant [OF lt, of s rg] assms
    show ?thesis unfolding eq by auto
  qed
qed

subsection \<open>Colour arithmetic\<close>

lemma Math_round_of_int: "Math_round (of_int n) = n"
  unfolding Math_round_def by linarith

lemma saturationScale_zero: "max_saturation_age s > 0 \<Longrightarrow> saturationScale s 0 = 1"
  by (simp add: saturationScale_def Let_def)

lemma saturationScale_max:
  "max_saturation_age s > 0 \<Longrightarrow> of_nat ag \<ge> max_saturation_age s \<Longrightarrow>
     saturationScale s ag = 1 + saturation_factor s"
  by (simp add: saturationScale_def Let_def min_def)

lemma enhanceChannel_one:
  assumes "0 \<le> ch" "ch \<le> 255"
  shows "enhanceChannel center 1 ch = ch"
proof -
  have a: "(0::rat) \<le> of_int ch" "(of_int ch :: rat) \<le> 255" using assms by simp_all
  have "max 0 (min 255 (of_int ch :: rat)) = of_int ch"
    using a by (simp add: min_absorb2 max_absorb2)
  then show ?thesis
    by (simp add: enhanceChannel_def Let_def Math_round_of_int)
qed

lemma fold_sum_colors:
  "fold (\<lambda>c acc. \<lparr> r = r acc + r c, g = g acc + g c, b = b acc + b c \<rparr>) colors acc =
     \<lparr> r = r acc + sum_list (map r colors), g = g acc + sum_list (map g colors),
       b = b acc + sum_list (map b colors) \<rparr>"
  by (induction colors arbitrary: acc) simp_all

lemma fold_weighted_colors:
  assumes "\<forall>a \<in> set ages. a = k" "length colors = length ages"
  shows "fold (\<lambda>(c, a) (totalWeight, acc).
                     (totalWeight + (if a = 0 then 1 else a),
                         \<lparr> r = r acc + r c * int (if a = 0 then 1 else a),
                           g = g acc + g c * int (if a = 0 then 1 else a),
                           b = b acc + b c * int (if a = 0 then 1 else a) \<rparr>))
                  (zip colors ages) (t, acc) =
     (t + length colors * weightOf k,
      \<lparr> r = r acc + sum_list (map r colors) * int (weightOf k),
        g = g acc + sum_list (map g colors) * int (weightOf k),
        b = b acc + sum_list (map b colors) * int (weightOf k) \<rparr>)"
  using assms(2,1)
  by (induction colors ages arbitrary: t acc rule: list_induct2)
     (simp_all add: weightOf_def Let_def algebra_simps)

lemma weighted_quotient:
  "0 < n \<Longrightarrow> 0 < k \<Longrightarrow>
     (of_int (x * int k) :: rat) / of_nat (n * k) = of_int x / of_nat n"
  by simp

subsection \<open>The history of fingerprints\<close>

lemma lastN_snoc:
  "lastN 10 (xs @ [x]) =
     (if length (lastN 10 xs @ [x]) > 10 then tl (lastN 10 xs @ [x]) else lastN 10 xs @ [x])"
proof (cases "length xs < 10")
  case True
  then show ?thesis by (simp add: lastN_def)
next
  case False
  then have "Suc (length xs - 10) = Suc (length xs) - 10" by simp
  with False show ?thesis
    by (simp add: lastN_def tl_drop drop_Suc [symmetric] del: drop_Suc)
qed

lemma lastN_length: "length (lastN n xs) \<le> n"
  by (simp add: lastN_def)

lemma isSimulationStuck_ofMode:
  assumes "ofMode s gr"
  shows "isSimulationStuck s gr history =
     (if \<not> hasLive gr then (True, history)
      else if fingerprint gr \<in> set history then (True, history)
      else (False, if length (history @ [fingerprint gr]) > 10
                   then tl (history @ [fingerprint gr]) else history @ [fingerprint gr]))"
  using assms
  by (cases gr)
     (auto simp: isSimulationStuck_def ofMode_def isColored_def asColoredString_def
        asPlainString_def someAlive_def someTruthy_def fingerprint_def hasLive_def
        list_ex_iff Let_def)

lemma recordCall_invariant:
  assumes "ofMode s gr" "fst run = lastN 10 (snd run)"
  shows "fst (recordCall s gr run) = lastN 10 (snd (recordCall s gr run))"
  using assms(2)
  by (simp add: recordCall_def isSimulationStuck_ofMode [OF assms(1)] lastN_snoc)

lemma detectorRun_invariant:
  assumes "\<forall>gr \<in> set grids. ofMode s gr"
  shows "fst (detectorRun s grids) = lastN 10 (snd (detectorRun s grids))"
  using assms
proof (induction grids rule: rev_induct)
  case Nil
  then show ?case by (simp add: detectorRun_def lastN_def)
next
  case (snoc gr grids)
  then have "fst (detectorRun s grids) = lastN 10 (snd (detectorRun s grids))" and "ofMode s gr"
    by simp_all
  then show ?case
    using recordCall_invariant [of s gr "detectorRun s grids"]
    by (simp add: detectorRun_def)
qed

subsection \<open>Rendering\<close>

lemma foldE_cong:
  "(\<And>x st. x \<in> set xs \<Longrightarrow> f x st = f' x st) \<Longrightarrow> foldE f xs st = foldE f' xs st"
  by (induction xs arbitrary: st) (auto split: sum.splits)

lemma foldE_returns:
  "(\<And>x st. x \<in> set xs \<Longrightarrow> \<exists>st'. f x st = Inr st') \<Longrightarrow> \<exists>st'. foldE f xs st = Inr st'"
proof (induction xs arbitrary: st)
  case Nil
  then show ?case by simp
next
  case (Cons x xs)
  from Cons.prems [of x st] obtain st1 where "f x st = Inr st1" by auto
  moreover have "\<exists>st'. foldE f xs st1 = Inr st'"
    by (rule Cons.IH) (use Cons.prems in auto)
  ultimately show ?case by simp
qed

lemma blendChannel_start: "blendChannel c t 0 = c"
  by (simp add: blendChannel_def Math_round_of_int)

lemma blendChannel_end: "blendChannel c t 1 = t"
  by (simp add: blendChannel_def Math_round_of_int)

lemma coloredShade_cases:
  assumes "rect gr h w" "0 < h" "0 < w"
  shows "\<exists>p v. \<forall>initial. coloredShade s gr cell x y initial = Inr (if p then v else initial)"
proof (cases "case cell of None \<Rightarrow> None | Some c \<Rightarrow> if alive c then color c else None")
  case (Some cellColor)
  then have "\<forall>initial. coloredShade s gr cell x y initial = Inr (if True then (1, cellColor) else initial)"
    by (simp add: coloredShade_def)
  then show ?thesis by blast
next
  case None
  from countNeighborsColored_rect [OF assms, of s x y] obtain n cs as where
    n: "countNeighborsColored s gr x y = Inr (n, cs, as)" by blast
  have "\<forall>initial. coloredShade s gr cell x y initial =
          Inr (if neighbor_opacity_enabled s \<and> n > 0
               then (min (of_nat n * neighbor_opacity_increment s) (8 / 10), averageColors cs)
               else initial)"
    using None by (simp add: coloredShade_def n)
  then show ?thesis by blast
qed

lemma plainShade_returns:
  assumes "rect gr h w" "0 < h" "0 < w"
  shows "\<exists>a. plainShade s gr cellAlive x y = Inr a"
  by (simp add: plainShade_def countNeighbors_rect [OF assms])

lemma nextCellAt_rect:
  "rect ng h w \<Longrightarrow> x < h \<Longrightarrow> y < w \<Longrightarrow> nextCellAt (Some ng) x y = Inr (Some (ng ! x ! y))"
  by (auto simp: nextCellAt_def rect_def)

lemma nextCellAt_None: "nextCellAt None x y = Inr None"
  by (simp add: nextCellAt_def)

lemma renderCellColored_start:
  assumes "0 < fade_amount s" "rect cur h w" "rect tgt h w" "0 < h" "0 < w" "x < h" "y < w"
  shows "renderCellColored s fg True cur (Some tgt) 0 x y drawn =
         renderCellColored s fg fading cur None 1 x y drawn"
proof -
  have c: "coloredCellAt cur (Some (int x)) (Some (int y)) = Inr (cur ! x ! y)"
    using coloredCellAt_rect [OF assms(2), of "int x" "int y"] assms(6,7) by simp
  have l: "length tgt > 0" using assms(3,4) by (simp add: rect_def)
  from coloredShade_cases [OF assms(2,4,5), of s "Some (cur ! x ! y)" x y]
  obtain pc vc where sc:
    "\<And>initial. coloredShade s cur (Some (cur ! x ! y)) x y initial = Inr (if pc then vc else initial)"
    by blast
  from coloredShade_cases [OF assms(3,4,5), of s "Some (tgt ! x ! y)" x y]
  obtain pt vt where st:
    "\<And>initial. coloredShade s tgt (Some (tgt ! x ! y)) x y initial = Inr (if pt then vt else initial)"
    by blast
  show ?thesis
    using assms(1) l
    by (cases vc; cases vt)
       (simp add: renderCellColored_def c nextCellAt_rect [OF assms(3,6,7)] nextCellAt_None sc st
          Let_def blendChannel_start)
qed

lemma renderCellColored_end:
  assumes "0 < fade_amount s" "rect cur h w" "rect tgt h w" "0 < h" "0 < w" "x < h" "y < w"
  shows "renderCellColored s fg True cur (Some tgt) 1 x y drawn =
         renderCellColored s fg fading tgt None 1 x y drawn"
proof -
  have c: "coloredCellAt cur (Some (int x)) (Some (int y)) = Inr (cur ! x ! y)"
    using coloredCellAt_rect [OF assms(2), of "int x" "int y"] assms(6,7) by simp
  have t: "coloredCellAt tgt (Some (int x)) (Some (int y)) = Inr (tgt ! x ! y)"
    using coloredCellAt_rect [OF assms(3), of "int x" "int y"] assms(6,7) by simp
  have l: "length tgt > 0" using assms(3,4) by (simp add: rect_def)
  from coloredShade_cases [OF assms(2,4,5), of s "Some (cur ! x ! y)" x y]
  obtain pc vc where sc:
    "\<And>initial. coloredShade s cur (Some (cur ! x ! y)) x y initial = Inr (if pc then vc else initial)"
    by blast
  from coloredShade_cases [OF assms(3,4,5), of s "Some (tgt ! x ! y)" x y]
  obtain pt vt where st:
    "\<And>initial. coloredShade s tgt (Some (tgt ! x ! y)) x y initial = Inr (if pt then vt else initial)"
    by blast
  show ?thesis
    using assms(1) l
    by (cases vc; cases vt)
       (simp add: renderCellColored_def c t nextCellAt_rect [OF assms(3,6,7)] nextCellAt_None sc st
          Let_def blendChannel_end)
qed

lemma renderCellColored_returns:
  assumes "rect cur h w" "0 < h" "0 < w" "x < h" "y < w"
  shows "\<exists>drawn'. renderCellColored s fg fading cur None 1 x y drawn = Inr drawn'"
proof -
  have c: "coloredCellAt cur (Some (int x)) (Some (int y)) = Inr (cur ! x ! y)"
    using coloredCellAt_rect [OF assms(1), of "int x" "int y"] assms(4,5) by simp
  from coloredShade_cases [OF assms(1,2,3), of s "Some (cur ! x ! y)" x y]
  obtain pc vc where sc:
    "\<And>initial. coloredShade s cur (Some (cur ! x ! y)) x y initial = Inr (if pc then vc else initial)"
    by blast
  show ?thesis
    by (cases vc) (simp add: renderCellColored_def c nextCellAt_None sc Let_def)
qed

lemma renderCellPlain_start:
  assumes "0 < fade_amount s" "rect cur h w" "rect tgt h w" "0 < h" "0 < w" "x < h" "y < w"
  shows "renderCellPlain s fg True cur (Some tgt) 0 x y drawn =
         renderCellPlain s fg fading cur None 1 x y drawn"
proof -
  have l: "length tgt > 0" using assms(3,4) by (simp add: rect_def)
  from plainShade_returns [OF assms(2,4,5)] obtain ac where
    sc: "plainShade s cur (cellAt cur (Some (int x)) (Some (int y))) x y = Inr ac" by blast
  from plainShade_returns [OF assms(3,4,5)] obtain a2 where
    st: "plainShade s tgt (tgt ! x ! y) x y = Inr a2" by blast
  show ?thesis
    using assms(1) l
    by (simp add: renderCellPlain_def nextCellAt_rect [OF assms(3,6,7)] nextCellAt_None sc st Let_def)
qed

lemma renderCellPlain_end:
  assumes "0 < fade_amount s" "rect cur h w" "rect tgt h w" "0 < h" "0 < w" "x < h" "y < w"
  shows "renderCellPlain s fg True cur (Some tgt) 1 x y drawn =
         renderCellPlain s fg fading tgt None 1 x y drawn"
proof -
  have l: "length tgt > 0" using assms(3,4) by (simp add: rect_def)
  have t: "cellAt tgt (Some (int x)) (Some (int y)) = tgt ! x ! y"
    using cellAt_rect [OF assms(3), of "int x" "int y"] assms(6,7) by simp
  from plainShade_returns [OF assms(2,4,5)] obtain ac where
    sc: "plainShade s cur (cellAt cur (Some (int x)) (Some (int y))) x y = Inr ac" by blast
  from plainShade_returns [OF assms(3,4,5)] obtain a2 where
    st: "plainShade s tgt (tgt ! x ! y) x y = Inr a2" by blast
  show ?thesis
    using assms(1) l
    by (simp add: renderCellPlain_def nextCellAt_rect [OF assms(3,6,7)] nextCellAt_None sc st t Let_def)
qed

lemma renderCellPlain_returns:
  assumes "rect cur h w" "0 < h" "0 < w" "x < h" "y < w"
  shows "\<exists>drawn'. renderCellPlain s fg fading cur None 1 x y drawn = Inr drawn'"
proof -
  from plainShade_returns [OF assms(1,2,3)] obtain ac where
    sc: "plainShade s cur (cellAt cur (Some (int x)) (Some (int y))) x y = Inr ac" by blast
  show ?thesis
    by (simp add: renderCellPlain_def nextCellAt_None sc Let_def)
qed


lemma renderGridColored_loops:
  assumes "rect cur h w" "0 < h"
  shows "renderGridColored s fg fading cur ng p =
         foldE (\<lambda>x. foldE (renderCellColored s fg fading cur ng p x) [0..<w]) [0..<h] []"
proof -
  from assms obtain row0 rest where "cur = row0 # rest" "length row0 = w" "length cur = h"
    by (cases cur) (auto simp: rect_def)
  then show ?thesis by (auto simp: renderGridColored_def Let_def)
qed

lemma renderGridPlain_loops:
  assumes "rect cur h w" "0 < h"
  shows "renderGridPlain s fg fading cur ng p =
         foldE (\<lambda>x. foldE (renderCellPlain s fg fading cur ng p x) [0..<w]) [0..<h] []"
proof -
  from assms obtain row0 rest where "cur = row0 # rest" "length row0 = w" "length cur = h"
    by (cases cur) (auto simp: rect_def)
  then show ?thesis by (auto simp: renderGridPlain_def Let_def)
qed

lemma renderGridColored_returns:
  assumes "rect cur h w" "0 < h" "0 < w"
  shows "\<exists>drawn. renderGridColored s fg fading cur None 1 = Inr drawn"
  unfolding renderGridColored_loops [OF assms(1,2)]
  by (intro foldE_returns) (use renderCellColored_returns [OF assms] in auto)

lemma renderGridPlain_returns:
  assumes "rect cur h w" "0 < h" "0 < w"
  shows "\<exists>drawn. renderGridPlain s fg fading cur None 1 = Inr drawn"
  unfolding renderGridPlain_loops [OF assms(1,2)]
  by (intro foldE_returns) (use renderCellPlain_returns [OF assms] in auto)

subsection \<open>The tick\<close>

lemma createRandomGrid_rect:
  assumes "w < 2 ^ 32" "h < 2 ^ 32"
  shows "\<exists>g1 rg1. createRandomGrid s (Some w) (Some h) rg = Inr (g1, rg1) \<and> rect g1 h w"
proof (cases "h = 0")
  case True
  then show ?thesis by (simp add: createRandomGrid_def arrayLength_def rect_def)
next
  case False
  let ?cell = "\<lambda>rg. case Math_random rg of (u, rg1) \<Rightarrow> (u < grid_population_percentage s, rg1)"
  have row: "length v = w" if "mapRandom ?cell w rg = (v, rg')" for rg v rg'
    using mapRandom_length [of ?cell w rg] that by simp
  have rows: "\<forall>v \<in> set (fst (mapRandom (mapRandom ?cell w) h rg)). length v = w"
    by (rule mapRandom_all) (use row in blast)
  obtain g' rg' where m: "mapRandom (mapRandom ?cell w) h rg = (g', rg')"
    by (cases "mapRandom (mapRandom ?cell w) h rg")
  with rows mapRandom_length [of "mapRandom ?cell w" h rg]
  have "rect g' h w" by (auto simp: rect_def)
  with m False assms show ?thesis
    by (simp add: createRandomGrid_def arrayLength_def)
qed

lemma gameLoop_advancing:
  assumes "advancing s hst st t"
  shows "gameLoop s hst st t =
     (case advance s hst st t of
        Inl e \<Rightarrow> Inl e
      | Inr (Return st') \<Rightarrow> Inr (st', None)
      | Inr (Continue st1) \<Rightarrow> present s hst st st1 t)"
  using assms by (auto simp: gameLoop_def advancing_def Let_def)

lemma resetPlain_overwrites:
  "resetPlain s hst (st\<lparr> stateHistoryRef := hh \<rparr>) t = resetPlain s hst st t"
  "resetPlain s hst (st\<lparr> stateHistoryRef := hh, stuckCounterRef := cc \<rparr>) t = resetPlain s hst st t"
  by (simp_all add: resetPlain_def Let_def split: sum.splits prod.splits)

lemma resetPlain_viewport:
  assumes "viewportGrid s hst h w"
  shows "\<exists>newGrid rg. createRandomGrid s (Some w) (Some h) (randomSource st) = Inr (newGrid, rg) \<and>
           rect newGrid h w \<and>
           resetPlain s hst st t =
             Inr (st\<lparr> stuckCounterRef := 0, stateHistoryRef := [], fibonacciIndexRef := 0,
                     randomSource := rg, grid := newGrid, targetGrid := [], isFading := False,
                     lastUpdateRef := t \<rparr>)"
proof -
  from assms have d: "calculateGridDimensions s hst = (Some w, Some h)" and lt: "w < 2 ^ 32" "h < 2 ^ 32"
    by (auto simp: viewportGrid_def)
  from createRandomGrid_rect [OF lt, of s "randomSource st"] obtain g1 rg1 where
    c: "createRandomGrid s (Some w) (Some h) (randomSource st) = Inr (g1, rg1)" "rect g1 h w" by blast
  then show ?thesis by (simp add: resetPlain_def d)
qed

lemma hasLive_Plain: "hasLive (Plain ng) = list_ex (list_ex (\<lambda>cell. cell)) ng"
  by (simp add: hasLive_def list_ex_iff)

lemma hasLive_Colored: "hasLive (Colored ng) = list_ex (list_ex alive) ng"
  by (simp add: hasLive_def list_ex_iff)

lemma stuck_history:
  "ofMode s gr \<Longrightarrow> fst (isSimulationStuck s gr history) \<Longrightarrow>
     snd (isSimulationStuck s gr history) = history"
  by (simp add: isSimulationStuck_ofMode split: if_splits)

lemma advancePlain_reset:
  assumes "\<not> color_mode s" "nextGeneration s (grid st) = Inr ng"
    and "recoveryOf s (\<not> hasLive (Plain ng))
           (fst (isSimulationStuck s (Plain ng) (stateHistoryRef st)))
           (stuckCounterRef st) (fibonacciIndexRef st)
           (length (grid st) * length (hd (grid st))) = Reset"
  shows "advancePlain s hst st t = returning (resetPlain s hst st t)"
proof -
  have m: "ofMode s (Plain ng)" using assms(1) by (simp add: ofMode_def isColored_def)
  obtain stuck history where i: "isSimulationStuck s (Plain ng) (stateHistoryRef st) = (stuck, history)"
    by (cases "isSimulationStuck s (Plain ng) (stateHistoryRef st)")
  have e: "\<not> hasLive (Plain ng) \<Longrightarrow> stuck" using i by (simp add: isSimulationStuck_ofMode [OF m])
  from assms(3) e show ?thesis
    unfolding advancePlain_def recoveryOf_def
    by (simp add: assms(2) i hasLive_Plain Let_def resetPlain_overwrites split: if_splits)
qed

lemma advancePlain_perturb:
  assumes "\<not> color_mode s" "nextGeneration s (grid st) = Inr ng"
    and "recoveryOf s (\<not> hasLive (Plain ng))
           (fst (isSimulationStuck s (Plain ng) (stateHistoryRef st)))
           (stuckCounterRef st) (fibonacciIndexRef st)
           (length (grid st) * length (hd (grid st))) = Perturb k"
  shows "advancePlain s hst st t =
     (case flipRandomCells ng k (randomSource st) of
        Inl e \<Rightarrow> Inl e
      | Inr (flippedGrid, rg) \<Rightarrow>
          Inr (Continue (st\<lparr> stuckCounterRef := stuckCounterRef st + 1, randomSource := rg,
                              fibonacciIndexRef := fibonacciIndexRef st + 1,
                              targetGrid := flippedGrid \<rparr>)))"
proof -
  have m: "ofMode s (Plain ng)" using assms(1) by (simp add: ofMode_def isColored_def)
  obtain stuck history where i: "isSimulationStuck s (Plain ng) (stateHistoryRef st) = (stuck, history)"
    by (cases "isSimulationStuck s (Plain ng) (stateHistoryRef st)")
  have h: "stuck \<Longrightarrow> history = stateHistoryRef st"
    using stuck_history [OF m, of "stateHistoryRef st"] i by simp
  from assms(3) h show ?thesis
    unfolding advancePlain_def recoveryOf_def
    by (auto simp add: assms(2) i hasLive_Plain Let_def split: if_splits sum.splits)
qed

lemma tick_reset_plain:
  assumes "advancing s hst st t" "viewportGrid s hst h w"
    and "\<not> color_mode s" "nextGeneration s (grid st) = Inr ng"
    and "recoveryOf s (\<not> hasLive (Plain ng))
           (fst (isSimulationStuck s (Plain ng) (stateHistoryRef st)))
           (stuckCounterRef st) (fibonacciIndexRef st)
           (length (grid st) * length (hd (grid st))) = Reset"
  shows "\<exists>newGrid rg. createRandomGrid s (Some w) (Some h) (randomSource st) = Inr (newGrid, rg) \<and>
           rect newGrid h w \<and>
           gameLoop s hst st t =
             Inr (st\<lparr> stuckCounterRef := 0, stateHistoryRef := [], fibonacciIndexRef := 0,
                     randomSource := rg, grid := newGrid, targetGrid := [], isFading := False,
                     lastUpdateRef := t \<rparr>, None)"
proof -
  from resetPlain_viewport [OF assms(2), of st t] obtain newGrid rg where
    c: "createRandomGrid s (Some w) (Some h) (randomSource st) = Inr (newGrid, rg)" "rect newGrid h w"
    and r: "resetPlain s hst st t =
             Inr (st\<lparr> stuckCounterRef := 0, stateHistoryRef := [], fibonacciIndexRef := 0,
                     randomSource := rg, grid := newGrid, targetGrid := [], isFading := False,
                     lastUpdateRef := t \<rparr>)"
    by blast
  have "gameLoop s hst st t =
             Inr (st\<lparr> stuckCounterRef := 0, stateHistoryRef := [], fibonacciIndexRef := 0,
                     randomSource := rg, grid := newGrid, targetGrid := [], isFading := False,
                     lastUpdateRef := t \<rparr>, None)"
    unfolding gameLoop_advancing [OF assms(1)] advance_def
    by (simp add: assms(3) advancePlain_reset [OF assms(3,4,5)] r returning_def)
  with c show ?thesis by blast
qed


lemma foldE_preserves:
  assumes "\<And>x st st'. x \<in> set xs \<Longrightarrow> f x st = Inr st' \<Longrightarrow> P st \<Longrightarrow> P st'"
    and "foldE f xs st = Inr st'" "P st"
  shows "P st'"
  using assms
proof (induction xs arbitrary: st)
  case Nil
  then show ?case by simp
next
  case (Cons x xs)
  from Cons.prems(2) obtain st1 where s1: "f x st = Inr st1" "foldE f xs st1 = Inr st'"
    by (auto split: sum.splits)
  from Cons.prems(1) [of x st st1] s1(1) Cons.prems(3) have "P st1" by simp
  with Cons.IH [of st1] Cons.prems(1) s1(2) show ?case by auto
qed

lemma unit_draws_generateTweakedColor:
  "unit_draws rg \<Longrightarrow> generateTweakedColor c rg = (c', rg') \<Longrightarrow> unit_draws rg'"
  by (auto simp: unit_draws_def Math_random_def generateTweakedColor_def Let_def)

lemma unit_draws_newbornColor:
  "unit_draws rg \<Longrightarrow> newbornColor s cs as rg = (c', rg') \<Longrightarrow> unit_draws rg'"
  unfolding newbornColor_def Let_def
  by (auto split: prod.splits if_splits
      dest: unit_draws_Math_random unit_draws_generateRandomColor unit_draws_generateTweakedColor)

lemma nextGenerationColored_draws:
  assumes "nextGenerationColored s gr rg = Inr (g', rg')" "unit_draws rg"
  shows "unit_draws rg'"
proof -
  from assms(1) obtain row0 rest where gr: "gr = row0 # rest"
    by (cases gr) (auto simp: nextGenerationColored_def)
  let ?P = "\<lambda>t :: ColoredGridState \<times> rng. unit_draws (snd t)"
  have "?P (g', rg')"
  proof (rule foldE_preserves [where P = ?P, OF _ assms(1) [unfolded nextGenerationColored_def gr list.case Let_def]])
    show "?P (replicate (length (row0 # rest))
              (replicate (length row0) \<lparr> alive = False, color = None, age = None \<rparr>), rg)"
      using assms(2) by simp
  next
    fix x and t t' :: "ColoredGridState \<times> rng"
    assume f: "foldE (\<lambda>y (newGrid, rg).
                 case countNeighborsColored s (row0 # rest) x y of
                   Inl e \<Rightarrow> Inl e
                 | Inr (count, colors, ages) \<Rightarrow>
                     (case coloredCellAt (row0 # rest) (Some (int x)) (Some (int y)) of
                        Inl e \<Rightarrow> Inl e
                      | Inr cell \<Rightarrow>
                          if alive cell \<and> (count = 2 \<or> count = 3)
                          then Inr (newGrid[x := (newGrid ! x)[y :=
                                 \<lparr> alive = True,
                                   color = (case color cell of
                                              None \<Rightarrow> None
                                            | Some currentColor \<Rightarrow>
                                                Some (enhanceColorSaturation s currentColor
                                                  (case age cell of
                                              None \<Rightarrow> 1
                                            | Some a \<Rightarrow> if a = 0 then 1 else a))),
                                   age = Some ((case age cell of
                                              None \<Rightarrow> 1
                                            | Some a \<Rightarrow> if a = 0 then 1 else a) + 1) \<rparr>]], rg)
                          else if \<not> alive cell \<and> count = 3
                          then (case newbornColor s colors ages rg of
                                  (cellColor, rg1) \<Rightarrow>
                                    Inr (newGrid[x := (newGrid ! x)[y :=
                                      \<lparr> alive = True, color = Some cellColor, age = Some 1 \<rparr>]], rg1))
                          else Inr (newGrid, rg)))
               [0..<length row0] t = Inr t'" and p: "?P t"
    show "?P t'"
    proof (rule foldE_preserves [where P = ?P, OF _ f p])
      fix y and u u' :: "ColoredGridState \<times> rng"
      assume "(case u of (newGrid, rg) \<Rightarrow>
                 case countNeighborsColored s (row0 # rest) x y of
                   Inl e \<Rightarrow> Inl e
                 | Inr (count, colors, ages) \<Rightarrow>
                     (case coloredCellAt (row0 # rest) (Some (int x)) (Some (int y)) of
                        Inl e \<Rightarrow> Inl e
                      | Inr cell \<Rightarrow>
                          if alive cell \<and> (count = 2 \<or> count = 3)
                          then Inr (newGrid[x := (newGrid ! x)[y :=
                                 \<lparr> alive = True,
                                   color = (case color cell of
                                              None \<Rightarrow> None
                                            | Some currentColor \<Rightarrow>
                                                Some (enhanceColorSaturation s currentColor
                                                  (case age cell of
                                              None \<Rightarrow> 1
                                            | Some a \<Rightarrow> if a = 0 then 1 else a))),
                                   age = Some ((case age cell of
                                              None \<Rightarrow> 1
                                            | Some a \<Rightarrow> if a = 0 then 1 else a) + 1) \<rparr>]], rg)
                          else if \<not> alive cell \<and> count = 3
                          then (case newbornColor s colors ages rg of
                                  (cellColor, rg1) \<Rightarrow>
                                    Inr (newGrid[x := (newGrid ! x)[y :=
                                      \<lparr> alive = True, color = Some cellColor, age = Some 1 \<rparr>]], rg1))
                          else Inr (newGrid, rg))) = Inr u'" and "?P u"
      then show "?P u'"
        by (auto split: prod.splits sum.splits if_splits dest: unit_draws_newbornColor)
    qed
  qed
  then show ?thesis by simp
qed


lemma resetColored_overwrites:
  "resetColored s hst (st\<lparr> stateHistoryRef := hh, randomSource := rg0 \<rparr>) t =
     resetColored s hst (st\<lparr> randomSource := rg0 \<rparr>) t"
  "resetColored s hst (st\<lparr> stateHistoryRef := hh, randomSource := rg0, stuckCounterRef := cc \<rparr>) t =
     resetColored s hst (st\<lparr> randomSource := rg0 \<rparr>) t"
  by (simp_all add: resetColored_def Let_def split: sum.splits prod.splits)

lemma resetColored_viewport:
  assumes "viewportGrid s hst h w"
  shows "\<exists>newGrid rg. createRandomColoredGrid s (Some w) (Some h) rg0 = Inr (newGrid, rg) \<and>
           rect newGrid h w \<and>
           resetColored s hst (st\<lparr> randomSource := rg0 \<rparr>) t =
             Inr (st\<lparr> stuckCounterRef := 0, stateHistoryRef := [], fibonacciIndexRef := 0,
                     randomSource := rg, coloredGrid := newGrid, targetColoredGrid := [],
                     isFading := False, lastUpdateRef := t \<rparr>)"
proof -
  from assms have d: "calculateGridDimensions s hst = (Some w, Some h)" and lt: "w < 2 ^ 32" "h < 2 ^ 32"
    by (auto simp: viewportGrid_def)
  from createRandomColoredGrid_invariant [OF lt, of s rg0] obtain g1 rg1 where
    c: "createRandomColoredGrid s (Some w) (Some h) rg0 = Inr (g1, rg1)" "rect g1 h w" by blast
  then show ?thesis by (simp add: resetColored_def d)
qed

lemma advanceColored_reset:
  assumes "color_mode s" "nextGenerationColored s (coloredGrid st) (randomSource st) = Inr (ng, rg0)"
    and "recoveryOf s (\<not> hasLive (Colored ng))
           (fst (isSimulationStuck s (Colored ng) (stateHistoryRef st)))
           (stuckCounterRef st) (fibonacciIndexRef st)
           (length (coloredGrid st) * length (hd (coloredGrid st))) = Reset"
  shows "advanceColored s hst st t = returning (resetColored s hst (st\<lparr> randomSource := rg0 \<rparr>) t)"
proof -
  have m: "ofMode s (Colored ng)" using assms(1) by (simp add: ofMode_def isColored_def)
  obtain stuck history where i: "isSimulationStuck s (Colored ng) (stateHistoryRef st) = (stuck, history)"
    by (cases "isSimulationStuck s (Colored ng) (stateHistoryRef st)")
  have e: "\<not> hasLive (Colored ng) \<Longrightarrow> stuck" using i by (simp add: isSimulationStuck_ofMode [OF m])
  from assms(3) e show ?thesis
    unfolding advanceColored_def recoveryOf_def
    by (simp add: assms(2) i hasLive_Colored Let_def resetColored_overwrites split: if_splits)
qed

lemma advanceColored_perturb:
  assumes "color_mode s" "nextGenerationColored s (coloredGrid st) (randomSource st) = Inr (ng, rg0)"
    and "recoveryOf s (\<not> hasLive (Colored ng))
           (fst (isSimulationStuck s (Colored ng) (stateHistoryRef st)))
           (stuckCounterRef st) (fibonacciIndexRef st)
           (length (coloredGrid st) * length (hd (coloredGrid st))) = Perturb k"
  shows "advanceColored s hst st t =
     (case flipRandomCellsColored ng k rg0 of
        Inl e \<Rightarrow> Inl e
      | Inr (flippedGrid, rg) \<Rightarrow>
          Inr (Continue (st\<lparr> stuckCounterRef := stuckCounterRef st + 1, randomSource := rg,
                              fibonacciIndexRef := fibonacciIndexRef st + 1,
                              targetColoredGrid := flippedGrid \<rparr>)))"
proof -
  have m: "ofMode s (Colored ng)" using assms(1) by (simp add: ofMode_def isColored_def)
  obtain stuck history where i: "isSimulationStuck s (Colored ng) (stateHistoryRef st) = (stuck, history)"
    by (cases "isSimulationStuck s (Colored ng) (stateHistoryRef st)")
  have h: "stuck \<Longrightarrow> history = stateHistoryRef st"
    using stuck_history [OF m, of "stateHistoryRef st"] i by simp
  from assms(3) h show ?thesis
    unfolding advanceColored_def recoveryOf_def
    by (auto simp add: assms(2) i hasLive_Colored Let_def split: if_splits sum.splits)
qed

lemma tick_reset_colored:
  assumes "advancing s hst st t" "viewportGrid s hst h w"
    and "color_mode s" "nextGenerationColored s (coloredGrid st) (randomSource st) = Inr (ng, rg0)"
    and "recoveryOf s (\<not> hasLive (Colored ng))
           (fst (isSimulationStuck s (Colored ng) (stateHistoryRef st)))
           (stuckCounterRef st) (fibonacciIndexRef st)
           (length (coloredGrid st) * length (hd (coloredGrid st))) = Reset"
  shows "\<exists>newGrid rg. createRandomColoredGrid s (Some w) (Some h) rg0 = Inr (newGrid, rg) \<and>
           rect newGrid h w \<and>
           gameLoop s hst st t =
             Inr (st\<lparr> stuckCounterRef := 0, stateHistoryRef := [], fibonacciIndexRef := 0,
                     randomSource := rg, coloredGrid := newGrid, targetColoredGrid := [],
                     isFading := False, lastUpdateRef := t \<rparr>, None)"
proof -
  from resetColored_viewport [OF assms(2), of rg0 st t] obtain newGrid rg where
    c: "createRandomColoredGrid s (Some w) (Some h) rg0 = Inr (newGrid, rg)" "rect newGrid h w"
    and r: "resetColored s hst (st\<lparr> randomSource := rg0 \<rparr>) t =
             Inr (st\<lparr> stuckCounterRef := 0, stateHistoryRef := [], fibonacciIndexRef := 0,
                     randomSource := rg, coloredGrid := newGrid, targetColoredGrid := [],
                     isFading := False, lastUpdateRef := t \<rparr>)"
    by blast
  have "gameLoop s hst st t =
             Inr (st\<lparr> stuckCounterRef := 0, stateHistoryRef := [], fibonacciIndexRef := 0,
                     randomSource := rg, coloredGrid := newGrid, targetColoredGrid := [],
                     isFading := False, lastUpdateRef := t \<rparr>, None)"
    unfolding gameLoop_advancing [OF assms(1)] advance_def
    by (simp add: assms(3) advanceColored_reset [OF assms(3,4,5)] r returning_def)
  with c show ?thesis by blast
qed

lemma tick_perturb_plain:
  assumes "advancing s hst st t" "fadeFollows s"
    and "\<not> color_mode s" "nextGeneration s (grid st) = Inr ng"
    and "recoveryOf s (\<not> hasLive (Plain ng))
           (fst (isSimulationStuck s (Plain ng) (stateHistoryRef st)))
           (stuckCounterRef st) (fibonacciIndexRef st)
           (length (grid st) * length (hd (grid st))) = Perturb k"
    and "rect (grid st) h w" "0 < h" "0 < w" "unit_draws (randomSource st)"
  shows "\<exists>flippedGrid rg drawn.
           flipRandomCells ng k (randomSource st) = Inr (flippedGrid, rg) \<and>
           gameLoop s hst st t =
             Inr (st\<lparr> stuckCounterRef := stuckCounterRef st + 1, randomSource := rg,
                     fibonacciIndexRef := fibonacciIndexRef st + 1, targetGrid := flippedGrid,
                     isFading := True, fadeStartTimeRef := t, lastUpdateRef := t \<rparr>, Some drawn)"
proof -
  from nextGeneration_rect [OF assms(6,7,8), of s] assms(4) have ng: "rect ng h w" by auto
  from flipRandomCells_rect [OF ng assms(7,8,9), of k] obtain flippedGrid rg where
    f: "flipRandomCells ng k (randomSource st) = Inr (flippedGrid, rg)" by blast
  from renderGridPlain_returns [OF assms(6,7,8), of s "foregroundColor hst" False] obtain drawn where
    d: "renderGridPlain s (foregroundColor hst) False (grid st) None 1 = Inr drawn" by blast
  from assms(1) have nf: "\<not> isFading st" by (simp add: advancing_def)
  have "gameLoop s hst st t =
             Inr (st\<lparr> stuckCounterRef := stuckCounterRef st + 1, randomSource := rg,
                     fibonacciIndexRef := fibonacciIndexRef st + 1, targetGrid := flippedGrid,
                     isFading := True, fadeStartTimeRef := t, lastUpdateRef := t \<rparr>, Some drawn)"
    unfolding gameLoop_advancing [OF assms(1)] advance_def
    using assms(2) nf
    by (simp add: assms(3) advancePlain_perturb [OF assms(3,4,5)] f fadeFollows_def present_def d Let_def)
  with f show ?thesis by blast
qed

lemma tick_perturb_colored:
  assumes "advancing s hst st t" "fadeFollows s"
    and "color_mode s" "nextGenerationColored s (coloredGrid st) (randomSource st) = Inr (ng, rg0)"
    and "recoveryOf s (\<not> hasLive (Colored ng))
           (fst (isSimulationStuck s (Colored ng) (stateHistoryRef st)))
           (stuckCounterRef st) (fibonacciIndexRef st)
           (length (coloredGrid st) * length (hd (coloredGrid st))) = Perturb k"
    and "rect (coloredGrid st) h w" "0 < h" "0 < w" "unit_draws (randomSource st)"
  shows "\<exists>flippedGrid rg drawn.
           flipRandomCellsColored ng k rg0 = Inr (flippedGrid, rg) \<and>
           gameLoop s hst st t =
             Inr (st\<lparr> stuckCounterRef := stuckCounterRef st + 1, randomSource := rg,
                     fibonacciIndexRef := fibonacciIndexRef st + 1, targetColoredGrid := flippedGrid,
                     isFading := True, fadeStartTimeRef := t, lastUpdateRef := t \<rparr>, Some drawn)"
proof -
  from nextGenerationColored_rect [OF assms(6,7,8), of s "randomSource st"] assms(4)
  have ng: "rect ng h w" by auto
  have u: "unit_draws rg0" by (rule nextGenerationColored_draws [OF assms(4,9)])
  from flipRandomCellsColored_rect [OF ng assms(7,8) u, of k] obtain flippedGrid rg where
    f: "flipRandomCellsColored ng k rg0 = Inr (flippedGrid, rg)" by blast
  from renderGridColored_returns [OF assms(6,7,8), of s "foregroundColor hst" False] obtain drawn where
    d: "renderGridColored s (foregroundColor hst) False (coloredGrid st) None 1 = Inr drawn" by blast
  from assms(1) have nf: "\<not> isFading st" by (simp add: advancing_def)
  have "gameLoop s hst st t =
             Inr (st\<lparr> stuckCounterRef := stuckCounterRef st + 1, randomSource := rg,
                     fibonacciIndexRef := fibonacciIndexRef st + 1, targetColoredGrid := flippedGrid,
                     isFading := True, fadeStartTimeRef := t, lastUpdateRef := t \<rparr>, Some drawn)"
    unfolding gameLoop_advancing [OF assms(1)] advance_def
    using assms(2) nf
    by (simp add: assms(3) advanceColored_perturb [OF assms(3,4,5)] f fadeFollows_def present_def d Let_def)
  with f show ?thesis by blast
qed


section \<open>The claims\<close>

subsection \<open>One generation\<close>

text \<open>
  Claim C1. On a rectangular grid of height and width at least 1, the cell \<open>(x, y)\<close> of
  the grid that \<^verbatim>\<open>nextGeneration\<close> returns is alive if and only if the birth and
  survival rule holds of the input cell and the number of its live neighbours
  (coordinates modulo height and width under wrapping, neighbours outside the grid not
  counted otherwise). The same holds of the \<^verbatim>\<open>alive\<close> field in the grid that
  \<^verbatim>\<open>nextGenerationColored\<close> returns, on the coloured grids of the program: those in
  which a cell carries a colour and an age exactly when it is alive. A cell for which the
  rule fails is dead. Both functions return a grid.
\<close>

theorem life_rule:
  assumes "0 < h" "0 < w" "x < h" "y < w"
  shows "(rect pg h w \<longrightarrow>
            (\<exists>g'. nextGeneration s pg = Inr g' \<and>
               liveAt g' x y =
                 lifeRule (liveAt pg x y) (liveNeighbors (edge_wrapping s) h w (liveAt pg) x y))) \<and>
         (rect cg h w \<and> gridInvariant cg \<longrightarrow>
            (\<exists>g' rg'. nextGenerationColored s cg rg = Inr (g', rg') \<and>
               aliveAt g' x y =
                 lifeRule (aliveAt cg x y)
                   (liveNeighbors (edge_wrapping s) h w (aliveAt cg) x y)))"
proof (intro conjI impI)
  assume r: "rect pg h w"
  have e: "liveAt pg = (\<lambda>a b. pg ! a ! b)" by (simp add: liveAt_def fun_eq_iff)
  from nextGeneration_rect [OF r assms(1,2), of s] assms(3,4)
  show "\<exists>g'. nextGeneration s pg = Inr g' \<and>
          liveAt g' x y = lifeRule (liveAt pg x y) (liveNeighbors (edge_wrapping s) h w (liveAt pg) x y)"
    unfolding e by (auto simp: liveAt_def)
next
  assume a: "rect cg h w \<and> gridInvariant cg"
  then have r: "rect cg h w" and i: "gridInvariant cg" by auto
  from i have l: "liveCellsColored cg"
    unfolding gridInvariant_def liveCellsColored_def cellInvariant_def by blast
  have e: "coloredAliveAt cg = (\<lambda>a b. alive (cg ! a ! b) \<and> color (cg ! a ! b) \<noteq> None)"
    by (simp add: coloredAliveAt_def fun_eq_iff)
  have c: "liveNeighbors (edge_wrapping s) h w (coloredAliveAt cg) x y =
           liveNeighbors (edge_wrapping s) h w (aliveAt cg) x y"
    by (rule liveNeighbors_cong [OF assms(1,2)]) (rule liveCellsColored_nth [OF r l])
  from nextGenerationColored_rect [OF r assms(1,2), of s rg] assms(3,4)
  show "\<exists>g' rg'. nextGenerationColored s cg rg = Inr (g', rg') \<and>
          aliveAt g' x y =
            lifeRule (aliveAt cg x y) (liveNeighbors (edge_wrapping s) h w (aliveAt cg) x y)"
    unfolding c [symmetric] e by (auto simp: aliveAt_def stepped_def)
qed

theorem life_rule_witness:
  "(\<exists>g'. nextGeneration DEFAULT_SETTINGS [[True, True, False]] = Inr g' \<and>
      liveAt g' 0 1 =
        lifeRule (liveAt [[True, True, False]] 0 1)
          (liveNeighbors (edge_wrapping DEFAULT_SETTINGS) 1 3 (liveAt [[True, True, False]]) 0 1)) \<and>
   (\<exists>g' rg'. nextGenerationColored DEFAULT_SETTINGS
       [[\<lparr> alive = True, color = Some DEFAULT_FOREGROUND, age = Some 1 \<rparr>,
         \<lparr> alive = True, color = Some DEFAULT_FOREGROUND, age = Some 2 \<rparr>,
         \<lparr> alive = False, color = None, age = None \<rparr>]] (\<lambda>k. 1 / 2, 0) = Inr (g', rg') \<and>
      aliveAt g' 0 1 =
        lifeRule
          (aliveAt [[\<lparr> alive = True, color = Some DEFAULT_FOREGROUND, age = Some 1 \<rparr>,
                     \<lparr> alive = True, color = Some DEFAULT_FOREGROUND, age = Some 2 \<rparr>,
                     \<lparr> alive = False, color = None, age = None \<rparr>]] 0 1)
          (liveNeighbors (edge_wrapping DEFAULT_SETTINGS) 1 3
             (aliveAt [[\<lparr> alive = True, color = Some DEFAULT_FOREGROUND, age = Some 1 \<rparr>,
                        \<lparr> alive = True, color = Some DEFAULT_FOREGROUND, age = Some 2 \<rparr>,
                        \<lparr> alive = False, color = None, age = None \<rparr>]]) 0 1))"
proof -
  let ?pg = "[[True, True, False]]"
  let ?cg = "[[\<lparr> alive = True, color = Some DEFAULT_FOREGROUND, age = Some 1 \<rparr>,
               \<lparr> alive = True, color = Some DEFAULT_FOREGROUND, age = Some 2 \<rparr>,
               \<lparr> alive = False, color = None, age = None \<rparr>]]"
  have p: "0 < (1::nat)" "0 < (3::nat)" "(0::nat) < 1" "(1::nat) < 3" by simp_all
  have r1: "rect ?pg 1 3" by (simp add: rect_def)
  have r2: "rect ?cg 1 3 \<and> gridInvariant ?cg"
    by (simp add: rect_def gridInvariant_def cellInvariant_def)
  from life_rule [OF p, of ?pg DEFAULT_SETTINGS ?cg "(\<lambda>k. 1 / 2, 0)"] r1 r2
  show ?thesis by blast
qed

subsection \<open>The cell invariant\<close>

text \<open>
  Claim C9. Every grid that \<^verbatim>\<open>createRandomColoredGrid\<close> returns satisfies the cell
  invariant (colour and age are present exactly when the cell is alive), and it returns a
  grid of the given size for every width and height that are array lengths. On a
  rectangular grid of height and width at least 1 that satisfies the invariant,
  \<^verbatim>\<open>nextGenerationColored\<close> and, for draws of \<^verbatim>\<open>Math.random\<close> in \<open>[0, 1)\<close>,
  \<^verbatim>\<open>flipRandomCellsColored\<close> return a grid that satisfies it.
\<close>

theorem cell_invariant_maintained:
  "(\<forall>g1 rg1. createRandomColoredGrid s width height rg = Inr (g1, rg1) \<longrightarrow> gridInvariant g1) \<and>
   (w < 2 ^ 32 \<and> h < 2 ^ 32 \<longrightarrow>
      (\<exists>g1 rg1. createRandomColoredGrid s (Some w) (Some h) rg = Inr (g1, rg1) \<and> rect g1 h w)) \<and>
   (rect cg h w \<and> 0 < h \<and> 0 < w \<and> gridInvariant cg \<longrightarrow>
      (\<exists>g' rg'. nextGenerationColored s cg rg = Inr (g', rg') \<and> gridInvariant g')) \<and>
   (rect cg h w \<and> 0 < h \<and> 0 < w \<and> gridInvariant cg \<and> unit_draws rg \<longrightarrow>
      (\<exists>g' rg'. flipRandomCellsColored cg n rg = Inr (g', rg') \<and> gridInvariant g'))"
proof (intro conjI allI impI)
  fix g1 rg1
  assume "createRandomColoredGrid s width height rg = Inr (g1, rg1)"
  then show "gridInvariant g1" by (rule createRandomColoredGrid_produces)
next
  assume "w < 2 ^ 32 \<and> h < 2 ^ 32"
  then show "\<exists>g1 rg1. createRandomColoredGrid s (Some w) (Some h) rg = Inr (g1, rg1) \<and> rect g1 h w"
    using createRandomColoredGrid_invariant [of w h s rg] by blast
next
  assume "rect cg h w \<and> 0 < h \<and> 0 < w \<and> gridInvariant cg"
  then show "\<exists>g' rg'. nextGenerationColored s cg rg = Inr (g', rg') \<and> gridInvariant g'"
    using nextGenerationColored_invariant [of cg h w s rg] by blast
next
  assume "rect cg h w \<and> 0 < h \<and> 0 < w \<and> gridInvariant cg \<and> unit_draws rg"
  then show "\<exists>g' rg'. flipRandomCellsColored cg n rg = Inr (g', rg') \<and> gridInvariant g'"
    using flipRandomCellsColored_rect [of cg h w rg n] by blast
qed

theorem cell_invariant_maintained_witness:
  "(\<exists>g1 rg1. createRandomColoredGrid DEFAULT_SETTINGS (Some 2) (Some 1) (\<lambda>k. 1 / 4, 0) = Inr (g1, rg1) \<and>
      rect g1 1 2 \<and> gridInvariant g1) \<and>
   (\<exists>g' rg'. nextGenerationColored DEFAULT_SETTINGS
       [[\<lparr> alive = True, color = Some DEFAULT_FOREGROUND, age = Some 1 \<rparr>,
         \<lparr> alive = False, color = None, age = None \<rparr>]] (\<lambda>k. 1 / 4, 0) = Inr (g', rg') \<and>
      gridInvariant g') \<and>
   (\<exists>g' rg'. flipRandomCellsColored
       [[\<lparr> alive = True, color = Some DEFAULT_FOREGROUND, age = Some 1 \<rparr>,
         \<lparr> alive = False, color = None, age = None \<rparr>]] 2 (\<lambda>k. 1 / 4, 0) = Inr (g', rg') \<and>
      gridInvariant g')"
proof -
  let ?cg = "[[\<lparr> alive = True, color = Some DEFAULT_FOREGROUND, age = Some 1 \<rparr>,
         \<lparr> alive = False, color = None, age = None \<rparr>]]"
  have pre: "rect ?cg 1 2 \<and> 0 < (1::nat) \<and> 0 < (2::nat) \<and> gridInvariant ?cg \<and> unit_draws (\<lambda>k. 1 / 4, 0)"
    by (simp add: rect_def gridInvariant_def cellInvariant_def unit_draws_def)
  have lt: "(2::nat) < 2 ^ 32 \<and> (1::nat) < 2 ^ 32" by simp
  from cell_invariant_maintained [of DEFAULT_SETTINGS "Some 2" "Some 1" "(\<lambda>k. 1 / 4, 0)" 2 1 ?cg 2]
    pre lt
  show ?thesis by blast
qed

subsection \<open>Dimensions\<close>

text \<open>
  Claim C10. For a rectangular grid of height and width at least 1 and every count \<open>n\<close>,
  \<^verbatim>\<open>nextGeneration\<close>, \<^verbatim>\<open>nextGenerationColored\<close>, \<^verbatim>\<open>flipRandomCells\<close> and
  \<^verbatim>\<open>flipRandomCellsColored\<close> return a grid of the same height and width. The draws of
  \<^verbatim>\<open>Math.random\<close> lie in \<open>[0, 1)\<close>.
\<close>

theorem dimensions_preserved:
  assumes "0 < h" "0 < w" "unit_draws rg" "rect pg h w" "rect cg h w"
  shows "(\<exists>g'. nextGeneration s pg = Inr g' \<and> rect g' h w) \<and>
         (\<exists>g' rg'. nextGenerationColored s cg rg = Inr (g', rg') \<and> rect g' h w) \<and>
         (\<exists>g' rg'. flipRandomCells pg n rg = Inr (g', rg') \<and> rect g' h w) \<and>
         (\<exists>g' rg'. flipRandomCellsColored cg n rg = Inr (g', rg') \<and> rect g' h w)"
proof (intro conjI)
  show "\<exists>g'. nextGeneration s pg = Inr g' \<and> rect g' h w"
    using nextGeneration_rect [OF assms(4,1,2), of s] by blast
  show "\<exists>g' rg'. nextGenerationColored s cg rg = Inr (g', rg') \<and> rect g' h w"
    using nextGenerationColored_rect [OF assms(5,1,2), of s rg] by blast
  show "\<exists>g' rg'. flipRandomCells pg n rg = Inr (g', rg') \<and> rect g' h w"
    using flipRandomCells_rect [OF assms(4,1,2,3)] by blast
  show "\<exists>g' rg'. flipRandomCellsColored cg n rg = Inr (g', rg') \<and> rect g' h w"
    using flipRandomCellsColored_rect [OF assms(5,1,2,3), of n] by blast
qed

theorem dimensions_preserved_witness:
  "(\<exists>g'. nextGeneration DEFAULT_SETTINGS [[True, True], [False, True]] = Inr g' \<and> rect g' 2 2) \<and>
   (\<exists>g' rg'. nextGenerationColored DEFAULT_SETTINGS
       [[\<lparr> alive = True, color = Some DEFAULT_FOREGROUND, age = Some 1 \<rparr>,
         \<lparr> alive = False, color = None, age = None \<rparr>],
        [\<lparr> alive = False, color = None, age = None \<rparr>,
         \<lparr> alive = False, color = None, age = None \<rparr>]] (\<lambda>k. 1 / 2, 0) = Inr (g', rg') \<and> rect g' 2 2) \<and>
   (\<exists>g' rg'. flipRandomCells [[True, True], [False, True]] 3 (\<lambda>k. 1 / 2, 0) = Inr (g', rg') \<and> rect g' 2 2) \<and>
   (\<exists>g' rg'. flipRandomCellsColored
       [[\<lparr> alive = True, color = Some DEFAULT_FOREGROUND, age = Some 1 \<rparr>,
         \<lparr> alive = False, color = None, age = None \<rparr>],
        [\<lparr> alive = False, color = None, age = None \<rparr>,
         \<lparr> alive = False, color = None, age = None \<rparr>]] 3 (\<lambda>k. 1 / 2, 0) = Inr (g', rg') \<and> rect g' 2 2)"
proof -
  have p: "0 < (2::nat)" by simp
  have u: "unit_draws (\<lambda>k. 1 / 2, 0)" by (simp add: unit_draws_def)
  have r1: "rect [[True, True], [False, True]] 2 2" by (simp add: rect_def)
  have r2: "rect [[\<lparr> alive = True, color = Some DEFAULT_FOREGROUND, age = Some 1 \<rparr>,
         \<lparr> alive = False, color = None, age = None \<rparr>],
        [\<lparr> alive = False, color = None, age = None \<rparr>,
         \<lparr> alive = False, color = None, age = None \<rparr>]] 2 2" by (simp add: rect_def)
  show ?thesis by (rule dimensions_preserved [OF p p u r1 r2])
qed

subsection \<open>Saturation\<close>

text \<open>
  Claim C7. With \<^verbatim>\<open>max_saturation_age\<close> in its range (positive): for every colour
  with integer channels in \<open>[0, 255]\<close>, \<^verbatim>\<open>enhanceColorSaturation(color, 0)\<close> is the
  colour itself; and for every age that is at least \<^verbatim>\<open>max_saturation_age\<close>, the factor
  that scales each channel's distance from the mean of the channels is exactly
  \<open>1 + saturation_factor\<close>, before the clamp to \<open>[0, 255]\<close> and the rounding.
\<close>

theorem saturation_at_age_bounds:
  assumes "0 < max_saturation_age s"
  shows "(0 \<le> r c \<and> r c \<le> 255 \<and> 0 \<le> g c \<and> g c \<le> 255 \<and> 0 \<le> b c \<and> b c \<le> 255 \<longrightarrow>
            enhanceColorSaturation s c 0 = c) \<and>
         (max_saturation_age s \<le> of_nat ag \<longrightarrow>
            saturationScale s ag = 1 + saturation_factor s \<and>
            enhanceColorSaturation s c ag =
              \<lparr> r = enhanceChannel (of_int (r c + g c + b c) / 3) (1 + saturation_factor s) (r c),
                g = enhanceChannel (of_int (r c + g c + b c) / 3) (1 + saturation_factor s) (g c),
                b = enhanceChannel (of_int (r c + g c + b c) / 3) (1 + saturation_factor s) (b c) \<rparr>)"
  using assms
  by (simp add: enhanceColorSaturation_def Let_def saturationScale_zero saturationScale_max
      enhanceChannel_one)

theorem saturation_at_age_bounds_witness:
  "enhanceColorSaturation DEFAULT_SETTINGS \<lparr> r = 200, g = 100, b = 0 \<rparr> 0 = \<lparr> r = 200, g = 100, b = 0 \<rparr> \<and>
   saturationScale DEFAULT_SETTINGS 20 = 1 + saturation_factor DEFAULT_SETTINGS \<and>
   enhanceColorSaturation DEFAULT_SETTINGS \<lparr> r = 200, g = 100, b = 0 \<rparr> 20 = \<lparr> r = 230, g = 100, b = 0 \<rparr>"
proof -
  have m: "0 < max_saturation_age DEFAULT_SETTINGS" by (simp add: DEFAULT_SETTINGS_def)
  have a: "max_saturation_age DEFAULT_SETTINGS \<le> of_nat 20" by (simp add: DEFAULT_SETTINGS_def)
  have e: "enhanceChannel (of_int (200 + 100 + 0) / 3) (1 + saturation_factor DEFAULT_SETTINGS) 200 = 230"
     "enhanceChannel (of_int (200 + 100 + 0) / 3) (1 + saturation_factor DEFAULT_SETTINGS) 100 = 100"
     "enhanceChannel (of_int (200 + 100 + 0) / 3) (1 + saturation_factor DEFAULT_SETTINGS) 0 = 0"
    by code_simp+
  from saturation_at_age_bounds [OF m, of "\<lparr> r = 200, g = 100, b = 0 \<rparr>" 20] a e
  show ?thesis by simp
qed

subsection \<open>Averages\<close>

text \<open>
  Claim C8. When all ages are equal, \<^verbatim>\<open>averageColorsWeighted(colors, ages)\<close> is
  \<^verbatim>\<open>averageColors(colors)\<close>: for every list of colours, empty or not, and every list
  of ages, of the same length or not.
\<close>

theorem equal_ages_average:
  assumes "\<forall>a \<in> set ages. a = k"
  shows "averageColorsWeighted colors ages = averageColors colors"
proof (cases "length colors = 0 \<or> length colors \<noteq> length ages")
  case True
  then show ?thesis by (auto simp: averageColorsWeighted_def averageColors_def)
next
  case False
  then have len: "length colors = length ages" and pos: "0 < length colors" by auto
  have w: "0 < weightOf k" by (simp add: weightOf_def)
  have q: "(of_int (x * int (weightOf k)) :: rat) / of_nat (length ages * weightOf k) =
           of_int x / of_nat (length ages)" for x
    using weighted_quotient [OF pos w] len by simp
  show ?thesis
    using False
    by (simp add: averageColorsWeighted_def averageColors_def fold_sum_colors
        fold_weighted_colors [OF assms len] Let_def q del: of_int_mult of_nat_mult)
qed

theorem equal_ages_average_witness:
  "averageColorsWeighted [\<lparr> r = 10, g = 20, b = 30 \<rparr>, \<lparr> r = 255, g = 0, b = 31 \<rparr>] [4, 4] =
   averageColors [\<lparr> r = 10, g = 20, b = 30 \<rparr>, \<lparr> r = 255, g = 0, b = 31 \<rparr>]"
proof -
  have "\<forall>a \<in> set [4, 4 :: nat]. a = 4" by simp
  then show ?thesis by (rule equal_ages_average)
qed

subsection \<open>The stuck detector\<close>

text \<open>
  Claim C4. After any run of the detector from the empty history, on grids of the mode of
  the settings, the history is the last ten fingerprints of the record of the run, and a
  further call on a grid with a live cell returns true if and only if the fingerprint of
  the grid is among these. So a fingerprint that the record holds only at the eleventh
  place from its end or before is not flagged; and after the call, on any grid of the mode,
  the history has at most ten entries.
\<close>

theorem stuck_iff_recent_fingerprint:
  assumes "\<forall>g1 \<in> set grids. ofMode s g1" "ofMode s gr"
  shows "fst (detectorRun s grids) = lastN 10 (snd (detectorRun s grids)) \<and>
         (hasLive gr \<longrightarrow>
            fst (isSimulationStuck s gr (fst (detectorRun s grids))) =
              (fingerprint gr \<in> set (lastN 10 (snd (detectorRun s grids))))) \<and>
         length (snd (isSimulationStuck s gr (fst (detectorRun s grids)))) \<le> 10"
proof -
  note inv = detectorRun_invariant [OF assms(1)]
  have "length (fst (detectorRun s grids)) \<le> 10"
    unfolding inv by (rule lastN_length)
  then have "length (snd (isSimulationStuck s gr (fst (detectorRun s grids)))) \<le> 10"
    by (auto simp: isSimulationStuck_ofMode [OF assms(2)])
  moreover have "hasLive gr \<longrightarrow>
            fst (isSimulationStuck s gr (fst (detectorRun s grids))) =
              (fingerprint gr \<in> set (lastN 10 (snd (detectorRun s grids))))"
    by (simp add: isSimulationStuck_ofMode [OF assms(2)] inv [symmetric])
  ultimately show ?thesis using inv by blast
qed


theorem stuck_iff_recent_fingerprint_witness:
  "fst (isSimulationStuck standardSettings (Plain [[True, False, False, False]])
          (fst (detectorRun standardSettings elevenGrids))) =
     (fingerprint (Plain [[True, False, False, False]]) \<in>
        set (lastN 10 (snd (detectorRun standardSettings elevenGrids)))) \<and>
   \<not> fst (isSimulationStuck standardSettings (Plain [[True, False, False, False]])
            (fst (detectorRun standardSettings elevenGrids))) \<and>
   fingerprint (Plain [[True, False, False, False]]) \<in>
     set (snd (detectorRun standardSettings elevenGrids)) \<and>
   fst (isSimulationStuck standardSettings (Plain [[False, True, False, False]])
          (fst (detectorRun standardSettings elevenGrids))) \<and>
   length (snd (isSimulationStuck standardSettings (Plain [[True, False, False, False]])
                  (fst (detectorRun standardSettings elevenGrids)))) \<le> 10"
proof -
  have m: "\<forall>g1 \<in> set elevenGrids. ofMode standardSettings g1" by code_simp
  have g: "ofMode standardSettings (Plain [[True, False, False, False]])" by code_simp
  have l: "hasLive (Plain [[True, False, False, False]])" by code_simp
  have e: "\<not> fst (isSimulationStuck standardSettings (Plain [[True, False, False, False]])
            (fst (detectorRun standardSettings elevenGrids)))" by code_simp
  have f: "fingerprint (Plain [[True, False, False, False]]) \<in>
     set (snd (detectorRun standardSettings elevenGrids))" by code_simp
  have s2: "fst (isSimulationStuck standardSettings (Plain [[False, True, False, False]])
          (fst (detectorRun standardSettings elevenGrids)))" by code_simp
  from stuck_iff_recent_fingerprint [OF m g] l e f s2 show ?thesis by blast
qed

subsection \<open>The fade\<close>

text \<open>
  Claim C6. A faded render is a call of \<^verbatim>\<open>renderGrid\<close> with a target grid while
  \<^verbatim>\<open>isFading\<close> is set and \<^verbatim>\<open>fade_amount\<close> is positive. For a current and a target grid
  of the same height and width, both at least 1: at progress 0 it draws exactly what
  \<^verbatim>\<open>renderGrid\<close> draws for the current grid alone, and at progress 1 exactly what it
  draws for the target grid alone, cell by cell, in position, colour and opacity, in colour
  mode and in standard mode. Both renders return.
\<close>

theorem fade_endpoints:
  assumes "0 < fade_amount s" "0 < h" "0 < w"
  shows "(rect cur h w \<and> rect tgt h w \<longrightarrow>
            renderGridColored s fg True cur (Some tgt) 0 = renderGridColored s fg fading cur None 1 \<and>
            renderGridColored s fg True cur (Some tgt) 1 = renderGridColored s fg fading tgt None 1 \<and>
            (\<exists>drawn. renderGridColored s fg fading cur None 1 = Inr drawn) \<and>
            (\<exists>drawn. renderGridColored s fg fading tgt None 1 = Inr drawn)) \<and>
         (rect pcur h w \<and> rect ptgt h w \<longrightarrow>
            renderGridPlain s fg True pcur (Some ptgt) 0 = renderGridPlain s fg fading pcur None 1 \<and>
            renderGridPlain s fg True pcur (Some ptgt) 1 = renderGridPlain s fg fading ptgt None 1 \<and>
            (\<exists>drawn. renderGridPlain s fg fading pcur None 1 = Inr drawn) \<and>
            (\<exists>drawn. renderGridPlain s fg fading ptgt None 1 = Inr drawn))"
proof (intro conjI impI)
  assume a: "rect cur h w \<and> rect tgt h w"
  then have c: "rect cur h w" and t: "rect tgt h w" by auto
  show "renderGridColored s fg True cur (Some tgt) 0 = renderGridColored s fg fading cur None 1"
    unfolding renderGridColored_loops [OF c assms(2)]
    by (intro foldE_cong) (simp add: renderCellColored_start [OF assms(1) c t assms(2,3)])
  show "renderGridColored s fg True cur (Some tgt) 1 = renderGridColored s fg fading tgt None 1"
    unfolding renderGridColored_loops [OF c assms(2)] renderGridColored_loops [OF t assms(2)]
    by (intro foldE_cong) (simp add: renderCellColored_end [OF assms(1) c t assms(2,3)])
  show "\<exists>drawn. renderGridColored s fg fading cur None 1 = Inr drawn"
    by (rule renderGridColored_returns [OF c assms(2,3)])
  show "\<exists>drawn. renderGridColored s fg fading tgt None 1 = Inr drawn"
    by (rule renderGridColored_returns [OF t assms(2,3)])
next
  assume a: "rect pcur h w \<and> rect ptgt h w"
  then have c: "rect pcur h w" and t: "rect ptgt h w" by auto
  show "renderGridPlain s fg True pcur (Some ptgt) 0 = renderGridPlain s fg fading pcur None 1"
    unfolding renderGridPlain_loops [OF c assms(2)]
    by (intro foldE_cong) (simp add: renderCellPlain_start [OF assms(1) c t assms(2,3)])
  show "renderGridPlain s fg True pcur (Some ptgt) 1 = renderGridPlain s fg fading ptgt None 1"
    unfolding renderGridPlain_loops [OF c assms(2)] renderGridPlain_loops [OF t assms(2)]
    by (intro foldE_cong) (simp add: renderCellPlain_end [OF assms(1) c t assms(2,3)])
  show "\<exists>drawn. renderGridPlain s fg fading pcur None 1 = Inr drawn"
    by (rule renderGridPlain_returns [OF c assms(2,3)])
  show "\<exists>drawn. renderGridPlain s fg fading ptgt None 1 = Inr drawn"
    by (rule renderGridPlain_returns [OF t assms(2,3)])
qed

theorem fade_endpoints_witness:
  "renderGridColored DEFAULT_SETTINGS DEFAULT_FOREGROUND True
     [[\<lparr> alive = True, color = Some \<lparr> r = 10, g = 20, b = 30 \<rparr>, age = Some 1 \<rparr>,
       \<lparr> alive = False, color = None, age = None \<rparr>]]
     (Some [[\<lparr> alive = False, color = None, age = None \<rparr>,
             \<lparr> alive = True, color = Some \<lparr> r = 200, g = 0, b = 7 \<rparr>, age = Some 3 \<rparr>]]) 0 =
   renderGridColored DEFAULT_SETTINGS DEFAULT_FOREGROUND False
     [[\<lparr> alive = True, color = Some \<lparr> r = 10, g = 20, b = 30 \<rparr>, age = Some 1 \<rparr>,
       \<lparr> alive = False, color = None, age = None \<rparr>]] None 1 \<and>
   renderGridColored DEFAULT_SETTINGS DEFAULT_FOREGROUND True
     [[\<lparr> alive = True, color = Some \<lparr> r = 10, g = 20, b = 30 \<rparr>, age = Some 1 \<rparr>,
       \<lparr> alive = False, color = None, age = None \<rparr>]]
     (Some [[\<lparr> alive = False, color = None, age = None \<rparr>,
             \<lparr> alive = True, color = Some \<lparr> r = 200, g = 0, b = 7 \<rparr>, age = Some 3 \<rparr>]]) 1 =
   renderGridColored DEFAULT_SETTINGS DEFAULT_FOREGROUND False
     [[\<lparr> alive = False, color = None, age = None \<rparr>,
       \<lparr> alive = True, color = Some \<lparr> r = 200, g = 0, b = 7 \<rparr>, age = Some 3 \<rparr>]] None 1 \<and>
   renderGridPlain standardSettings DEFAULT_FOREGROUND True [[True, False, False]]
     (Some [[False, False, True]]) 0 =
   renderGridPlain standardSettings DEFAULT_FOREGROUND False [[True, False, False]] None 1 \<and>
   renderGridPlain standardSettings DEFAULT_FOREGROUND True [[True, False, False]]
     (Some [[False, False, True]]) 1 =
   renderGridPlain standardSettings DEFAULT_FOREGROUND False [[False, False, True]] None 1"
proof -
  let ?cur = "[[\<lparr> alive = True, color = Some \<lparr> r = 10, g = 20, b = 30 \<rparr>, age = Some 1 \<rparr>,
       \<lparr> alive = False, color = None, age = None \<rparr>]]"
  let ?tgt = "[[\<lparr> alive = False, color = None, age = None \<rparr>,
             \<lparr> alive = True, color = Some \<lparr> r = 200, g = 0, b = 7 \<rparr>, age = Some 3 \<rparr>]]"
  have f: "0 < fade_amount DEFAULT_SETTINGS" "0 < fade_amount standardSettings"
    by (simp_all add: DEFAULT_SETTINGS_def standardSettings_def)
  have p: "0 < (1::nat)" "0 < (2::nat)" "0 < (3::nat)" by simp_all
  have r: "rect ?cur 1 2 \<and> rect ?tgt 1 2" by (simp add: rect_def)
  have q: "rect [[True, False, False]] 1 3 \<and> rect [[False, False, True]] 1 3" by (simp add: rect_def)
  from fade_endpoints [OF f(1) p(1,2), where cur = ?cur and tgt = ?tgt and fg = DEFAULT_FOREGROUND
          and fading = False] r
       fade_endpoints [OF f(2) p(1,3), where pcur = "[[True, False, False]]"
          and ptgt = "[[False, False, True]]" and fg = DEFAULT_FOREGROUND and fading = False] q
  show ?thesis by blast
qed

subsection \<open>Extinction\<close>

text \<open>
  Claim C2. In a tick that computes a generation, when the proposed next grid has no live
  cell, the tick performs a full reset: a fresh random grid of the dimensions that the
  viewport gives becomes the grid of the state, the history is empty, and
  \<^verbatim>\<open>stuckCounter\<close> and \<^verbatim>\<open>fibonacciIndex\<close> are zero. The settings are arbitrary, so
  this holds for every combination of \<^verbatim>\<open>hard_reset_on_stuck\<close> and
  \<^verbatim>\<open>try_revive_stuck_sim\<close>; the witness has both off.
\<close>

theorem extinction_resets:
  assumes "advancing s hst st t" "viewportGrid s hst h w"
  shows "(\<not> color_mode s \<and> nextGeneration s (grid st) = Inr ng \<and> \<not> hasLive (Plain ng) \<longrightarrow>
            (\<exists>newGrid rg st'.
               createRandomGrid s (Some w) (Some h) (randomSource st) = Inr (newGrid, rg) \<and>
               rect newGrid h w \<and>
               gameLoop s hst st t = Inr (st', None) \<and>
               grid st' = newGrid \<and> stateHistoryRef st' = [] \<and>
               stuckCounterRef st' = 0 \<and> fibonacciIndexRef st' = 0)) \<and>
         (color_mode s \<and>
          nextGenerationColored s (coloredGrid st) (randomSource st) = Inr (cng, rg0) \<and>
          \<not> hasLive (Colored cng) \<longrightarrow>
            (\<exists>newGrid rg st'.
               createRandomColoredGrid s (Some w) (Some h) rg0 = Inr (newGrid, rg) \<and>
               rect newGrid h w \<and>
               gameLoop s hst st t = Inr (st', None) \<and>
               coloredGrid st' = newGrid \<and> stateHistoryRef st' = [] \<and>
               stuckCounterRef st' = 0 \<and> fibonacciIndexRef st' = 0))"
proof (intro conjI impI)
  assume a: "\<not> color_mode s \<and> nextGeneration s (grid st) = Inr ng \<and> \<not> hasLive (Plain ng)"
  then have "recoveryOf s (\<not> hasLive (Plain ng))
           (fst (isSimulationStuck s (Plain ng) (stateHistoryRef st)))
           (stuckCounterRef st) (fibonacciIndexRef st)
           (length (grid st) * length (hd (grid st))) = Reset"
    by (simp add: recoveryOf_def)
  from tick_reset_plain [OF assms _ _ this] a
  obtain newGrid rg where
    "createRandomGrid s (Some w) (Some h) (randomSource st) = Inr (newGrid, rg)" "rect newGrid h w"
    "gameLoop s hst st t =
             Inr (st\<lparr> stuckCounterRef := 0, stateHistoryRef := [], fibonacciIndexRef := 0,
                     randomSource := rg, grid := newGrid, targetGrid := [], isFading := False,
                     lastUpdateRef := t \<rparr>, None)"
    by blast
  then show "\<exists>newGrid rg st'.
               createRandomGrid s (Some w) (Some h) (randomSource st) = Inr (newGrid, rg) \<and>
               rect newGrid h w \<and>
               gameLoop s hst st t = Inr (st', None) \<and>
               grid st' = newGrid \<and> stateHistoryRef st' = [] \<and>
               stuckCounterRef st' = 0 \<and> fibonacciIndexRef st' = 0"
    by simp
next
  assume a: "color_mode s \<and>
          nextGenerationColored s (coloredGrid st) (randomSource st) = Inr (cng, rg0) \<and>
          \<not> hasLive (Colored cng)"
  then have "recoveryOf s (\<not> hasLive (Colored cng))
           (fst (isSimulationStuck s (Colored cng) (stateHistoryRef st)))
           (stuckCounterRef st) (fibonacciIndexRef st)
           (length (coloredGrid st) * length (hd (coloredGrid st))) = Reset"
    by (simp add: recoveryOf_def)
  from tick_reset_colored [OF assms _ _ this] a
  obtain newGrid rg where
    "createRandomColoredGrid s (Some w) (Some h) rg0 = Inr (newGrid, rg)" "rect newGrid h w"
    "gameLoop s hst st t =
             Inr (st\<lparr> stuckCounterRef := 0, stateHistoryRef := [], fibonacciIndexRef := 0,
                     randomSource := rg, coloredGrid := newGrid, targetColoredGrid := [],
                     isFading := False, lastUpdateRef := t \<rparr>, None)"
    by blast
  then show "\<exists>newGrid rg st'.
               createRandomColoredGrid s (Some w) (Some h) rg0 = Inr (newGrid, rg) \<and>
               rect newGrid h w \<and>
               gameLoop s hst st t = Inr (st', None) \<and>
               coloredGrid st' = newGrid \<and> stateHistoryRef st' = [] \<and>
               stuckCounterRef st' = 0 \<and> fibonacciIndexRef st' = 0"
    by simp
qed

theorem extinction_resets_witness:
  "(\<exists>newGrid rg st'.
      createRandomGrid (standardSettings\<lparr> try_revive_stuck_sim := False \<rparr>) (Some 1) (Some 1)
        (randomSource oneCellSimulation) = Inr (newGrid, rg) \<and>
      rect newGrid 1 1 \<and>
      gameLoop (standardSettings\<lparr> try_revive_stuck_sim := False \<rparr>) oneCellHost oneCellSimulation 5000 =
        Inr (st', None) \<and>
      grid st' = newGrid \<and> stateHistoryRef st' = [] \<and>
      stuckCounterRef st' = 0 \<and> fibonacciIndexRef st' = 0) \<and>
   (\<exists>rg0 newGrid rg st'.
      nextGenerationColored DEFAULT_SETTINGS (coloredGrid oneCellColoredSimulation)
        (randomSource oneCellColoredSimulation) =
        Inr ([[\<lparr> alive = False, color = None, age = None \<rparr>]], rg0) \<and>
      createRandomColoredGrid DEFAULT_SETTINGS (Some 1) (Some 1) rg0 = Inr (newGrid, rg) \<and>
      rect newGrid 1 1 \<and>
      gameLoop DEFAULT_SETTINGS oneCellHost oneCellColoredSimulation 5000 = Inr (st', None) \<and>
      coloredGrid st' = newGrid \<and> stateHistoryRef st' = [] \<and>
      stuckCounterRef st' = 0 \<and> fibonacciIndexRef st' = 0)"
proof -
  let ?s = "standardSettings\<lparr> try_revive_stuck_sim := False \<rparr>"
  have a1: "advancing ?s oneCellHost oneCellSimulation 5000" by code_simp
  have v1: "viewportGrid ?s oneCellHost 1 1" by code_simp
  have p1: "\<not> color_mode ?s \<and> nextGeneration ?s (grid oneCellSimulation) = Inr [[False]] \<and>
            \<not> hasLive (Plain [[False]])" by code_simp
  have a2: "advancing DEFAULT_SETTINGS oneCellHost oneCellColoredSimulation 5000" by code_simp
  have v2: "viewportGrid DEFAULT_SETTINGS oneCellHost 1 1" by code_simp
  have "map_sum id fst (nextGenerationColored DEFAULT_SETTINGS (coloredGrid oneCellColoredSimulation)
          (randomSource oneCellColoredSimulation)) = Inr [[\<lparr> alive = False, color = None, age = None \<rparr>]]"
    by code_simp
  then obtain rg0 where n: "nextGenerationColored DEFAULT_SETTINGS (coloredGrid oneCellColoredSimulation)
          (randomSource oneCellColoredSimulation) = Inr ([[\<lparr> alive = False, color = None, age = None \<rparr>]], rg0)"
    by (cases "nextGenerationColored DEFAULT_SETTINGS (coloredGrid oneCellColoredSimulation)
          (randomSource oneCellColoredSimulation)") auto
  have p2: "color_mode DEFAULT_SETTINGS \<and> \<not> hasLive (Colored [[\<lparr> alive = False, color = None, age = None \<rparr>]])"
    by code_simp
  from extinction_resets [OF a1 v1, of "[[False]]"] p1
       extinction_resets [OF a2 v2, where cng = "[[\<lparr> alive = False, color = None, age = None \<rparr>]]" and ?rg0.0 = rg0] p2 n
  show ?thesis by blast
qed

subsection \<open>Revival attempts\<close>

text \<open>
  Claim C5. In a tick that computes a generation with \<^verbatim>\<open>try_revive_stuck_sim\<close> on and
  \<^verbatim>\<open>hard_reset_on_stuck\<close> off, when \<^verbatim>\<open>stuckCounter\<close> equals
  \<^verbatim>\<open>max_revival_attempts\<close> and the proposed grid has a live cell and is classified
  stuck, the tick performs a full reset, whatever \<^verbatim>\<open>fibonacciIndex\<close> is.
\<close>

theorem exhausted_revival_resets:
  assumes "advancing s hst st t" "viewportGrid s hst h w"
    and "try_revive_stuck_sim s" "\<not> hard_reset_on_stuck s"
    and "of_nat (stuckCounterRef st) = max_revival_attempts s"
  shows "(\<not> color_mode s \<and> nextGeneration s (grid st) = Inr ng \<and> hasLive (Plain ng) \<and>
          fst (isSimulationStuck s (Plain ng) (stateHistoryRef st)) \<longrightarrow>
            (\<exists>newGrid rg st'.
               createRandomGrid s (Some w) (Some h) (randomSource st) = Inr (newGrid, rg) \<and>
               rect newGrid h w \<and>
               gameLoop s hst st t = Inr (st', None) \<and>
               grid st' = newGrid \<and> stateHistoryRef st' = [] \<and>
               stuckCounterRef st' = 0 \<and> fibonacciIndexRef st' = 0)) \<and>
         (color_mode s \<and>
          nextGenerationColored s (coloredGrid st) (randomSource st) = Inr (cng, rg0) \<and>
          hasLive (Colored cng) \<and>
          fst (isSimulationStuck s (Colored cng) (stateHistoryRef st)) \<longrightarrow>
            (\<exists>newGrid rg st'.
               createRandomColoredGrid s (Some w) (Some h) rg0 = Inr (newGrid, rg) \<and>
               rect newGrid h w \<and>
               gameLoop s hst st t = Inr (st', None) \<and>
               coloredGrid st' = newGrid \<and> stateHistoryRef st' = [] \<and>
               stuckCounterRef st' = 0 \<and> fibonacciIndexRef st' = 0))"
proof (intro conjI impI)
  have over: "of_nat (stuckCounterRef st + 1) > max_revival_attempts s"
    using assms(5) [symmetric] by simp
  {
    assume a: "\<not> color_mode s \<and> nextGeneration s (grid st) = Inr ng \<and> hasLive (Plain ng) \<and>
          fst (isSimulationStuck s (Plain ng) (stateHistoryRef st))"
    then have "recoveryOf s (\<not> hasLive (Plain ng))
             (fst (isSimulationStuck s (Plain ng) (stateHistoryRef st)))
             (stuckCounterRef st) (fibonacciIndexRef st)
             (length (grid st) * length (hd (grid st))) = Reset"
      using assms(3,4) over by (simp add: recoveryOf_def)
    from tick_reset_plain [OF assms(1,2) _ _ this] a
    obtain newGrid rg where
      "createRandomGrid s (Some w) (Some h) (randomSource st) = Inr (newGrid, rg)" "rect newGrid h w"
      "gameLoop s hst st t =
               Inr (st\<lparr> stuckCounterRef := 0, stateHistoryRef := [], fibonacciIndexRef := 0,
                       randomSource := rg, grid := newGrid, targetGrid := [], isFading := False,
                       lastUpdateRef := t \<rparr>, None)"
      by blast
    then show "\<exists>newGrid rg st'.
                 createRandomGrid s (Some w) (Some h) (randomSource st) = Inr (newGrid, rg) \<and>
                 rect newGrid h w \<and>
                 gameLoop s hst st t = Inr (st', None) \<and>
                 grid st' = newGrid \<and> stateHistoryRef st' = [] \<and>
                 stuckCounterRef st' = 0 \<and> fibonacciIndexRef st' = 0"
      by simp
  }
  {
    assume a: "color_mode s \<and>
          nextGenerationColored s (coloredGrid st) (randomSource st) = Inr (cng, rg0) \<and>
          hasLive (Colored cng) \<and>
          fst (isSimulationStuck s (Colored cng) (stateHistoryRef st))"
    then have "recoveryOf s (\<not> hasLive (Colored cng))
             (fst (isSimulationStuck s (Colored cng) (stateHistoryRef st)))
             (stuckCounterRef st) (fibonacciIndexRef st)
             (length (coloredGrid st) * length (hd (coloredGrid st))) = Reset"
      using assms(3,4) over by (simp add: recoveryOf_def)
    from tick_reset_colored [OF assms(1,2) _ _ this] a
    obtain newGrid rg where
      "createRandomColoredGrid s (Some w) (Some h) rg0 = Inr (newGrid, rg)" "rect newGrid h w"
      "gameLoop s hst st t =
               Inr (st\<lparr> stuckCounterRef := 0, stateHistoryRef := [], fibonacciIndexRef := 0,
                       randomSource := rg, coloredGrid := newGrid, targetColoredGrid := [],
                       isFading := False, lastUpdateRef := t \<rparr>, None)"
      by blast
    then show "\<exists>newGrid rg st'.
                 createRandomColoredGrid s (Some w) (Some h) rg0 = Inr (newGrid, rg) \<and>
                 rect newGrid h w \<and>
                 gameLoop s hst st t = Inr (st', None) \<and>
                 coloredGrid st' = newGrid \<and> stateHistoryRef st' = [] \<and>
                 stuckCounterRef st' = 0 \<and> fibonacciIndexRef st' = 0"
      by simp
  }
qed

theorem exhausted_revival_resets_witness:
  "(\<exists>newGrid rg st'.
      createRandomGrid clippedSettings (Some 2) (Some 2)
        (randomSource (blockSimulation\<lparr> stuckCounterRef := 5, fibonacciIndexRef := 7 \<rparr>)) =
        Inr (newGrid, rg) \<and>
      rect newGrid 2 2 \<and>
      gameLoop clippedSettings fourCellHost
        (blockSimulation\<lparr> stuckCounterRef := 5, fibonacciIndexRef := 7 \<rparr>) 5000 = Inr (st', None) \<and>
      grid st' = newGrid \<and> stateHistoryRef st' = [] \<and>
      stuckCounterRef st' = 0 \<and> fibonacciIndexRef st' = 0) \<and>
   (\<exists>rg0 newGrid rg st'.
      nextGenerationColored clippedColorSettings
        (coloredGrid (coloredBlockSimulation\<lparr> stuckCounterRef := 5 \<rparr>))
        (randomSource (coloredBlockSimulation\<lparr> stuckCounterRef := 5 \<rparr>)) =
        Inr ([[\<lparr> alive = True, color = Some \<lparr> r = 28, g = 187, b = 84 \<rparr>, age = Some 2 \<rparr>, \<lparr> alive = True, color = Some \<lparr> r = 28, g = 187, b = 84 \<rparr>, age = Some 2 \<rparr>],
              [\<lparr> alive = True, color = Some \<lparr> r = 28, g = 187, b = 84 \<rparr>, age = Some 2 \<rparr>, \<lparr> alive = True, color = Some \<lparr> r = 28, g = 187, b = 84 \<rparr>, age = Some 2 \<rparr>]], rg0) \<and>
      createRandomColoredGrid clippedColorSettings (Some 2) (Some 2) rg0 = Inr (newGrid, rg) \<and>
      rect newGrid 2 2 \<and>
      gameLoop clippedColorSettings fourCellHost (coloredBlockSimulation\<lparr> stuckCounterRef := 5 \<rparr>) 5000 =
        Inr (st', None) \<and>
      coloredGrid st' = newGrid \<and> stateHistoryRef st' = [] \<and>
      stuckCounterRef st' = 0 \<and> fibonacciIndexRef st' = 0)"
proof -
  let ?st = "blockSimulation\<lparr> stuckCounterRef := 5, fibonacciIndexRef := 7 \<rparr>"
  let ?ct = "coloredBlockSimulation\<lparr> stuckCounterRef := 5 \<rparr>"
  let ?cng = "[[\<lparr> alive = True, color = Some \<lparr> r = 28, g = 187, b = 84 \<rparr>, age = Some 2 \<rparr>, \<lparr> alive = True, color = Some \<lparr> r = 28, g = 187, b = 84 \<rparr>, age = Some 2 \<rparr>],
              [\<lparr> alive = True, color = Some \<lparr> r = 28, g = 187, b = 84 \<rparr>, age = Some 2 \<rparr>, \<lparr> alive = True, color = Some \<lparr> r = 28, g = 187, b = 84 \<rparr>, age = Some 2 \<rparr>]]"
  have a1: "advancing clippedSettings fourCellHost ?st 5000" by code_simp
  have v1: "viewportGrid clippedSettings fourCellHost 2 2" by code_simp
  have s1: "try_revive_stuck_sim clippedSettings" "\<not> hard_reset_on_stuck clippedSettings"
    "of_nat (stuckCounterRef ?st) = max_revival_attempts clippedSettings" by code_simp+
  have p1: "\<not> color_mode clippedSettings \<and>
            nextGeneration clippedSettings (grid ?st) = Inr [[True, True], [True, True]] \<and>
            hasLive (Plain [[True, True], [True, True]]) \<and>
            fst (isSimulationStuck clippedSettings (Plain [[True, True], [True, True]]) (stateHistoryRef ?st))"
    by code_simp
  have a2: "advancing clippedColorSettings fourCellHost ?ct 5000" by code_simp
  have v2: "viewportGrid clippedColorSettings fourCellHost 2 2" by code_simp
  have s2: "try_revive_stuck_sim clippedColorSettings" "\<not> hard_reset_on_stuck clippedColorSettings"
    "of_nat (stuckCounterRef ?ct) = max_revival_attempts clippedColorSettings" by code_simp+
  have "map_sum id fst (nextGenerationColored clippedColorSettings (coloredGrid ?ct) (randomSource ?ct)) =
          Inr ?cng"
    by code_simp
  then obtain rg0 where n: "nextGenerationColored clippedColorSettings (coloredGrid ?ct) (randomSource ?ct) =
          Inr (?cng, rg0)"
    by (cases "nextGenerationColored clippedColorSettings (coloredGrid ?ct) (randomSource ?ct)") auto
  have p2: "color_mode clippedColorSettings \<and> hasLive (Colored ?cng) \<and>
            fst (isSimulationStuck clippedColorSettings (Colored ?cng) (stateHistoryRef ?ct))"
    by code_simp
  from exhausted_revival_resets [OF a1 v1 s1, of "[[True, True], [True, True]]"] p1
       exhausted_revival_resets [OF a2 v2 s2, where cng = ?cng and ?rg0.0 = rg0] p2 n
  show ?thesis by blast
qed

subsection \<open>Which grid a recovery replaces\<close>

text \<open>
  Claim C3, as amended. In a tick that computes a generation, every reset of the recovery
  logic replaces the current grid by the fresh random grid, empties the target grid and
  leaves no fade running; a perturbation that a fade follows replaces the target grid by
  the flipped grid, leaves the current grid unchanged and starts the fade. The recovery is
  the one that the specification prescribes for the proposed grid.
\<close>

theorem recovery_grids:
  assumes "advancing s hst st t"
  shows "(\<not> color_mode s \<and> nextGeneration s (grid st) = Inr ng \<and> viewportGrid s hst h w \<and>
          plainRecovery s st ng = Reset \<longrightarrow>
            (\<exists>newGrid rg st'.
               createRandomGrid s (Some w) (Some h) (randomSource st) = Inr (newGrid, rg) \<and>
               gameLoop s hst st t = Inr (st', None) \<and>
               grid st' = newGrid \<and> targetGrid st' = [] \<and> \<not> isFading st')) \<and>
         (\<not> color_mode s \<and> nextGeneration s (grid st) = Inr ng \<and> fadeFollows s \<and>
          rect (grid st) h0 w0 \<and> 0 < h0 \<and> 0 < w0 \<and> unit_draws (randomSource st) \<and>
          plainRecovery s st ng = Perturb k \<longrightarrow>
            (\<exists>flippedGrid rg st' drawn.
               flipRandomCells ng k (randomSource st) = Inr (flippedGrid, rg) \<and>
               gameLoop s hst st t = Inr (st', Some drawn) \<and>
               targetGrid st' = flippedGrid \<and> grid st' = grid st \<and> isFading st')) \<and>
         (color_mode s \<and>
          nextGenerationColored s (coloredGrid st) (randomSource st) = Inr (cng, rg0) \<and>
          viewportGrid s hst h w \<and> coloredRecovery s st cng = Reset \<longrightarrow>
            (\<exists>newGrid rg st'.
               createRandomColoredGrid s (Some w) (Some h) rg0 = Inr (newGrid, rg) \<and>
               gameLoop s hst st t = Inr (st', None) \<and>
               coloredGrid st' = newGrid \<and> targetColoredGrid st' = [] \<and> \<not> isFading st')) \<and>
         (color_mode s \<and>
          nextGenerationColored s (coloredGrid st) (randomSource st) = Inr (cng, rg0) \<and>
          fadeFollows s \<and> rect (coloredGrid st) h0 w0 \<and> 0 < h0 \<and> 0 < w0 \<and>
          unit_draws (randomSource st) \<and> coloredRecovery s st cng = Perturb k \<longrightarrow>
            (\<exists>flippedGrid rg st' drawn.
               flipRandomCellsColored cng k rg0 = Inr (flippedGrid, rg) \<and>
               gameLoop s hst st t = Inr (st', Some drawn) \<and>
               targetColoredGrid st' = flippedGrid \<and> coloredGrid st' = coloredGrid st \<and>
               isFading st'))"
proof (intro conjI impI)
  assume a: "\<not> color_mode s \<and> nextGeneration s (grid st) = Inr ng \<and> viewportGrid s hst h w \<and>
          plainRecovery s st ng = Reset"
  then have "\<exists>newGrid rg. createRandomGrid s (Some w) (Some h) (randomSource st) = Inr (newGrid, rg) \<and>
           rect newGrid h w \<and>
           gameLoop s hst st t =
             Inr (st\<lparr> stuckCounterRef := 0, stateHistoryRef := [], fibonacciIndexRef := 0,
                     randomSource := rg, grid := newGrid, targetGrid := [], isFading := False,
                     lastUpdateRef := t \<rparr>, None)"
    using tick_reset_plain [OF assms, of h w ng] by (simp add: plainRecovery_def)
  then obtain newGrid rg where
    "createRandomGrid s (Some w) (Some h) (randomSource st) = Inr (newGrid, rg)"
    "gameLoop s hst st t =
             Inr (st\<lparr> stuckCounterRef := 0, stateHistoryRef := [], fibonacciIndexRef := 0,
                     randomSource := rg, grid := newGrid, targetGrid := [], isFading := False,
                     lastUpdateRef := t \<rparr>, None)"
    by blast
  then show "\<exists>newGrid rg st'.
               createRandomGrid s (Some w) (Some h) (randomSource st) = Inr (newGrid, rg) \<and>
               gameLoop s hst st t = Inr (st', None) \<and>
               grid st' = newGrid \<and> targetGrid st' = [] \<and> \<not> isFading st'"
    by simp
next
  assume a: "\<not> color_mode s \<and> nextGeneration s (grid st) = Inr ng \<and> fadeFollows s \<and>
          rect (grid st) h0 w0 \<and> 0 < h0 \<and> 0 < w0 \<and> unit_draws (randomSource st) \<and>
          plainRecovery s st ng = Perturb k"
  then have "\<exists>flippedGrid rg drawn.
           flipRandomCells ng k (randomSource st) = Inr (flippedGrid, rg) \<and>
           gameLoop s hst st t =
             Inr (st\<lparr> stuckCounterRef := stuckCounterRef st + 1, randomSource := rg,
                     fibonacciIndexRef := fibonacciIndexRef st + 1, targetGrid := flippedGrid,
                     isFading := True, fadeStartTimeRef := t, lastUpdateRef := t \<rparr>, Some drawn)"
    using tick_perturb_plain [OF assms, of ng k h0 w0] by (simp add: plainRecovery_def)
  then obtain flippedGrid rg drawn where
    "flipRandomCells ng k (randomSource st) = Inr (flippedGrid, rg)"
    "gameLoop s hst st t =
             Inr (st\<lparr> stuckCounterRef := stuckCounterRef st + 1, randomSource := rg,
                     fibonacciIndexRef := fibonacciIndexRef st + 1, targetGrid := flippedGrid,
                     isFading := True, fadeStartTimeRef := t, lastUpdateRef := t \<rparr>, Some drawn)"
    by blast
  then show "\<exists>flippedGrid rg st' drawn.
               flipRandomCells ng k (randomSource st) = Inr (flippedGrid, rg) \<and>
               gameLoop s hst st t = Inr (st', Some drawn) \<and>
               targetGrid st' = flippedGrid \<and> grid st' = grid st \<and> isFading st'"
    by simp
next
  assume a: "color_mode s \<and>
          nextGenerationColored s (coloredGrid st) (randomSource st) = Inr (cng, rg0) \<and>
          viewportGrid s hst h w \<and> coloredRecovery s st cng = Reset"
  then have "\<exists>newGrid rg. createRandomColoredGrid s (Some w) (Some h) rg0 = Inr (newGrid, rg) \<and>
           rect newGrid h w \<and>
           gameLoop s hst st t =
             Inr (st\<lparr> stuckCounterRef := 0, stateHistoryRef := [], fibonacciIndexRef := 0,
                     randomSource := rg, coloredGrid := newGrid, targetColoredGrid := [],
                     isFading := False, lastUpdateRef := t \<rparr>, None)"
    using tick_reset_colored [OF assms, of h w cng rg0] by (simp add: coloredRecovery_def)
  then obtain newGrid rg where
    "createRandomColoredGrid s (Some w) (Some h) rg0 = Inr (newGrid, rg)"
    "gameLoop s hst st t =
             Inr (st\<lparr> stuckCounterRef := 0, stateHistoryRef := [], fibonacciIndexRef := 0,
                     randomSource := rg, coloredGrid := newGrid, targetColoredGrid := [],
                     isFading := False, lastUpdateRef := t \<rparr>, None)"
    by blast
  then show "\<exists>newGrid rg st'.
               createRandomColoredGrid s (Some w) (Some h) rg0 = Inr (newGrid, rg) \<and>
               gameLoop s hst st t = Inr (st', None) \<and>
               coloredGrid st' = newGrid \<and> targetColoredGrid st' = [] \<and> \<not> isFading st'"
    by simp
next
  assume a: "color_mode s \<and>
          nextGenerationColored s (coloredGrid st) (randomSource st) = Inr (cng, rg0) \<and>
          fadeFollows s \<and> rect (coloredGrid st) h0 w0 \<and> 0 < h0 \<and> 0 < w0 \<and>
          unit_draws (randomSource st) \<and> coloredRecovery s st cng = Perturb k"
  then have "\<exists>flippedGrid rg drawn.
           flipRandomCellsColored cng k rg0 = Inr (flippedGrid, rg) \<and>
           gameLoop s hst st t =
             Inr (st\<lparr> stuckCounterRef := stuckCounterRef st + 1, randomSource := rg,
                     fibonacciIndexRef := fibonacciIndexRef st + 1, targetColoredGrid := flippedGrid,
                     isFading := True, fadeStartTimeRef := t, lastUpdateRef := t \<rparr>, Some drawn)"
    using tick_perturb_colored [OF assms, of cng rg0 k h0 w0] by (simp add: coloredRecovery_def)
  then obtain flippedGrid rg drawn where
    "flipRandomCellsColored cng k rg0 = Inr (flippedGrid, rg)"
    "gameLoop s hst st t =
             Inr (st\<lparr> stuckCounterRef := stuckCounterRef st + 1, randomSource := rg,
                     fibonacciIndexRef := fibonacciIndexRef st + 1, targetColoredGrid := flippedGrid,
                     isFading := True, fadeStartTimeRef := t, lastUpdateRef := t \<rparr>, Some drawn)"
    by blast
  then show "\<exists>flippedGrid rg st' drawn.
               flipRandomCellsColored cng k rg0 = Inr (flippedGrid, rg) \<and>
               gameLoop s hst st t = Inr (st', Some drawn) \<and>
               targetColoredGrid st' = flippedGrid \<and> coloredGrid st' = coloredGrid st \<and>
               isFading st'"
    by simp
qed

theorem recovery_grids_witness:
  "(\<exists>newGrid rg st'.
      createRandomGrid standardSettings (Some 1) (Some 1) (randomSource oneCellSimulation) =
        Inr (newGrid, rg) \<and>
      gameLoop standardSettings oneCellHost oneCellSimulation 5000 = Inr (st', None) \<and>
      grid st' = newGrid \<and> targetGrid st' = [] \<and> \<not> isFading st') \<and>
   (\<exists>flippedGrid rg st' drawn.
      flipRandomCells [[True, True], [True, True]] 1 (randomSource blockSimulation) =
        Inr (flippedGrid, rg) \<and>
      gameLoop clippedSettings fourCellHost blockSimulation 5000 = Inr (st', Some drawn) \<and>
      targetGrid st' = flippedGrid \<and> grid st' = grid blockSimulation \<and> isFading st') \<and>
   (\<exists>rg0 newGrid rg st'.
      createRandomColoredGrid DEFAULT_SETTINGS (Some 1) (Some 1) rg0 = Inr (newGrid, rg) \<and>
      gameLoop DEFAULT_SETTINGS oneCellHost oneCellColoredSimulation 5000 = Inr (st', None) \<and>
      coloredGrid st' = newGrid \<and> targetColoredGrid st' = [] \<and> \<not> isFading st') \<and>
   (\<exists>rg0 flippedGrid rg st' drawn.
      flipRandomCellsColored
        [[\<lparr> alive = True, color = Some \<lparr> r = 28, g = 187, b = 84 \<rparr>, age = Some 2 \<rparr>,
          \<lparr> alive = True, color = Some \<lparr> r = 28, g = 187, b = 84 \<rparr>, age = Some 2 \<rparr>],
         [\<lparr> alive = True, color = Some \<lparr> r = 28, g = 187, b = 84 \<rparr>, age = Some 2 \<rparr>,
          \<lparr> alive = True, color = Some \<lparr> r = 28, g = 187, b = 84 \<rparr>, age = Some 2 \<rparr>]] 1 rg0 =
        Inr (flippedGrid, rg) \<and>
      gameLoop clippedColorSettings fourCellHost coloredBlockSimulation 5000 = Inr (st', Some drawn) \<and>
      targetColoredGrid st' = flippedGrid \<and>
      coloredGrid st' = coloredGrid coloredBlockSimulation \<and> isFading st')"
proof -
  let ?dead = "[[\<lparr> alive = False, color = None, age = None \<rparr>]]"
  let ?cng = "[[\<lparr> alive = True, color = Some \<lparr> r = 28, g = 187, b = 84 \<rparr>, age = Some 2 \<rparr>,
          \<lparr> alive = True, color = Some \<lparr> r = 28, g = 187, b = 84 \<rparr>, age = Some 2 \<rparr>],
         [\<lparr> alive = True, color = Some \<lparr> r = 28, g = 187, b = 84 \<rparr>, age = Some 2 \<rparr>,
          \<lparr> alive = True, color = Some \<lparr> r = 28, g = 187, b = 84 \<rparr>, age = Some 2 \<rparr>]]"
  have u: "unit_draws halves" by (simp add: unit_draws_def halves_def)
  have a1: "advancing standardSettings oneCellHost oneCellSimulation 5000" by code_simp
  have p1: "\<not> color_mode standardSettings \<and>
            nextGeneration standardSettings (grid oneCellSimulation) = Inr [[False]] \<and>
            viewportGrid standardSettings oneCellHost 1 1 \<and>
            plainRecovery standardSettings oneCellSimulation [[False]] = Reset" by code_simp
  have a2: "advancing clippedSettings fourCellHost blockSimulation 5000" by code_simp
  have "\<not> color_mode clippedSettings \<and>
            nextGeneration clippedSettings (grid blockSimulation) = Inr [[True, True], [True, True]] \<and>
            fadeFollows clippedSettings \<and> rect (grid blockSimulation) 2 2 \<and>
            plainRecovery clippedSettings blockSimulation [[True, True], [True, True]] = Perturb 1"
    by code_simp
  with u have p2: "\<not> color_mode clippedSettings \<and>
            nextGeneration clippedSettings (grid blockSimulation) = Inr [[True, True], [True, True]] \<and>
            fadeFollows clippedSettings \<and> rect (grid blockSimulation) 2 2 \<and> 0 < (2::nat) \<and>
            0 < (2::nat) \<and> unit_draws (randomSource blockSimulation) \<and>
            plainRecovery clippedSettings blockSimulation [[True, True], [True, True]] = Perturb 1"
    by (simp add: blockSimulation_def)
  have a3: "advancing DEFAULT_SETTINGS oneCellHost oneCellColoredSimulation 5000" by code_simp
  have "map_sum id fst (nextGenerationColored DEFAULT_SETTINGS (coloredGrid oneCellColoredSimulation)
          (randomSource oneCellColoredSimulation)) = Inr ?dead"
    by code_simp
  then obtain rg3 where n3: "nextGenerationColored DEFAULT_SETTINGS (coloredGrid oneCellColoredSimulation)
          (randomSource oneCellColoredSimulation) = Inr (?dead, rg3)"
    by (cases "nextGenerationColored DEFAULT_SETTINGS (coloredGrid oneCellColoredSimulation)
          (randomSource oneCellColoredSimulation)") auto
  have p3: "color_mode DEFAULT_SETTINGS \<and> viewportGrid DEFAULT_SETTINGS oneCellHost 1 1 \<and>
            coloredRecovery DEFAULT_SETTINGS oneCellColoredSimulation ?dead = Reset" by code_simp
  have a4: "advancing clippedColorSettings fourCellHost coloredBlockSimulation 5000" by code_simp
  have "map_sum id fst (nextGenerationColored clippedColorSettings (coloredGrid coloredBlockSimulation)
          (randomSource coloredBlockSimulation)) = Inr ?cng"
    by code_simp
  then obtain rg4 where n4: "nextGenerationColored clippedColorSettings (coloredGrid coloredBlockSimulation)
          (randomSource coloredBlockSimulation) = Inr (?cng, rg4)"
    by (cases "nextGenerationColored clippedColorSettings (coloredGrid coloredBlockSimulation)
          (randomSource coloredBlockSimulation)") auto
  have "color_mode clippedColorSettings \<and> fadeFollows clippedColorSettings \<and>
            rect (coloredGrid coloredBlockSimulation) 2 2 \<and>
            coloredRecovery clippedColorSettings coloredBlockSimulation ?cng = Perturb 1"
    by code_simp
  with u have p4: "color_mode clippedColorSettings \<and> fadeFollows clippedColorSettings \<and>
            rect (coloredGrid coloredBlockSimulation) 2 2 \<and> 0 < (2::nat) \<and> 0 < (2::nat) \<and>
            unit_draws (randomSource coloredBlockSimulation) \<and>
            coloredRecovery clippedColorSettings coloredBlockSimulation ?cng = Perturb 1"
    by (simp add: coloredBlockSimulation_def)
  from recovery_grids [OF a1, where ng = "[[False]]" and h = 1 and w = 1] p1
  have c1: "\<exists>newGrid rg st'.
      createRandomGrid standardSettings (Some 1) (Some 1) (randomSource oneCellSimulation) =
        Inr (newGrid, rg) \<and>
      gameLoop standardSettings oneCellHost oneCellSimulation 5000 = Inr (st', None) \<and>
      grid st' = newGrid \<and> targetGrid st' = [] \<and> \<not> isFading st'" by blast
  from recovery_grids [OF a2, where ng = "[[True, True], [True, True]]" and ?h0.0 = 2 and ?w0.0 = 2
         and k = 1] p2
  have c2: "\<exists>flippedGrid rg st' drawn.
      flipRandomCells [[True, True], [True, True]] 1 (randomSource blockSimulation) =
        Inr (flippedGrid, rg) \<and>
      gameLoop clippedSettings fourCellHost blockSimulation 5000 = Inr (st', Some drawn) \<and>
      targetGrid st' = flippedGrid \<and> grid st' = grid blockSimulation \<and> isFading st'" by blast
  from recovery_grids [OF a3, where cng = ?dead and ?rg0.0 = rg3 and h = 1 and w = 1] p3 n3
  have c3: "\<exists>rg0 newGrid rg st'.
      createRandomColoredGrid DEFAULT_SETTINGS (Some 1) (Some 1) rg0 = Inr (newGrid, rg) \<and>
      gameLoop DEFAULT_SETTINGS oneCellHost oneCellColoredSimulation 5000 = Inr (st', None) \<and>
      coloredGrid st' = newGrid \<and> targetColoredGrid st' = [] \<and> \<not> isFading st'" by blast
  from recovery_grids [OF a4, where cng = ?cng and ?rg0.0 = rg4 and ?h0.0 = 2 and ?w0.0 = 2
         and k = 1] p4 n4
  have c4: "\<exists>rg0 flippedGrid rg st' drawn.
      flipRandomCellsColored ?cng 1 rg0 = Inr (flippedGrid, rg) \<and>
      gameLoop clippedColorSettings fourCellHost coloredBlockSimulation 5000 = Inr (st', Some drawn) \<and>
      targetColoredGrid st' = flippedGrid \<and>
      coloredGrid st' = coloredGrid coloredBlockSimulation \<and> isFading st'" by blast
  from c1 c2 c3 c4 show ?thesis by blast
qed

text \<open>
  The claim as it was stated says of every reset that it replaces the target grid and
  leaves the current grid unchanged. The single live cell of the example dies; the tick
  resets, after which the current grid is the new random grid, the target grid is empty
  and no fade runs.
\<close>

theorem recovery_grids_counterexample:
  "plainRecovery standardSettings oneCellSimulation [[False]] = Reset \<and>
   nextGeneration standardSettings (grid oneCellSimulation) = Inr [[False]] \<and>
   grid oneCellSimulation = [[True]] \<and>
   map_sum id (grid \<circ> fst) (gameLoop standardSettings oneCellHost oneCellSimulation 5000) =
     Inr [[False]] \<and>
   map_sum id (targetGrid \<circ> fst) (gameLoop standardSettings oneCellHost oneCellSimulation 5000) =
     Inr [] \<and>
   map_sum id (isFading \<circ> fst) (gameLoop standardSettings oneCellHost oneCellSimulation 5000) =
     Inr False"
  by code_simp

end
